(* ===== verification/Prelude.thy ===== *)
theory Prelude
  imports Main "HOL-Library.Word" "HOL-Library.List_Lexorder" "HOL-Library.Char_ord"
    "HOL-Library.Mapping" "HOL-Library.AList_Mapping" "HOL-Library.Multiset"
begin

section \<open>Prelude: Go computations, their combinators and shared lemmas\<close>

text \<open>
  A call of a Go function either returns or panics, and it may change the world it runs in
  (the storage backends, the clock, the log). A computation is therefore a function from a
  world to an outcome and the next world. The world is a type variable: nothing is assumed
  of it here.

  Go returns an error beside a value. Functions that return either a value or an error give
  a sum (\<open>Inl\<close> the error, \<open>Inr\<close> the value); those that may return both give a
  pair of options.
\<close>

text \<open>The collections the component proofs share: \<open>comp_simps\<close> unfolds computations,
  \<open>frame_rules\<close> are the introduction rules of \<open>preserves\<close>, \<open>total_rules\<close>
  those of \<open>panic_free\<close> and \<open>finish_rules\<close> those of \<open>never_unfinished\<close>.\<close>

named_theorems comp_simps
named_theorems frame_rules
named_theorems total_rules
named_theorems finish_rules

subsection \<open>Outcomes and computations\<close>

datatype panic = NilPointer | IndexOutOfRange | TypeAssertion | ExplicitPanic

text \<open>\<open>Unfinished\<close> is the outcome of a recursion cut off by its fuel; it is no
  behaviour of the code, and the components prove when it cannot occur.\<close>

datatype 'a run = Done 'a | Panic panic | Unfinished

type_synonym ('w, 'a) comp = "'w \<Rightarrow> 'a run \<times> 'w"

definition ret :: "'a \<Rightarrow> ('w, 'a) comp" where
  "ret a = (\<lambda>w. (Done a, w))"

definition lift :: "'a run \<Rightarrow> ('w, 'a) comp" where
  "lift r = (\<lambda>w. (r, w))"

definition panicM :: "panic \<Rightarrow> ('w, 'a) comp" where
  "panicM p = (\<lambda>w. (Panic p, w))"

definition bindM :: "('w, 'a) comp \<Rightarrow> ('a \<Rightarrow> ('w, 'b) comp) \<Rightarrow> ('w, 'b) comp" where
  "bindM m f = (\<lambda>w. case m w of
      (Done a, w') \<Rightarrow> f a w'
    | (Panic p, w') \<Rightarrow> (Panic p, w')
    | (Unfinished, w') \<Rightarrow> (Unfinished, w'))"

text \<open>The \<open>if err != nil { return nil, err }\<close> that follows a call.\<close>

definition tryM ::
  "('w, 'e + 'a) comp \<Rightarrow> ('a \<Rightarrow> ('w, 'e + 'b) comp) \<Rightarrow> ('w, 'e + 'b) comp" where
  "tryM m f = bindM m (\<lambda>r. case r of Inl e \<Rightarrow> ret (Inl e) | Inr a \<Rightarrow> f a)"

text \<open>The same for a call that returns only an error.\<close>

definition checkM ::
  "('w, 'e option) comp \<Rightarrow> ('w, 'e + 'b) comp \<Rightarrow> ('w, 'e + 'b) comp" where
  "checkM m k = bindM m (\<lambda>r. case r of Some e \<Rightarrow> ret (Inl e) | None \<Rightarrow> k)"

text \<open>The same for code that does not touch the world.\<close>

definition tryR :: "('e + 'a) run \<Rightarrow> ('a \<Rightarrow> ('e + 'b) run) \<Rightarrow> ('e + 'b) run" where
  "tryR r f = (case r of
      Done (Inr a) \<Rightarrow> f a
    | Done (Inl e) \<Rightarrow> Done (Inl e)
    | Panic p \<Rightarrow> Panic p
    | Unfinished \<Rightarrow> Unfinished)"

text \<open>A call of the world that cannot panic, as the external parameters give them.\<close>

definition call :: "('w \<Rightarrow> 'a \<times> 'w) \<Rightarrow> ('w, 'a) comp" where
  "call f = (\<lambda>w. case f w of (a, w') \<Rightarrow> (Done a, w'))"

text \<open>\<open>for _, x := range xs { if err := body(x); err != nil { return err } }\<close>\<close>

fun forM :: "'a list \<Rightarrow> ('a \<Rightarrow> ('w, 'e + unit) comp) \<Rightarrow> ('w, 'e + unit) comp" where
  "forM [] body = ret (Inr ())"
| "forM (x # xs) body = tryM (body x) (\<lambda>_. forM xs body)"

text \<open>A pointer dereference: a nil pointer panics.\<close>

definition deref :: "'a option \<Rightarrow> ('w, 'a) comp" where
  "deref p = (case p of None \<Rightarrow> panicM NilPointer | Some a \<Rightarrow> ret a)"

subsection \<open>Unfolding computations\<close>

lemma deref_simps [simp]:
  "deref (Some a) = ret a"
  "deref None = panicM NilPointer"
  by (simp_all add: deref_def)

lemma ret_run [simp, comp_simps]: "ret a w = (Done a, w)"
  by (simp add: ret_def)

lemma lift_run [simp, comp_simps]: "lift r w = (r, w)"
  by (simp add: lift_def)

lemma panicM_run [simp, comp_simps]: "panicM p w = (Panic p, w)"
  by (simp add: panicM_def)

lemma bindM_ret [simp]: "bindM (ret a) f = f a"
  by (rule ext) (simp add: bindM_def)

lemma bindM_Pair [simp]: "bindM (Pair (Done a)) f = f a"
  by (rule ext) (simp add: bindM_def)

lemma bindM_panicM [simp]: "bindM (panicM p) f = panicM p"
  by (rule ext) (simp add: bindM_def)

lemma bindM_lift_Done [simp]: "bindM (lift (Done a)) f = f a"
  by (rule ext) (simp add: bindM_def)

lemma bindM_lift_Panic [simp]: "bindM (lift (Panic p)) f = panicM p"
  by (rule ext) (simp add: bindM_def)

lemma bindM_lift_Unfinished [simp]: "bindM (lift Unfinished) f = lift Unfinished"
  by (rule ext) (simp add: bindM_def)

lemma bindM_cong: "m = m' \<Longrightarrow> (\<And>a. f a = g a) \<Longrightarrow> bindM m f = bindM m' g"
  by presburger

lemma bindM_assoc: "bindM (bindM m f) g = bindM m (\<lambda>a. bindM (f a) g)"
  by (auto simp: bindM_def fun_eq_iff split: run.splits prod.splits)

lemma tryM_bindM: "tryM (bindM m f) g = bindM m (\<lambda>a. tryM (f a) g)"
  by (simp add: tryM_def bindM_assoc)

lemma tryM_ret_Inl [simp]: "tryM (ret (Inl e)) f = ret (Inl e)"
  by (simp add: tryM_def del: ret_run)

lemma tryM_ret_Inr [simp]: "tryM (ret (Inr a)) f = f a"
  by (simp add: tryM_def)

lemma tryM_lift [simp]:
  "tryM (lift (Done (Inr a))) f = f a"
  "tryM (lift (Done (Inl e))) f = ret (Inl e)"
  by (simp_all add: tryM_def del: ret_run lift_run)

lemma tryM_panicM [simp]: "tryM (panicM p) f = panicM p"
  by (simp add: tryM_def)

text \<open>Stepping a computation whose first call is known.\<close>

lemma bindM_Done: "m w = (Done a, w') \<Longrightarrow> bindM m f w = f a w'"
  by (simp add: bindM_def)

lemma bindM_Panic: "m w = (Panic p, w') \<Longrightarrow> bindM m f w = (Panic p, w')"
  by (simp add: bindM_def)

lemma tryM_Inr: "m w = (Done (Inr a), w') \<Longrightarrow> tryM m f w = f a w'"
  by (simp add: tryM_def bindM_def)

lemma tryM_Inl: "m w = (Done (Inl e), w') \<Longrightarrow> tryM m f w = (Done (Inl e), w')"
  by (simp add: tryM_def bindM_def)

lemma tryM_Panic: "m w = (Panic p, w') \<Longrightarrow> tryM m f w = (Panic p, w')"
  by (simp add: tryM_def bindM_def)

lemma tryM_Unfinished: "m w = (Unfinished, w') \<Longrightarrow> tryM m f w = (Unfinished, w')"
  by (simp add: tryM_def bindM_def)

lemmas tryM_steps = tryM_Inr tryM_Inl tryM_Panic tryM_Unfinished

lemma checkM_None: "m w = (Done None, w') \<Longrightarrow> checkM m k w = k w'"
  by (simp add: checkM_def bindM_def)

lemma checkM_Some: "m w = (Done (Some e), w') \<Longrightarrow> checkM m k w = (Done (Inl e), w')"
  by (simp add: checkM_def bindM_def)

lemma call_run [comp_simps]: "call f w = (Done (fst (f w)), snd (f w))"
  by (simp add: call_def split: prod.splits)

lemma call_Done_iff [simp]: "call f w = (Done a, w') \<longleftrightarrow> f w = (a, w')"
  by (auto simp: call_run)

lemma call_no_Panic [simp]: "call f w \<noteq> (Panic p, w')" "call f w \<noteq> (Unfinished, w')"
  by (simp_all add: call_run)

lemma bindM_call [simp]: "bindM (call f) g w = g (fst (f w)) (snd (f w))"
  by (simp add: bindM_def call_run)

lemma checkM_call [simp]:
  "checkM (call f) k w = (case f w of (None, w') \<Rightarrow> k w' | (Some e, w') \<Rightarrow> (Done (Inl e), w'))"
  by (cases "f w") (simp add: checkM_def split: option.split)

text \<open>Reading a finished computation backwards: which calls it made.\<close>

lemma bindM_Done_iff:
  "bindM m f w = (Done b, w') \<longleftrightarrow> (\<exists>a w1. m w = (Done a, w1) \<and> f a w1 = (Done b, w'))"
  by (auto simp: bindM_def split: run.splits prod.splits)

lemma tryM_Inr_iff:
  "tryM m f w = (Done (Inr b), w') \<longleftrightarrow>
     (\<exists>a w1. m w = (Done (Inr a), w1) \<and> f a w1 = (Done (Inr b), w'))"
  by (auto simp: tryM_def bindM_Done_iff split: sum.splits) (metis sum.exhaust)

lemma checkM_Inr_iff:
  "checkM m k w = (Done (Inr b), w') \<longleftrightarrow>
     (\<exists>w1. m w = (Done None, w1) \<and> k w1 = (Done (Inr b), w'))"
  by (auto simp: checkM_def bindM_Done_iff split: option.splits)

text \<open>The same as elimination rules, which leave a case distinction on the result open.\<close>

lemma bindM_DoneE:
  assumes "bindM m f w = (Done b, w')"
  obtains a w1 where "m w = (Done a, w1)" "f a w1 = (Done b, w')"
  using assms by (auto simp: bindM_Done_iff)

lemma tryM_InrE:
  assumes "tryM m f w = (Done (Inr b), w')"
  obtains a w1 where "m w = (Done (Inr a), w1)" "f a w1 = (Done (Inr b), w')"
  using assms by (auto simp: tryM_Inr_iff)

lemma checkM_InrE:
  assumes "checkM m k w = (Done (Inr b), w')"
  obtains w1 where "m w = (Done None, w1)" "k w1 = (Done (Inr b), w')"
  using assms unfolding checkM_Inr_iff by blast

lemma forM_map: "forM (map f xs) body = forM xs (\<lambda>x. body (f x))"
  by (induction xs) auto

text \<open>A loop that finished without an error ran each body without one. What a body
  establishes for its element and no other body destroys holds for all of them at the end.\<close>

lemma forM_establishes:
  assumes "forM xs body w = (Done (Inr u), w')"
    and est: "\<And>x w1 w2. x \<in> set xs \<Longrightarrow> body x w1 = (Done (Inr ()), w2) \<Longrightarrow> Q x w2"
    and keep: "\<And>x y w1 w2. x \<in> set xs \<Longrightarrow> body x w1 = (Done (Inr ()), w2) \<Longrightarrow> Q y w1 \<Longrightarrow> Q y w2"
  shows "x \<in> set xs \<or> Q x w \<Longrightarrow> Q x w'"
  using assms
proof (induction xs arbitrary: w)
  case (Cons y ys)
  then obtain w1 where body: "body y w = (Done (Inr ()), w1)"
    and rest: "forM ys body w1 = (Done (Inr u), w')"
    by (auto simp: tryM_Inr_iff)
  have "x \<in> set ys \<or> Q x w1"
    using Cons.prems(1,3,4) body by (metis list.set_intros(1) set_ConsD)
  then show ?case
    using Cons.IH [OF _ rest] Cons.prems(3,4) by (meson list.set_intros(2))
qed auto

lemma tryR_simps [simp]:
  "tryR (Done (Inr a)) f = f a"
  "tryR (Done (Inl e)) f = Done (Inl e)"
  "tryR (Panic p) f = Panic p"
  by (simp_all add: tryR_def)

lemma tryR_Inr_iff: "tryR r f = Done (Inr b) \<longleftrightarrow> (\<exists>a. r = Done (Inr a) \<and> f a = Done (Inr b))"
  by (auto simp: tryR_def split: run.splits sum.splits)

lemma tryR_finished: "r \<noteq> Unfinished \<Longrightarrow> (\<And>a. f a \<noteq> Unfinished) \<Longrightarrow> tryR r f \<noteq> Unfinished"
  by (auto simp: tryR_def split: run.splits sum.splits)

subsection \<open>Frames: what a computation leaves alone\<close>

text \<open>\<open>preserves P m\<close>: whatever \<open>m\<close> does, \<open>P\<close> still holds of the world after it,
  if it held before. The rules below make it compositional.\<close>

definition preserves :: "('w \<Rightarrow> bool) \<Rightarrow> ('w, 'a) comp \<Rightarrow> bool" where
  "preserves P m \<longleftrightarrow> (\<forall>w. P w \<longrightarrow> P (snd (m w)))"

lemma preservesI: "(\<And>w r w'. P w \<Longrightarrow> m w = (r, w') \<Longrightarrow> P w') \<Longrightarrow> preserves P m"
  unfolding preserves_def by (metis prod.collapse)

lemma preservesD: "preserves P m \<Longrightarrow> m w = (r, w') \<Longrightarrow> P w \<Longrightarrow> P w'"
  unfolding preserves_def by (metis snd_conv)

lemma preserves_ret [frame_rules]: "preserves P (ret a)"
  by (simp add: preserves_def)

lemma preserves_lift [frame_rules]: "preserves P (lift r)"
  by (simp add: preserves_def)

lemma preserves_panicM [frame_rules]: "preserves P (panicM p)"
  by (simp add: preserves_def)

lemma preserves_bindM [frame_rules]:
  assumes "preserves P m" and "\<And>a. preserves P (f a)"
  shows "preserves P (bindM m f)"
proof (rule preservesI)
  fix w r w'
  assume "P w" and run: "bindM m f w = (r, w')"
  obtain r1 w1 where m: "m w = (r1, w1)" by fastforce
  with assms(1) \<open>P w\<close> have "P w1" by (auto dest: preservesD)
  with run m assms(2) show "P w'"
    by (cases r1) (auto simp: bindM_def dest: preservesD)
qed

lemma preserves_tryM [frame_rules]:
  "preserves P m \<Longrightarrow> (\<And>a. preserves P (f a)) \<Longrightarrow> preserves P (tryM m f)"
  unfolding tryM_def by (rule preserves_bindM) (auto split: sum.split intro: preserves_ret)

lemma preserves_checkM [frame_rules]:
  "preserves P m \<Longrightarrow> preserves P k \<Longrightarrow> preserves P (checkM m k)"
  unfolding checkM_def by (rule preserves_bindM) (auto split: option.split intro: preserves_ret)

lemma preserves_call: "(\<And>w. P w \<Longrightarrow> P (snd (f w))) \<Longrightarrow> preserves P (call f)"
  by (simp add: preserves_def call_run)

lemma preserves_deref [frame_rules]: "preserves P (deref p)"
  unfolding deref_def by (cases p) (simp_all add: preserves_ret preserves_panicM)

lemma preserves_forM [frame_rules]:
  "(\<And>x. x \<in> set xs \<Longrightarrow> preserves P (body x)) \<Longrightarrow> preserves P (forM xs body)"
  by (induction xs) (auto intro!: preserves_ret preserves_tryM)

subsection \<open>Computations that never panic\<close>

definition panic_free :: "('w, 'a) comp \<Rightarrow> bool" where
  "panic_free m \<longleftrightarrow> (\<forall>w. \<exists>a w'. m w = (Done a, w'))"

lemma panic_freeD: "panic_free m \<Longrightarrow> \<exists>a w'. m w = (Done a, w')"
  by (simp add: panic_free_def)

lemma panic_free_ret [total_rules]: "panic_free (ret a)"
  by (simp add: panic_free_def)

lemma panic_free_lift [total_rules]: "panic_free (lift (Done a))"
  by (simp add: panic_free_def)

lemma panic_free_call [total_rules]: "panic_free (call f)"
  by (simp add: panic_free_def call_run)

lemma panic_free_bindM [total_rules]:
  assumes "panic_free m" and "\<And>a. panic_free (f a)"
  shows "panic_free (bindM m f)"
  unfolding panic_free_def
proof
  fix w
  obtain a w1 where "m w = (Done a, w1)" using panic_freeD [OF assms(1)] by blast
  moreover obtain b w2 where "f a w1 = (Done b, w2)" using panic_freeD [OF assms(2)] by blast
  ultimately show "\<exists>b w'. bindM m f w = (Done b, w')" by (simp add: bindM_def)
qed

lemma panic_free_tryM [total_rules]:
  "panic_free m \<Longrightarrow> (\<And>a. panic_free (f a)) \<Longrightarrow> panic_free (tryM m f)"
  unfolding tryM_def by (rule panic_free_bindM) (auto split: sum.split intro: panic_free_ret)

lemma panic_free_checkM [total_rules]:
  "panic_free m \<Longrightarrow> panic_free k \<Longrightarrow> panic_free (checkM m k)"
  unfolding checkM_def by (rule panic_free_bindM) (auto split: option.split intro: panic_free_ret)

lemma panic_free_forM [total_rules]:
  "(\<And>x. x \<in> set xs \<Longrightarrow> panic_free (body x)) \<Longrightarrow> panic_free (forM xs body)"
  by (induction xs) (auto intro!: panic_free_ret panic_free_tryM)

subsection \<open>Computations that never run out of fuel\<close>

definition never_unfinished :: "('w, 'a) comp \<Rightarrow> bool" where
  "never_unfinished m \<longleftrightarrow> (\<forall>w. fst (m w) \<noteq> Unfinished)"

lemma never_unfinished_bindM [finish_rules]:
  "never_unfinished m \<Longrightarrow> (\<And>a. never_unfinished (f a)) \<Longrightarrow> never_unfinished (bindM m f)"
  unfolding never_unfinished_def bindM_def by (auto split: run.split prod.split) (metis fst_conv)

lemma never_unfinished_ret [finish_rules]:
  "never_unfinished (ret a)" "never_unfinished (panicM p)" "never_unfinished (call f)"
  by (simp_all add: never_unfinished_def call_run)

lemma never_unfinished_lift [finish_rules]: "r \<noteq> Unfinished \<Longrightarrow> never_unfinished (lift r)"
  by (simp add: never_unfinished_def)

lemma never_unfinished_tryM [finish_rules]:
  "never_unfinished m \<Longrightarrow> (\<And>a. never_unfinished (f a)) \<Longrightarrow> never_unfinished (tryM m f)"
  unfolding tryM_def
  by (rule never_unfinished_bindM) (auto intro: never_unfinished_ret split: sum.split simp del: ret_run)

lemma never_unfinished_checkM [finish_rules]:
  "never_unfinished m \<Longrightarrow> never_unfinished k \<Longrightarrow> never_unfinished (checkM m k)"
  unfolding checkM_def
  by (rule never_unfinished_bindM) (auto intro: never_unfinished_ret split: option.split simp del: ret_run)

lemma never_unfinished_forM [finish_rules]:
  "(\<And>x. never_unfinished (body x)) \<Longrightarrow> never_unfinished (forM xs body)"
  by (induction xs) (auto intro!: never_unfinished_ret never_unfinished_tryM simp del: ret_run)

subsection \<open>Generic facts about lists and maps\<close>

lemma sort_idem [simp]: "sort (sort xs) = sort xs" for xs :: "'a::linorder list"
  by (simp add: sorted_sort_id)

lemma sort_eq_mset: "mset xs = mset ys \<Longrightarrow> sort xs = sort ys" for xs :: "'a::linorder list"
  by (metis properties_for_sort mset_sort sorted_sort)

lemma sort_eq_iff_mset: "sort xs = sort ys \<longleftrightarrow> mset xs = mset ys" for xs :: "'a::linorder list"
  by (metis mset_sort sort_eq_mset)

lemma sort_singleton [simp]: "sort [x] = [x]" for x :: "'a::linorder"
  by simp

end
