(* ===== verification/Messages.thy ===== *)
theory Messages
  imports Prelude
begin

section \<open>Messages, errors and the code outside the repository\<close>

text \<open>
  The data the service passes around. \<open>AssetReference\<close> and \<open>Asset\<close> are the
  repository's own messages (\<open>pkg/proto/asset\<close>); the others are the Remote Asset and
  Remote Execution API messages it exchanges, with the fields the code reads or writes. A
  message field that Go holds by pointer and that may be nil is an \<open>option\<close>.

  Everything that lives outside the repository is a field of \<open>ext\<close>, \<open>BlobAccess\<close>
  or \<open>Authorizer\<close>: digests and buffers (bb-storage), status errors (grpc), timestamps
  (protobuf), the clock and the log. The definitions take these records as arguments and
  assume nothing of them; what a theorem needs is one of the named hypotheses below.
\<close>

type_synonym bytes = "8 word list"

subsection \<open>Status codes and errors\<close>

text \<open>gRPC status codes are numbers; these are the ones the code names.\<close>

type_synonym Code = int

abbreviation code_OK :: Code where "code_OK \<equiv> 0"
abbreviation code_InvalidArgument :: Code where "code_InvalidArgument \<equiv> 3"
abbreviation code_NotFound :: Code where "code_NotFound \<equiv> 5"
abbreviation code_PermissionDenied :: Code where "code_PermissionDenied \<equiv> 7"
abbreviation code_FailedPrecondition :: Code where "code_FailedPrecondition \<equiv> 9"
abbreviation code_Aborted :: Code where "code_Aborted \<equiv> 10"
abbreviation code_Unimplemented :: Code where "code_Unimplemented \<equiv> 12"
abbreviation code_Internal :: Code where "code_Internal \<equiv> 13"

text \<open>A Go error: one that carries a gRPC status (code and message), or any other.\<close>

datatype error =
    StatusError Code string
  | PlainError string

text \<open>\<open>google.rpc.Status\<close>, as responses and configurations hold it.\<close>

record Status =
  status_Code :: Code
  status_Message :: string

subsection \<open>Time\<close>

text \<open>A \<open>time.Time\<close>: an instant (nanoseconds since the epoch) and the location it is
  read in. \<open>Before\<close> and \<open>Equal\<close> compare instants; the operators \<open>==\<close> and
  \<open>!=\<close> on the struct compare the location too.\<close>

datatype Location = Local | UTC

record time =
  instant :: int
  location :: Location

definition Before :: "time \<Rightarrow> time \<Rightarrow> bool" where
  "Before t u \<longleftrightarrow> instant t < instant u"

definition TimeEqual :: "time \<Rightarrow> time \<Rightarrow> bool" where
  "TimeEqual t u \<longleftrightarrow> instant t = instant u"

text \<open>\<open>time.Unix(0, 0)\<close> is in the local zone.\<close>

definition Unix_0_0 :: time where
  "Unix_0_0 = \<lparr>instant = 0, location = Local\<rparr>"

record Timestamp =
  Seconds :: int
  Nanos :: int

subsection \<open>Digests, qualifiers, assets\<close>

record Digest =
  Hash :: string
  SizeBytes :: int

datatype Qualifier = Qualifier (Name: string) (Value: string)

record AssetReference =
  RefUris :: "string list"
  RefQualifiers :: "Qualifier list"

text \<open>A proto3 enum is open: a message may carry a number the schema does not name.\<close>

datatype AssetType = BLOB | DIRECTORY | OtherType int

record Asset =
  AssetDigest :: "Digest option"
  ExpireAt :: "Timestamp option"
  LastUpdated :: "Timestamp option"
  AssetTypeOf :: AssetType

text \<open>The values of \<open>remoteexecution.DigestFunction_Value\<close> the code names.\<close>

datatype DigestFunction_Value =
    DF_UNKNOWN | DF_SHA256 | DF_SHA1 | DF_MD5 | DF_VSO | DF_SHA384 | DF_SHA512
  | DF_SHA256TREE | DF_Other int

subsection \<open>Remote Execution API messages\<close>

type_synonym Platform = "(string \<times> string) list"

datatype OutputDirectoryFormat = TREE_ONLY | DIRECTORY_ONLY | TREE_AND_DIRECTORY

record Command =
  Arguments :: "string list"
  OutputPaths :: "string list"
  DirectoryFormat :: OutputDirectoryFormat
  CommandPlatform :: "Platform option"

record Action =
  CommandDigest :: Digest
  InputRootDigest :: Digest
  ActionPlatform :: "Platform option"

record FileNode =
  FileName :: string
  FileDigest :: "Digest option"

record DirectoryNode =
  DirName :: string
  DirDigest :: "Digest option"

record Directory =
  Files :: "FileNode list"
  Directories :: "DirectoryNode list"
  Symlinks :: "(string \<times> string) list"

record Tree =
  Root :: Directory
  Children :: "Directory list"

record OutputFile =
  OutFilePath :: string
  OutFileDigest :: "Digest option"

record OutputDirectory =
  OutDirPath :: string
  TreeDigest :: "Digest option"
  RootDirectoryDigest :: "Digest option"

record ExecutedActionMetadata =
  QueuedTimestamp :: "Timestamp option"

record ActionResult =
  OutputFiles :: "OutputFile list"
  OutputDirectories :: "OutputDirectory list"
  ExitCode :: int
  ExecutionMetadata :: "ExecutedActionMetadata option"

text \<open>\<open>proto.Message\<close>: any of the messages the code serialises or parses.\<close>

datatype message =
    MAssetReference AssetReference
  | MAsset Asset
  | MCommand Command
  | MAction Action
  | MDirectory Directory
  | MTree Tree
  | MActionResult ActionResult

datatype message_kind = KAsset | KDirectory | KTree | KActionResult

fun has_kind :: "message_kind \<Rightarrow> message \<Rightarrow> bool" where
  "has_kind KAsset (MAsset _) = True"
| "has_kind KDirectory (MDirectory _) = True"
| "has_kind KTree (MTree _) = True"
| "has_kind KActionResult (MActionResult _) = True"
| "has_kind _ _ = False"

subsection \<open>Remote Asset API requests and responses\<close>

text \<open>\<open>FetchBlobRequest\<close> and \<open>FetchDirectoryRequest\<close> have the same fields; so have
  the two responses (\<open>BlobDigest\<close> and \<open>RootDirectoryDigest\<close> are both
  \<open>ResponseDigest\<close>) and the two push requests (\<open>PushDigest\<close>).\<close>

record FetchRequest =
  InstanceName :: string
  OldestContentAccepted :: "Timestamp option"
  Uris :: "string list"
  Qualifiers :: "Qualifier list"
  DigestFunction :: DigestFunction_Value

type_synonym FetchBlobRequest = FetchRequest
type_synonym FetchDirectoryRequest = FetchRequest

record FetchResponse =
  ResponseStatus :: "Status option"
  ResponseUri :: string
  ResponseQualifiers :: "Qualifier list"
  ResponseDigest :: "Digest option"

type_synonym FetchBlobResponse = FetchResponse
type_synonym FetchDirectoryResponse = FetchResponse

record PushRequest =
  PushInstanceName :: string
  PushUris :: "string list"
  PushQualifiers :: "Qualifier list"
  PushExpireAt :: "Timestamp option"
  PushDigest :: "Digest option"
  PushDigestFunction :: DigestFunction_Value

type_synonym PushBlobRequest = PushRequest
type_synonym PushDirectoryRequest = PushRequest

subsection \<open>The code outside the repository\<close>

text \<open>The lines the service logs. The line after a fetch prints the URIs in the order in which
  the fetch left them, since \<open>NewAssetReference\<close> may have sorted them in place: here it has them
  as a multiset.\<close>

datatype log_line =
    LogFetchingBlob "string list" "Qualifier list"
  | LogFetchingDirectory "string list" "Qualifier list"
  | LogCompleted "string multiset" Code
  | LogUnsuccessful string
  | LogDownloadError string error
  | LogDownloadStatus string int
  | LogTempClose string error

text \<open>
  Type variables: \<open>'i\<close> instance names, \<open>'f\<close> digest functions, \<open>'d\<close> digests,
  \<open>'b\<close> buffers (all of bb-storage), \<open>'w\<close> the world. A digest
  generator is \<open>f.NewGenerator(n)\<close> and the chunks written to it so far:
  \<open>WriteGenerator f n chunks p\<close> is the error of writing \<open>p\<close> next,
  \<open>SumGenerator f n chunks\<close> is \<open>Sum\<close>. \<open>ErrorProto\<close> makes
  an error of a status (\<open>status.ErrorProto\<close>, \<open>status.Errorf\<close>), nil for code OK;
  \<open>WithDetails s vs\<close> is \<open>s.WithDetails(...)\<close> with one \<open>FieldViolation\<close> (field,
  description) for each of \<open>vs\<close>, as an error (\<open>Inr\<close>), or the error of attaching
  them. \<open>RangeKeys\<close> is the order in which \<open>range\<close> visits the keys of a map, which Go leaves open.
\<close>

record ('i, 'f, 'd, 'b, 'w) ext =
  NewInstanceName :: "string \<Rightarrow> error + 'i"
  GetDigestFunction :: "'i \<Rightarrow> DigestFunction_Value \<Rightarrow> int \<Rightarrow> error + 'f"
  GetInstanceName :: "'f \<Rightarrow> 'i"
  NewDigestFromProto :: "'f \<Rightarrow> Digest option \<Rightarrow> error + 'd"
  GetProto :: "'d \<Rightarrow> Digest"
  BadDigest :: "'d"
  WriteGenerator :: "'f \<Rightarrow> int \<Rightarrow> bytes list \<Rightarrow> bytes \<Rightarrow> error option"
  SumGenerator :: "'f \<Rightarrow> int \<Rightarrow> bytes list \<Rightarrow> 'd"
  NewProtoBufferFromProto :: "message \<Rightarrow> 'b"
  GetSizeBytes :: "'b \<Rightarrow> error + int"
  ToByteSlice :: "'b \<Rightarrow> int \<Rightarrow> error + bytes"
  ToProto :: "'b \<Rightarrow> message_kind \<Rightarrow> int \<Rightarrow> error + message"
  StatusWrapf :: "error \<Rightarrow> string \<Rightarrow> error"
  StatusWrapWithCode :: "error \<Rightarrow> Code \<Rightarrow> string \<Rightarrow> error"
  StatusCode :: "error option \<Rightarrow> Code"
  StatusMessage :: "error \<Rightarrow> string"
  ErrorText :: "error \<Rightarrow> string"
  ErrorProto :: "Status \<Rightarrow> error option"
  WithDetails :: "Status \<Rightarrow> (string \<times> string) list \<Rightarrow> error + error"
  GoQuote :: "string \<Rightarrow> string"
  TimeText :: "time \<Rightarrow> string"
  AsTime :: "Timestamp option \<Rightarrow> time"
  CheckValid :: "Timestamp \<Rightarrow> error option"
  TimestampNew :: "time \<Rightarrow> Timestamp"
  TimeNow :: "'w \<Rightarrow> time \<times> 'w"
  LogPrintf :: "log_line \<Rightarrow> 'w \<Rightarrow> unit \<times> 'w"
  Observe :: "string \<Rightarrow> Code option \<Rightarrow> string \<Rightarrow> int \<Rightarrow> 'w \<Rightarrow> unit \<times> 'w"
  RangeKeys :: "string set \<Rightarrow> string list"

record ('d, 'b, 'w) BlobAccess =
  BlobGet :: "'d \<Rightarrow> 'w \<Rightarrow> 'b \<times> 'w"
  BlobPut :: "'d \<Rightarrow> 'b \<Rightarrow> 'w \<Rightarrow> error option \<times> 'w"

text \<open>A Go pair of a pointer and an error, either of which may be nil.\<close>

type_synonym 'r reply = "'r option \<times> error option"

definition replyM :: "('w, error + 'r) comp \<Rightarrow> ('w, 'r reply) comp" where
  "replyM m = bindM m (\<lambda>r. ret (case r of Inl e \<Rightarrow> (None, Some e) | Inr x \<Rightarrow> (Some x, None)))"

text \<open>\<open>auth.AuthorizeSingleInstanceName(ctx, authorizer, instanceName)\<close>. The context of
  the request is part of the world.\<close>

record ('i, 'w) Authorizer =
  AuthorizeSingleInstanceName :: "'i \<Rightarrow> 'w \<Rightarrow> error option \<times> 'w"

subsection \<open>Named hypotheses on that code\<close>

text \<open>A proto buffer made from a message can be measured, read and parsed back; \<open>lim\<close>
  is the message size limit it is parsed with.\<close>

definition buffers_roundtrip :: "('i, 'f, 'd, 'b, 'w) ext \<Rightarrow> int \<Rightarrow> message \<Rightarrow> bool" where
  "buffers_roundtrip X lim m \<longleftrightarrow>
     (\<forall>k. has_kind k m \<longrightarrow> ToProto X (NewProtoBufferFromProto X m) k lim = Inr m)"

definition typed_buffers :: "('i, 'f, 'd, 'b, 'w) ext \<Rightarrow> bool" where
  "typed_buffers X \<longleftrightarrow> (\<forall>b k lim m. ToProto X b k lim = Inr m \<longrightarrow> has_kind k m)"

text \<open>Timestamps: \<open>AsTime\<close> reads what \<open>timestamppb.New\<close> wrote, in UTC; the zero
  timestamp of a nil pointer is the epoch.\<close>

definition timestamps_ok :: "('i, 'f, 'd, 'b, 'w) ext \<Rightarrow> bool" where
  "timestamps_ok X \<longleftrightarrow>
     (\<forall>ts. location (AsTime X ts) = UTC) \<and>
     (\<forall>t. instant (AsTime X (Some (TimestampNew X t))) = instant t) \<and>
     instant (AsTime X None) = 0"

text \<open>A backend that keeps what it is given: \<open>view w d\<close> is the buffer stored under
  \<open>d\<close>, a successful \<open>Put\<close> stores, \<open>Get\<close> reads and changes nothing; the buffer
  it gives for an absent digest cannot be parsed.\<close>

definition keeps_blobs ::
  "('i, 'f, 'd, 'b, 'w) ext \<Rightarrow> ('d, 'b, 'w) BlobAccess \<Rightarrow> ('w \<Rightarrow> 'd \<rightharpoonup> 'b) \<Rightarrow> bool" where
  "keeps_blobs X ba view \<longleftrightarrow>
     (\<forall>d b w w'. BlobPut ba d b w = (None, w') \<longrightarrow> view w' = (view w)(d \<mapsto> b)) \<and>
     (\<forall>d w b. view w d = Some b \<longrightarrow> fst (BlobGet ba d w) = b) \<and>
     (\<forall>d w. view (snd (BlobGet ba d w)) = view w) \<and>
     (\<forall>d w k lim. view w d = None \<longrightarrow> (\<exists>e. ToProto X (fst (BlobGet ba d w)) k lim = Inl e))"

text \<open>A buffer made of a message gives that message, or none.\<close>

definition faithful_buffers :: "('i, 'f, 'd, 'b, 'w) ext \<Rightarrow> bool" where
  "faithful_buffers X \<longleftrightarrow>
     (\<forall>m k lim m'. ToProto X (NewProtoBufferFromProto X m) k lim = Inr m' \<longrightarrow> m' = m)"

text \<open>A backend that refuses a blob has stored it or not.\<close>

definition refusals_keep :: "('d, 'b, 'w) BlobAccess \<Rightarrow> ('w \<Rightarrow> 'd \<rightharpoonup> 'b) \<Rightarrow> bool" where
  "refusals_keep ba view \<longleftrightarrow>
     (\<forall>d b w e w'. BlobPut ba d b w = (Some e, w') \<longrightarrow> view w' = view w \<or> view w' = (view w)(d \<mapsto> b))"

text \<open>Effects outside a backend leave its contents alone.\<close>

definition clock_keeps :: "('i, 'f, 'd, 'b, 'w) ext \<Rightarrow> ('w \<Rightarrow> 'v) \<Rightarrow> bool" where
  "clock_keeps X view \<longleftrightarrow> (\<forall>w. view (snd (TimeNow X w)) = view w)"

definition log_keeps :: "('i, 'f, 'd, 'b, 'w) ext \<Rightarrow> ('w \<Rightarrow> 'v) \<Rightarrow> bool" where
  "log_keeps X view \<longleftrightarrow>
     (\<forall>s w. view (snd (LogPrintf X s w)) = view w) \<and>
     (\<forall>s c rt n w. view (snd (Observe X s c rt n w)) = view w)"

definition auth_keeps :: "('i, 'w) Authorizer \<Rightarrow> ('w \<Rightarrow> 'v) \<Rightarrow> bool" where
  "auth_keeps A view \<longleftrightarrow> (\<forall>i w. view (snd (AuthorizeSingleInstanceName A i w)) = view w)"

text \<open>Status errors: an error for every code but OK, whose code and message are those of
  the status.\<close>

definition statuses_ok :: "('i, 'f, 'd, 'b, 'w) ext \<Rightarrow> bool" where
  "statuses_ok X \<longleftrightarrow>
     (\<forall>s. ErrorProto X s = (if status_Code s = code_OK then None
        else Some (StatusError (status_Code s) (status_Message s)))) \<and>
     (\<forall>c m. StatusCode X (Some (StatusError c m)) = c) \<and>
     StatusCode X None = code_OK"

text \<open>The clock has passed an instant.\<close>

definition clock_after :: "('i, 'f, 'd, 'b, 'w) ext \<Rightarrow> int \<Rightarrow> bool" where
  "clock_after X t \<longleftrightarrow> (\<forall>w. t \<le> instant (fst (TimeNow X w)))"

text \<open>\<open>range\<close> visits every key of a map once.\<close>

definition range_ok :: "('i, 'f, 'd, 'b, 'w) ext \<Rightarrow> bool" where
  "range_ok X \<longleftrightarrow> (\<forall>ks. finite ks \<longrightarrow> set (RangeKeys X ks) = ks \<and> distinct (RangeKeys X ks))"

subsection \<open>First facts\<close>

lemma replyM_run: "replyM m w =
   (case m w of
      (Done (Inl e), w') \<Rightarrow> (Done (None, Some e), w')
    | (Done (Inr x), w') \<Rightarrow> (Done (Some x, None), w')
    | (Panic p, w') \<Rightarrow> (Panic p, w')
    | (Unfinished, w') \<Rightarrow> (Unfinished, w'))"
  by (auto simp: replyM_def bindM_def split: run.splits sum.splits prod.splits)

lemma replyM_success: "replyM m w = (Done (Some x, e), w') \<longleftrightarrow> e = None \<and> m w = (Done (Inr x), w')"
  by (auto simp: replyM_run split: run.splits sum.splits prod.splits)

lemma replyM_error: "replyM m w = (Done (None, e), w') \<longleftrightarrow> (\<exists>e'. e = Some e' \<and> m w = (Done (Inl e'), w'))"
  by (auto simp: replyM_run split: run.splits sum.splits prod.splits)

lemma panic_free_replyM [total_rules]: "panic_free m \<Longrightarrow> panic_free (replyM m)"
  unfolding replyM_def by (intro total_rules)

lemma preserves_replyM [frame_rules]: "preserves P m \<Longrightarrow> preserves P (replyM m)"
  unfolding replyM_def by (intro frame_rules)

lemma never_unfinished_replyM [finish_rules]: "never_unfinished m \<Longrightarrow> never_unfinished (replyM m)"
  unfolding replyM_def by (rule never_unfinished_bindM) (simp_all add: never_unfinished_ret del: ret_run)

lemma Before_irrefl [simp]: "\<not> Before t t"
  by (simp add: Before_def)

lemma Before_trans: "Before t u \<Longrightarrow> Before u v \<Longrightarrow> Before t v"
  by (simp add: Before_def)

lemma Unix_0_0_simps [simp]: "instant Unix_0_0 = 0" "location Unix_0_0 = Local"
  by (simp_all add: Unix_0_0_def)

text \<open>A time read from a timestamp is never identical to \<open>time.Unix(0, 0)\<close>, whatever
  its instant: the locations differ.\<close>

lemma AsTime_neq_Unix [simp]: "timestamps_ok X \<Longrightarrow> AsTime X ts \<noteq> Unix_0_0"
  unfolding timestamps_ok_def by (metis Location.distinct(1) Unix_0_0_simps(2))

lemma instant_AsTime_New [simp]:
  "timestamps_ok X \<Longrightarrow> instant (AsTime X (Some (TimestampNew X t))) = instant t"
  by (simp add: timestamps_ok_def)

lemma buffers_roundtripD:
  "buffers_roundtrip X lim m \<Longrightarrow> has_kind k m \<Longrightarrow>
     ToProto X (NewProtoBufferFromProto X m) k lim = Inr m"
  by (simp add: buffers_roundtrip_def)

lemma keeps_blobs_Put:
  "keeps_blobs X ba view \<Longrightarrow> BlobPut ba d b w = (None, w') \<Longrightarrow> view w' = (view w)(d \<mapsto> b)"
  by (simp add: keeps_blobs_def)

lemma keeps_blobs_Get_hit:
  "keeps_blobs X ba view \<Longrightarrow> view w d = Some b \<Longrightarrow> fst (BlobGet ba d w) = b"
  by (simp add: keeps_blobs_def)

lemma keeps_blobs_Get_miss:
  "keeps_blobs X ba view \<Longrightarrow> view w d = None \<Longrightarrow>
     \<exists>e. ToProto X (fst (BlobGet ba d w)) k lim = Inl e"
  by (simp add: keeps_blobs_def)

lemma keeps_blobs_Get_view:
  "keeps_blobs X ba view \<Longrightarrow> view (snd (BlobGet ba d w)) = view w"
  by (simp add: keeps_blobs_def)

lemma faithful_buffersD:
  "faithful_buffers X \<Longrightarrow> ToProto X (NewProtoBufferFromProto X m) k lim = Inr m' \<Longrightarrow> m' = m"
  unfolding faithful_buffers_def by blast

lemma refusals_keepD:
  "refusals_keep ba view \<Longrightarrow> BlobPut ba d b w = (Some e, w') \<Longrightarrow> view w' = view w \<or> view w' = (view w)(d \<mapsto> b)"
  by (simp add: refusals_keep_def)

lemma has_kind_KAsset [simp]: "has_kind KAsset m \<longleftrightarrow> (\<exists>a. m = MAsset a)"
  by (cases m) auto

lemma has_kind_KDirectory [simp]: "has_kind KDirectory m \<longleftrightarrow> (\<exists>a. m = MDirectory a)"
  by (cases m) auto

lemma has_kind_KTree [simp]: "has_kind KTree m \<longleftrightarrow> (\<exists>a. m = MTree a)"
  by (cases m) auto

lemma has_kind_KActionResult [simp]:
  "has_kind KActionResult m \<longleftrightarrow> (\<exists>a. m = MActionResult a)"
  by (cases m) auto

end
