(* ===== verification/QualifierSorter.thy ===== *)
theory QualifierSorter
  imports Messages
begin

section \<open>Sorting qualifiers (pkg/qualifier/qualifier_sorter.go)\<close>

text \<open>
  \<open>Sorter\<close> implements \<open>sort.Interface\<close> on a slice of qualifiers. Its order makes
  \<^typ>\<open>Qualifier\<close> a linear order, so the library's \<^const>\<open>sort\<close> is the
  \<open>sort.Sort\<close> of the code: the one ascending rearrangement of the slice.
\<close>

type_synonym Sorter = "Qualifier list"

definition Len :: "Sorter \<Rightarrow> nat" where
  "Len q = length q"

definition LessQualifier :: "Qualifier \<Rightarrow> Qualifier \<Rightarrow> bool" where
  "LessQualifier a b \<longleftrightarrow> Name a < Name b \<or> (Name a = Name b \<and> Value a < Value b)"

text \<open>An index out of range panics.\<close>

definition Less :: "Sorter \<Rightarrow> nat \<Rightarrow> nat \<Rightarrow> bool run" where
  "Less q i j =
     (if i < length q \<and> j < length q then Done (LessQualifier (q ! i) (q ! j))
      else Panic IndexOutOfRange)"

definition Swap :: "Sorter \<Rightarrow> nat \<Rightarrow> nat \<Rightarrow> Sorter run" where
  "Swap q i j =
     (if i < length q \<and> j < length q then Done (q[i := q ! j, j := q ! i])
      else Panic IndexOutOfRange)"

text \<open>\<open>out := make(...)\<close>, then \<open>out[i] = q[i]\<close> for each index in turn.\<close>

definition ToArray :: "Sorter \<Rightarrow> Qualifier list" where
  "ToArray q = foldl (\<lambda>out i. out[i := q ! i]) (replicate (Len q) (Qualifier [] [])) [0..<Len q]"

instantiation Qualifier :: linorder
begin

definition less_Qualifier :: "Qualifier \<Rightarrow> Qualifier \<Rightarrow> bool" where
  "a < b \<longleftrightarrow> LessQualifier a b"

definition less_eq_Qualifier :: "Qualifier \<Rightarrow> Qualifier \<Rightarrow> bool" where
  "a \<le> b \<longleftrightarrow> LessQualifier a b \<or> a = (b :: Qualifier)"

instance
proof
  fix a b c :: Qualifier
  show "a < b \<longleftrightarrow> a \<le> b \<and> \<not> b \<le> a"
    by (auto simp: less_Qualifier_def less_eq_Qualifier_def LessQualifier_def)
  show "a \<le> a" by (simp add: less_eq_Qualifier_def)
  show "a \<le> b \<Longrightarrow> b \<le> c \<Longrightarrow> a \<le> c"
    by (auto simp: less_eq_Qualifier_def LessQualifier_def)
  show "a \<le> b \<Longrightarrow> b \<le> a \<Longrightarrow> a = b"
    by (auto simp: less_eq_Qualifier_def LessQualifier_def)
  show "a \<le> b \<or> b \<le> a"
    by (cases a; cases b) (auto simp: less_eq_Qualifier_def LessQualifier_def)
qed

end

text \<open>\<open>sort.Sort(Sorter(q))\<close>.\<close>

definition SortQualifiers :: "Sorter \<Rightarrow> Sorter" where
  "SortQualifiers q = sort q"

subsection \<open>Facts\<close>

lemma Less_iff: "i < Len q \<Longrightarrow> j < Len q \<Longrightarrow> Less q i j = Done (q ! i < q ! j)"
  by (simp add: Less_def Len_def less_Qualifier_def)

lemma Swap_mset:
  assumes "Swap q i j = Done q'"
  shows "mset q' = mset q" "Len q' = Len q"
  using assms by (auto simp: Swap_def Len_def mset_swap split: if_splits)

lemma foldl_copy:
  "n \<le> length q \<Longrightarrow> length out = length q \<Longrightarrow>
     foldl (\<lambda>out i. out[i := q ! i]) out [0..<n] = take n q @ drop n out"
proof (induction n)
  case (Suc n)
  then have "(take n q @ drop n out)[n := q ! n] = take (Suc n) q @ drop (Suc n) out"
    by (simp add: list_update_append take_Suc_conv_app_nth flip: Cons_nth_drop_Suc)
  with Suc show ?case by simp
qed simp

lemma ToArray_id [simp]: "ToArray q = q"
  by (simp add: ToArray_def Len_def foldl_copy)

lemma SortQualifiers_sorted: "sorted (SortQualifiers q)"
  by (simp add: SortQualifiers_def)

lemma mset_SortQualifiers [simp]: "mset (SortQualifiers q) = mset q"
  by (simp add: SortQualifiers_def)

lemma set_SortQualifiers [simp]: "set (SortQualifiers q) = set q"
  by (simp add: SortQualifiers_def)

lemma SortQualifiers_idem [simp]: "SortQualifiers (SortQualifiers q) = SortQualifiers q"
  by (simp add: SortQualifiers_def)

lemma SortQualifiers_eq_iff: "SortQualifiers q = SortQualifiers q' \<longleftrightarrow> mset q = mset q'"
  by (simp add: SortQualifiers_def sort_eq_iff_mset)

lemma SortQualifiers_unique:
  "sorted q' \<Longrightarrow> mset q' = mset q \<Longrightarrow> q' = SortQualifiers q"
  by (metis SortQualifiers_def properties_for_sort)

text \<open>What \<open>sort.Sort\<close> may do to the slice: any sequence of \<open>Swap\<close>s.\<close>

inductive swaps :: "Sorter \<Rightarrow> Sorter \<Rightarrow> bool" where
  swaps_refl: "swaps q q"
| swaps_step: "swaps q q' \<Longrightarrow> Swap q' i j = Done q'' \<Longrightarrow> swaps q q''"

lemma swaps_mset: "swaps q q' \<Longrightarrow> mset q' = mset q"
  by (induction rule: swaps.induct) (auto dest: Swap_mset)

lemma not_Less_sorted:
  assumes "\<And>i. Suc i < Len q \<Longrightarrow> Less q (Suc i) i = Done False"
  shows "sorted q"
proof (rule sorted_iff_nth_Suc [THEN iffD2], intro allI impI)
  fix i assume "Suc i < length q"
  with assms [of i] show "q ! i \<le> q ! Suc i"
    by (simp add: Len_def Less_iff not_less)
qed

end
