(* ===== verification/AssetData.thy ===== *)
theory AssetData
  imports QualifierSorter
begin

section \<open>References, assets and their digests (pkg/storage)\<close>

text \<open>
  The constructors of references and assets (\<open>asset_reference.go\<close>, \<open>asset.go\<close>) and
  the digest of a message (\<open>digest.go\<close>). \<open>sort.Strings(uris)\<close> and
  \<open>sort.Sort\<close> sort the caller's slices in place: wherever a caller goes on to use
  them, its model uses the sorted list.
\<close>

definition NewAssetReference :: "string list \<Rightarrow> Qualifier list \<Rightarrow> AssetReference" where
  "NewAssetReference uris qualifiers =
    (let sortedQualifiers = SortQualifiers qualifiers;
         uris = sort uris
     in \<lparr>RefUris = uris, RefQualifiers = ToArray sortedQualifiers\<rparr>)"

text \<open>\<open>timestamppb.Now()\<close> reads the clock.\<close>

definition NewAsset ::
  "('i, 'f, 'd, 'b, 'w) ext \<Rightarrow> Digest option \<Rightarrow> AssetType \<Rightarrow> Timestamp option \<Rightarrow>
     ('w, Asset) comp" where
  "NewAsset X digest assetType expireAt =
     bindM (call (TimeNow X)) (\<lambda>now.
     ret \<lparr>AssetDigest = digest, ExpireAt = expireAt,
          LastUpdated = Some (TimestampNew X now), AssetTypeOf = assetType\<rparr>)"

definition NewBlobAsset ::
  "('i, 'f, 'd, 'b, 'w) ext \<Rightarrow> Digest option \<Rightarrow> Timestamp option \<Rightarrow> ('w, Asset) comp" where
  "NewBlobAsset X digest expireAt = NewAsset X digest BLOB expireAt"

definition NewDirectoryAsset ::
  "('i, 'f, 'd, 'b, 'w) ext \<Rightarrow> Digest option \<Rightarrow> Timestamp option \<Rightarrow> ('w, Asset) comp" where
  "NewDirectoryAsset X digest expireAt = NewAsset X digest DIRECTORY expireAt"

definition ProtoSerialise ::
  "('i, 'f, 'd, 'b, 'w) ext \<Rightarrow> message \<Rightarrow> 'f \<Rightarrow> error + ('b \<times> 'd)" where
  "ProtoSerialise X pb digestFunction =
    (let buf = NewProtoBufferFromProto X pb
     in case GetSizeBytes X buf of
          Inl err \<Rightarrow> Inl err
        | Inr sizeBytes \<Rightarrow>
            (case ToByteSlice X buf sizeBytes of
               Inl err \<Rightarrow> Inl err
             | Inr raw \<Rightarrow>
                 (case WriteGenerator X digestFunction sizeBytes [] raw of
                    Some err \<Rightarrow> Inl err
                  | None \<Rightarrow> Inr (buf, SumGenerator X digestFunction sizeBytes [raw]))))"

definition EmptyDigest :: "('i, 'f, 'd, 'b, 'w) ext \<Rightarrow> 'f \<Rightarrow> 'd" where
  "EmptyDigest X digestFunction = SumGenerator X digestFunction 0 []"

definition getDefaultTimestamp :: "('i, 'f, 'd, 'b, 'w) ext \<Rightarrow> Timestamp" where
  "getDefaultTimestamp X = TimestampNew X Unix_0_0"

text \<open>The digest a message is stored under, where it has one.\<close>

definition message_digest :: "('i, 'f, 'd, 'b, 'w) ext \<Rightarrow> 'f \<Rightarrow> message \<Rightarrow> 'd option" where
  "message_digest X df m = (case ProtoSerialise X m df of Inl _ \<Rightarrow> None | Inr (_, d) \<Rightarrow> Some d)"

subsection \<open>References are canonical\<close>

lemma NewAssetReference_fields [simp]:
  "RefUris (NewAssetReference us qs) = sort us"
  "RefQualifiers (NewAssetReference us qs) = SortQualifiers qs"
  by (simp_all add: NewAssetReference_def Let_def)

lemma NewAssetReference_eq_iff:
  "NewAssetReference us qs = NewAssetReference us' qs' \<longleftrightarrow>
     mset us = mset us' \<and> mset qs = mset qs'"
  by (simp add: NewAssetReference_def Let_def sort_eq_iff_mset SortQualifiers_eq_iff)

lemma NewAssetReference_sorted [simp]:
  "NewAssetReference (sort us) qs = NewAssetReference us qs"
  "NewAssetReference us (SortQualifiers qs) = NewAssetReference us qs"
  by (simp_all add: NewAssetReference_eq_iff)

subsection \<open>Assets and digests\<close>

lemma NewAsset_Done:
  "NewAsset X d t e w = (r, w') \<Longrightarrow>
     r = Done \<lparr>AssetDigest = d, ExpireAt = e,
           LastUpdated = Some (TimestampNew X (fst (TimeNow X w))), AssetTypeOf = t\<rparr> \<and>
     w' = snd (TimeNow X w)"
  by (auto simp: NewAsset_def)

lemma NewAsset_fields:
  assumes "NewAsset X d t e w = (Done a, w')"
  shows "AssetDigest a = d" "ExpireAt a = e" "AssetTypeOf a = t" "w' = snd (TimeNow X w)"
  using NewAsset_Done [OF assms] by auto

lemma panic_free_NewAsset [total_rules]: "panic_free (NewAsset X d t e)"
  unfolding NewAsset_def by (intro total_rules)

lemma preserves_NewAsset:
  "clock_keeps X view \<Longrightarrow> preserves (\<lambda>w. P (view w)) (NewAsset X d t e)"
  unfolding NewAsset_def
  by (intro frame_rules preserves_call) (simp add: clock_keeps_def)

lemma ProtoSerialise_buf:
  "ProtoSerialise X m df = Inr (b, d) \<Longrightarrow> b = NewProtoBufferFromProto X m"
  by (auto simp: ProtoSerialise_def Let_def split: sum.splits option.splits)

lemma message_digest_Some:
  "message_digest X df m = Some d \<longleftrightarrow> ProtoSerialise X m df = Inr (NewProtoBufferFromProto X m, d)"
  by (auto simp: message_digest_def dest: ProtoSerialise_buf split: sum.splits)

text \<open>References that a store keyed by digests cannot tell apart.\<close>

definition same_digest ::
  "('i, 'f, 'd, 'b, 'w) ext \<Rightarrow> 'f \<Rightarrow> AssetReference \<Rightarrow> 'f \<Rightarrow> AssetReference \<Rightarrow> bool" where
  "same_digest X df ref df' ref' \<longleftrightarrow> message_digest X df (MAssetReference ref) \<noteq> None \<and>
     message_digest X df' (MAssetReference ref') = message_digest X df (MAssetReference ref)"

end
