(* ===== verification/AssetStores.thy ===== *)
theory AssetStores
  imports AssetData
begin

section \<open>The asset store interface (pkg/storage/asset_store.go)\<close>

text \<open>
  \<open>AssetStore\<close> has \<open>Get\<close> and \<open>Put\<close>. The locale states what the fetchers and the
  push server rely on. A store is given by its configuration \<open>c\<close>; \<open>ok c\<close> collects
  the hypotheses on the code outside the repository; \<open>view c w df ref\<close> is the asset a
  world holds under a reference; \<open>image c a\<close> is what the store keeps of an asset that
  \<open>fits\<close> it; \<open>admits\<close> tells when reading is allowed. A \<open>Put\<close> may hit other
  references whose digest collides: they then hold the new asset, nothing else.
\<close>

record ('f, 'w) AssetStore =
  Get :: "AssetReference \<Rightarrow> 'f \<Rightarrow> ('w, error + Asset) comp"
  Put :: "AssetReference \<Rightarrow> Asset \<Rightarrow> 'f \<Rightarrow> ('w, error + unit) comp"

locale asset_store =
  fixes store :: "'c \<Rightarrow> ('f, 'w) AssetStore"
    and ok :: "'c \<Rightarrow> bool"
    and view :: "'c \<Rightarrow> 'w \<Rightarrow> 'f \<Rightarrow> AssetReference \<Rightarrow> Asset option"
    and image :: "'c \<Rightarrow> Asset \<Rightarrow> Asset"
    and fits :: "'c \<Rightarrow> Asset \<Rightarrow> bool"
    and admits :: "'c \<Rightarrow> 'f \<Rightarrow> 'w \<Rightarrow> bool"
  assumes Put_stores: "ok c \<Longrightarrow> fits c a \<Longrightarrow>
      Put (store c) ref a df w = (Done (Inr u), w') \<Longrightarrow> view c w' df ref = Some (image c a)"
    and Put_frame: "ok c \<Longrightarrow> fits c a \<Longrightarrow>
      Put (store c) ref a df w = (Done (Inr u), w') \<Longrightarrow>
      view c w' df' ref' = view c w df' ref' \<or> view c w' df' ref' = Some (image c a)"
    and Get_hit: "ok c \<Longrightarrow> admits c df w \<Longrightarrow> view c w df ref = Some a \<Longrightarrow>
      \<exists>w'. Get (store c) ref df w = (Done (Inr a), w')"
    and Get_sound: "ok c \<Longrightarrow> Get (store c) ref df w = (Done (Inr a), w') \<Longrightarrow>
      view c w df ref = Some a"
    and Get_frame: "ok c \<Longrightarrow> Get (store c) ref df w = (r, w') \<Longrightarrow> view c w' = view c w"
    and image_digest: "AssetDigest (image c a) = AssetDigest a"
    and image_updated: "LastUpdated (image c a) = LastUpdated a"
    and image_type: "AssetTypeOf (image c a) = AssetTypeOf a"
begin

lemmas image_fields = image_digest image_updated image_type

lemma Get_iff:
  "ok c \<Longrightarrow> admits c df w \<Longrightarrow>
     (\<exists>w'. Get (store c) ref df w = (Done (Inr a), w')) \<longleftrightarrow> view c w df ref = Some a"
  by (meson Get_hit Get_sound)

lemma Put_Get:
  assumes "ok c" "fits c a" "Put (store c) ref a df w = (Done (Inr u), w')" "admits c df w'"
  shows "\<exists>w''. Get (store c) ref df w' = (Done (Inr (image c a)), w'')"
  using assms by (meson Get_hit Put_stores)

text \<open>A property of the stored assets that the new one has survives a \<open>Put\<close>.\<close>

lemma Put_keeps:
  assumes "ok c" "fits c a" "Put (store c) ref a df w = (Done (Inr u), w')"
    and "view c w df' ref' = Some b" "good b" "good (image c a)"
  shows "\<exists>b. view c w' df' ref' = Some b \<and> good b"
  using assms by (metis Put_frame)

end

text \<open>Stores that cannot panic.\<close>

locale total_asset_store = asset_store +
  assumes Get_total: "ok c \<Longrightarrow> panic_free (Get (store c) ref df)"
    and Put_total: "ok c \<Longrightarrow> panic_free (Put (store c) ref a df)"
begin

lemma Get_decides:
  assumes "ok c" "admits c df w"
  obtains a w' where "Get (store c) ref df w = (Done (Inr a), w')" "view c w df ref = Some a"
    | e w' where "Get (store c) ref df w = (Done (Inl e), w')" "view c w df ref = None"
proof -
  obtain r w' where "Get (store c) ref df w = (Done r, w')"
    using Get_total [OF assms(1)] by (blast dest: panic_freeD)
  then show thesis
    using that Get_sound [OF assms(1)] Get_hit [OF assms(1,2)]
    by (cases r; cases "view c w df ref") fastforce+
qed

end

text \<open>Stores of which it is also known what a \<open>Put\<close> that did not succeed may have done,
  and which references share a key: whatever its outcome, a \<open>Put\<close> adds nothing but its own
  asset, under references with the key of its own. \<open>settled c\<close> collects what this needs of the
  code outside.\<close>

locale keyed_asset_store = asset_store +
  fixes settled :: "'c \<Rightarrow> bool"
    and same_key :: "'c \<Rightarrow> 'f \<Rightarrow> AssetReference \<Rightarrow> 'f \<Rightarrow> AssetReference \<Rightarrow> bool"
  assumes Put_any: "ok c \<Longrightarrow> settled c \<Longrightarrow> Put (store c) ref a df w = (r, w') \<Longrightarrow>
      view c w' df' ref' = Some b \<Longrightarrow>
      view c w df' ref' = Some b \<or> same_key c df ref df' ref' \<and> b = image c a"
    and Put_touches: "ok c \<Longrightarrow> settled c \<Longrightarrow> fits c a \<Longrightarrow> Put (store c) ref a df w = (r, w') \<Longrightarrow>
      view c w' df' ref' = view c w df' ref' \<or> same_key c df ref df' ref' \<and> view c w' df' ref' = Some (image c a)"
begin

text \<open>All the store holds has an origin of some kind.\<close>

definition holds_only :: "('f \<Rightarrow> AssetReference \<Rightarrow> Asset \<Rightarrow> bool) \<Rightarrow> ('f \<Rightarrow> AssetReference \<Rightarrow> Asset option) \<Rightarrow> bool" where
  "holds_only origin v \<longleftrightarrow> (\<forall>df ref a. v df ref = Some a \<longrightarrow> origin df ref a)"

lemma Put_only:
  assumes "ok c" "settled c"
    and "\<And>df' ref'. same_key c df ref df' ref' \<Longrightarrow> origin df' ref' (image c a)"
  shows "preserves (\<lambda>w. holds_only origin (view c w)) (Put (store c) ref a df)"
  using Put_any [OF assms(1,2)] assms(3) unfolding holds_only_def by (intro preservesI) blast

end

end
