(* ===== verification/BlobAccessAssetStore.thy ===== *)
theory BlobAccessAssetStore
  imports AssetStores
begin

section \<open>Assets in a blob access (pkg/storage/blob_access_asset_store.go)\<close>

text \<open>The asset is stored as the blob whose digest is that of its reference.\<close>

record ('d, 'b, 'w) blobAccessAssetStore =
  blobAccess :: "('d, 'b, 'w) BlobAccess"
  maximumMessageSizeBytes :: int

definition blobAccessAssetStore_Get ::
  "('i, 'f, 'd, 'b, 'w) ext \<Rightarrow> ('d, 'b, 'w) blobAccessAssetStore \<Rightarrow>
     AssetReference \<Rightarrow> 'f \<Rightarrow> ('w, error + Asset) comp" where
  "blobAccessAssetStore_Get X rs ref digestFunction =
     tryM (ret (ProtoSerialise X (MAssetReference ref) digestFunction)) (\<lambda>(_, refDigest).
     bindM (call (BlobGet (blobAccess rs) refDigest)) (\<lambda>buf.
     case ToProto X buf KAsset (maximumMessageSizeBytes rs) of
       Inl err \<Rightarrow> ret (Inl err)
     | Inr (MAsset data) \<Rightarrow> ret (Inr data)
     | Inr _ \<Rightarrow> panicM TypeAssertion))"

definition blobAccessAssetStore_Put ::
  "('i, 'f, 'd, 'b, 'w) ext \<Rightarrow> ('d, 'b, 'w) blobAccessAssetStore \<Rightarrow>
     AssetReference \<Rightarrow> Asset \<Rightarrow> 'f \<Rightarrow> ('w, error + unit) comp" where
  "blobAccessAssetStore_Put X rs ref data digestFunction =
     tryM (ret (ProtoSerialise X (MAssetReference ref) digestFunction)) (\<lambda>(_, refDigest).
     checkM (call (BlobPut (blobAccess rs) refDigest (NewProtoBufferFromProto X (MAsset data))))
       (ret (Inr ())))"

definition NewBlobAccessAssetStore ::
  "('i, 'f, 'd, 'b, 'w) ext \<Rightarrow> ('d, 'b, 'w) BlobAccess \<Rightarrow> int \<Rightarrow> ('f, 'w) AssetStore" where
  "NewBlobAccessAssetStore X ba max_bytes =
    (let rs = \<lparr>blobAccess = ba, maximumMessageSizeBytes = max_bytes\<rparr>
     in \<lparr>Get = blobAccessAssetStore_Get X rs, Put = blobAccessAssetStore_Put X rs\<rparr>)"

subsection \<open>The contract\<close>

text \<open>A configuration: the external code, the backend, the size limit, and the contents the
  backend is known to keep.\<close>

type_synonym ('i, 'f, 'd, 'b, 'w) blob_config =
  "('i, 'f, 'd, 'b, 'w) ext \<times> ('d, 'b, 'w) BlobAccess \<times> int \<times> ('w \<Rightarrow> 'd \<rightharpoonup> 'b)"

fun blob_store :: "('i, 'f, 'd, 'b, 'w) blob_config \<Rightarrow> ('f, 'w) AssetStore" where
  "blob_store (X, ba, lim, contents) = NewBlobAccessAssetStore X ba lim"

fun blob_ok :: "('i, 'f, 'd, 'b, 'w) blob_config \<Rightarrow> bool" where
  "blob_ok (X, ba, lim, contents) \<longleftrightarrow> keeps_blobs X ba contents \<and> typed_buffers X"

fun blob_view ::
  "('i, 'f, 'd, 'b, 'w) blob_config \<Rightarrow> 'w \<Rightarrow> 'f \<Rightarrow> AssetReference \<Rightarrow> Asset option" where
  "blob_view (X, ba, lim, contents) w df ref =
     (case message_digest X df (MAssetReference ref) of
        None \<Rightarrow> None
      | Some d \<Rightarrow>
          (case contents w d of
             None \<Rightarrow> None
           | Some b \<Rightarrow>
               (case ToProto X b KAsset lim of Inr (MAsset a) \<Rightarrow> Some a | _ \<Rightarrow> None)))"

fun blob_fits :: "('i, 'f, 'd, 'b, 'w) blob_config \<Rightarrow> Asset \<Rightarrow> bool" where
  "blob_fits (X, ba, lim, contents) a \<longleftrightarrow> buffers_roundtrip X lim (MAsset a)"

lemma NewBlobAccessAssetStore_Put:
  "Put (NewBlobAccessAssetStore X ba lim) ref a df w =
     (case ProtoSerialise X (MAssetReference ref) df of
        Inl e \<Rightarrow> (Done (Inl e), w)
      | Inr (_, d) \<Rightarrow>
          (case BlobPut ba d (NewProtoBufferFromProto X (MAsset a)) w of
             (None, w') \<Rightarrow> (Done (Inr ()), w')
           | (Some e, w') \<Rightarrow> (Done (Inl e), w')))"
  by (auto simp: NewBlobAccessAssetStore_def blobAccessAssetStore_Put_def Let_def
        split: sum.split prod.split option.split)

lemma NewBlobAccessAssetStore_Get:
  "Get (NewBlobAccessAssetStore X ba lim) ref df w =
     (case ProtoSerialise X (MAssetReference ref) df of
        Inl e \<Rightarrow> (Done (Inl e), w)
      | Inr (_, d) \<Rightarrow>
          (case ToProto X (fst (BlobGet ba d w)) KAsset lim of
             Inl e \<Rightarrow> Done (Inl e)
           | Inr (MAsset a) \<Rightarrow> Done (Inr a)
           | Inr _ \<Rightarrow> Panic TypeAssertion, snd (BlobGet ba d w)))"
  by (auto simp: NewBlobAccessAssetStore_def blobAccessAssetStore_Get_def Let_def
        split: sum.split message.split)

lemma typed_KAsset: "typed_buffers X \<Longrightarrow> ToProto X b KAsset lim = Inr m \<Longrightarrow> \<exists>a. m = MAsset a"
  unfolding typed_buffers_def by (metis has_kind_KAsset)

lemma blob_Put_view:
  assumes "blob_ok (X, ba, lim, contents)" "blob_fits (X, ba, lim, contents) a"
    and "Put (NewBlobAccessAssetStore X ba lim) ref a df w = (Done (Inr u), w')"
  shows "blob_view (X, ba, lim, contents) w' df' ref' =
    (if message_digest X df' (MAssetReference ref') = message_digest X df (MAssetReference ref)
     then Some a else blob_view (X, ba, lim, contents) w df' ref')"
proof -
  obtain d where d: "message_digest X df (MAssetReference ref) = Some d"
    and put: "BlobPut ba d (NewProtoBufferFromProto X (MAsset a)) w = (None, w')"
    using assms(3)
    by (auto simp: NewBlobAccessAssetStore_Put message_digest_def
          split: sum.splits prod.splits option.splits)
  have "contents w' = (contents w)(d \<mapsto> NewProtoBufferFromProto X (MAsset a))"
    using assms(1) put by (auto intro: keeps_blobs_Put)
  with d assms(2) show ?thesis
    by (auto simp: buffers_roundtripD split: option.split)
qed

lemma blob_Get_view:
  assumes "blob_ok (X, ba, lim, contents)"
  shows "fst (Get (NewBlobAccessAssetStore X ba lim) ref df w) = Done (Inr a) \<longleftrightarrow>
    blob_view (X, ba, lim, contents) w df ref = Some a"
proof (cases "ProtoSerialise X (MAssetReference ref) df")
  case (Inl e)
  then show ?thesis by (simp add: NewBlobAccessAssetStore_Get message_digest_def)
next
  case (Inr bd)
  obtain b d where bd: "bd = (b, d)" by fastforce
  show ?thesis
  proof (cases "contents w d")
    case None
    then obtain e where "ToProto X (fst (BlobGet ba d w)) KAsset lim = Inl e"
      using assms keeps_blobs_Get_miss by fastforce
    with Inr bd None show ?thesis by (simp add: NewBlobAccessAssetStore_Get message_digest_def)
  next
    case (Some b')
    then have "fst (BlobGet ba d w) = b'"
      using assms by (auto intro: keeps_blobs_Get_hit)
    with Some Inr bd show ?thesis
      by (auto simp: NewBlobAccessAssetStore_Get message_digest_def
            split: sum.split message.split)
  qed
qed

lemma blob_Put_stores:
  "blob_ok c \<Longrightarrow> blob_fits c a \<Longrightarrow> Put (blob_store c) ref a df w = (Done (Inr u), w') \<Longrightarrow>
     blob_view c w' df ref = Some a"
  by (cases c) (simp only: blob_store.simps blob_Put_view simp_thms if_True)

lemma blob_Put_frame:
  "blob_ok c \<Longrightarrow> blob_fits c a \<Longrightarrow> Put (blob_store c) ref a df w = (Done (Inr u), w') \<Longrightarrow>
     blob_view c w' df' ref' = blob_view c w df' ref' \<or> blob_view c w' df' ref' = Some a"
  by (cases c) (simp only: blob_store.simps blob_Put_view split: if_split, blast)

lemma blob_Get_hit:
  "blob_ok c \<Longrightarrow> blob_view c w df ref = Some a \<Longrightarrow>
     \<exists>w'. Get (blob_store c) ref df w = (Done (Inr a), w')"
  by (cases c) (simp only: blob_store.simps, metis blob_Get_view prod.collapse)

lemma blob_Get_sound:
  "blob_ok c \<Longrightarrow> Get (blob_store c) ref df w = (Done (Inr a), w') \<Longrightarrow>
     blob_view c w df ref = Some a"
  by (cases c) (simp only: blob_store.simps, metis blob_Get_view fst_conv)

lemma blob_Get_frame:
  assumes "blob_ok c" "Get (blob_store c) ref df w = (r, w')"
  shows "blob_view c w' = blob_view c w"
proof -
  obtain X ba lim contents where c: "c = (X, ba, lim, contents)" by (cases c)
  with assms have "contents w' = contents w"
    by (auto simp: NewBlobAccessAssetStore_Get keeps_blobs_Get_view split: sum.splits)
  with c show ?thesis by (intro ext) (simp cong: option.case_cong)
qed

text \<open>The view depends on the contents only, so what leaves them alone leaves it alone.\<close>

lemma blob_view_same:
  "contents w' = contents w \<Longrightarrow> blob_view (X, ba, lim, contents) w' = blob_view (X, ba, lim, contents) w"
  by (intro ext) (simp cong: option.case_cong)

lemma blob_view_keeps:
  "clock_keeps Y contents \<Longrightarrow> clock_keeps Y (blob_view (X, ba, lim, contents))"
  "log_keeps Y contents \<Longrightarrow> log_keeps Y (blob_view (X, ba, lim, contents))"
  "auth_keeps A contents \<Longrightarrow> auth_keeps A (blob_view (X, ba, lim, contents))"
  unfolding clock_keeps_def log_keeps_def auth_keeps_def by (blast intro: blob_view_same)+

lemma panic_free_blob_Get: "blob_ok c \<Longrightarrow> panic_free (Get (blob_store c) ref df)"
  by (cases c)
     (auto simp: panic_free_def NewBlobAccessAssetStore_Get dest!: typed_KAsset split: sum.split)

lemma panic_free_blob_Put: "panic_free (Put (blob_store c) ref a df)"
  by (cases c)
     (auto simp: panic_free_def NewBlobAccessAssetStore_Put split: sum.split prod.split option.split)

lemmas blob_config_simps = blob_store.simps blob_ok.simps blob_view.simps blob_fits.simps

declare blob_config_simps [simp del]

interpretation bs: total_asset_store blob_store blob_ok blob_view "\<lambda>_ a. a" blob_fits "\<lambda>_ _ _. True"
  by unfold_locales
     (simp_all only: blob_Put_stores blob_Put_frame blob_Get_hit blob_Get_sound blob_Get_frame
       panic_free_blob_Get panic_free_blob_Put)

text \<open>The key of a reference is its digest. A \<open>Put\<close> the backend refuses may still have
  stored the blob.\<close>

fun blob_settled :: "('i, 'f, 'd, 'b, 'w) blob_config \<Rightarrow> bool" where
  "blob_settled (X, ba, lim, contents) \<longleftrightarrow> refusals_keep ba contents \<and> faithful_buffers X"

fun blob_key :: "('i, 'f, 'd, 'b, 'w) blob_config \<Rightarrow> 'f \<Rightarrow> AssetReference \<Rightarrow> 'f \<Rightarrow> AssetReference \<Rightarrow> bool" where
  "blob_key (X, ba, lim, contents) df ref df' ref' \<longleftrightarrow> same_digest X df ref df' ref'"

lemma blob_Put_any:
  assumes "blob_ok c" "blob_settled c" "Put (blob_store c) ref a df w = (r, w')"
    and "blob_view c w' df' ref' = Some b"
  shows "blob_view c w df' ref' = Some b \<or> blob_key c df ref df' ref' \<and> b = a"
proof -
  obtain X ba lim contents where c: "c = (X, ba, lim, contents)" by (cases c)
  from assms(1,2) have keeps: "keeps_blobs X ba contents" "refusals_keep ba contents" "faithful_buffers X"
    by (simp_all add: c blob_config_simps)
  from assms(3) consider "w' = w" | d e where "message_digest X df (MAssetReference ref) = Some d"
      "BlobPut ba d (NewProtoBufferFromProto X (MAsset a)) w = (e, w')"
    by (auto simp: c blob_config_simps NewBlobAccessAssetStore_Put message_digest_def
        split: sum.splits prod.splits option.splits)
  then show ?thesis
  proof cases
    case (2 d e)
    then have "contents w' = contents w \<or> contents w' = (contents w)(d \<mapsto> NewProtoBufferFromProto X (MAsset a))"
      using keeps by (cases e) (auto dest: keeps_blobs_Put refusals_keepD)
    with assms(4) 2 keeps(3) show ?thesis
      by (auto simp: c blob_config_simps same_digest_def split: option.splits if_splits sum.splits message.splits
          dest: faithful_buffersD)
  qed (use assms(4) in simp)
qed

lemma blob_Put_touches:
  assumes "blob_ok c" "blob_settled c" "blob_fits c a" "Put (blob_store c) ref a df w = (r, w')"
  shows "blob_view c w' df' ref' = blob_view c w df' ref' \<or>
    blob_key c df ref df' ref' \<and> blob_view c w' df' ref' = Some a"
proof -
  obtain X ba lim contents where c: "c = (X, ba, lim, contents)" by (cases c)
  from assms(1-3) have keeps: "keeps_blobs X ba contents" "refusals_keep ba contents"
    and fits: "ToProto X (NewProtoBufferFromProto X (MAsset a)) KAsset lim = Inr (MAsset a)"
    by (simp_all add: c blob_config_simps buffers_roundtrip_def)
  from assms(4) consider "w' = w" | d e where "message_digest X df (MAssetReference ref) = Some d"
      "BlobPut ba d (NewProtoBufferFromProto X (MAsset a)) w = (e, w')"
    by (auto simp: c blob_config_simps NewBlobAccessAssetStore_Put message_digest_def
        split: sum.splits prod.splits option.splits)
  then show ?thesis
  proof cases
    case (2 d e)
    then have "contents w' = contents w \<or> contents w' = (contents w)(d \<mapsto> NewProtoBufferFromProto X (MAsset a))"
      using keeps by (cases e) (auto dest: keeps_blobs_Put refusals_keepD)
    then show ?thesis
    proof
      assume "contents w' = contents w"
      then show ?thesis unfolding c by (metis blob_view_same)
    next
      assume "contents w' = (contents w)(d \<mapsto> NewProtoBufferFromProto X (MAsset a))"
      with 2(1) fits show ?thesis
        by (cases "message_digest X df' (MAssetReference ref') = Some d")
           (auto simp: c blob_config_simps same_digest_def split: option.split)
    qed
  qed simp
qed

interpretation kbs: keyed_asset_store blob_store blob_ok blob_view "\<lambda>_ a. a" blob_fits "\<lambda>_ _ _. True"
  blob_settled blob_key
  by unfold_locales (rule blob_Put_any blob_Put_touches; assumption)+

end
