(* ===== verification/AuthorizingAssetStore.thy ===== *)
theory AuthorizingAssetStore
  imports BlobAccessAssetStore
begin

section \<open>Authorising access to a store (pkg/storage/authorizing_asset_store.go)\<close>

text \<open>A wrapper that asks an authorizer before each operation: one for \<open>Get\<close>, another
  for \<open>Put\<close>. The instance name asked about is that of the digest function.\<close>

record ('i, 'f, 'w) AuthorizingAssetStore =
  wrappedStore :: "('f, 'w) AssetStore"
  fetchAuthorizer :: "('i, 'w) Authorizer"
  pushAuthorizer :: "('i, 'w) Authorizer"

definition AuthorizingAssetStore_Get ::
  "('i, 'f, 'd, 'b, 'w) ext \<Rightarrow> ('i, 'f, 'w) AuthorizingAssetStore \<Rightarrow>
     AssetReference \<Rightarrow> 'f \<Rightarrow> ('w, error + Asset) comp" where
  "AuthorizingAssetStore_Get X aas ref digestFunction =
     checkM (call (AuthorizeSingleInstanceName (fetchAuthorizer aas) (GetInstanceName X digestFunction)))
       (Get (wrappedStore aas) ref digestFunction)"

definition AuthorizingAssetStore_Put ::
  "('i, 'f, 'd, 'b, 'w) ext \<Rightarrow> ('i, 'f, 'w) AuthorizingAssetStore \<Rightarrow>
     AssetReference \<Rightarrow> Asset \<Rightarrow> 'f \<Rightarrow> ('w, error + unit) comp" where
  "AuthorizingAssetStore_Put X aas ref data digestFunction =
     checkM (call (AuthorizeSingleInstanceName (pushAuthorizer aas) (GetInstanceName X digestFunction)))
       (Put (wrappedStore aas) ref data digestFunction)"

definition NewAuthorizingAssetStore ::
  "('i, 'f, 'd, 'b, 'w) ext \<Rightarrow> ('f, 'w) AssetStore \<Rightarrow> ('i, 'w) Authorizer \<Rightarrow>
     ('i, 'w) Authorizer \<Rightarrow> ('f, 'w) AssetStore" where
  "NewAuthorizingAssetStore X as fetchAuth pushAuth =
    (let aas = \<lparr>wrappedStore = as, fetchAuthorizer = fetchAuth, pushAuthorizer = pushAuth\<rparr>
     in \<lparr>Get = AuthorizingAssetStore_Get X aas, Put = AuthorizingAssetStore_Put X aas\<rparr>)"

subsection \<open>Facts\<close>

lemma Get_authorizing:
  "Get (NewAuthorizingAssetStore X s Af Ap) ref df w =
     (case AuthorizeSingleInstanceName Af (GetInstanceName X df) w of
        (None, w') \<Rightarrow> Get s ref df w' | (Some e, w') \<Rightarrow> (Done (Inl e), w'))"
  by (simp add: NewAuthorizingAssetStore_def AuthorizingAssetStore_Get_def Let_def)

lemma Put_authorizing:
  "Put (NewAuthorizingAssetStore X s Af Ap) ref a df w =
     (case AuthorizeSingleInstanceName Ap (GetInstanceName X df) w of
        (None, w') \<Rightarrow> Put s ref a df w' | (Some e, w') \<Rightarrow> (Done (Inl e), w'))"
  by (simp add: NewAuthorizingAssetStore_def AuthorizingAssetStore_Put_def Let_def)

lemma panic_free_authorizing:
  "panic_free (Get s ref df) \<Longrightarrow> panic_free (Get (NewAuthorizingAssetStore X s Af Ap) ref df)"
  "panic_free (Put s ref a df) \<Longrightarrow> panic_free (Put (NewAuthorizingAssetStore X s Af Ap) ref a df)"
  by (auto simp: NewAuthorizingAssetStore_def AuthorizingAssetStore_Get_def
        AuthorizingAssetStore_Put_def Let_def intro!: total_rules)

lemma auth_keepsD:
  "auth_keeps A view \<Longrightarrow> AuthorizeSingleInstanceName A i w = (e, w') \<Longrightarrow> view w' = view w"
  unfolding auth_keeps_def by (metis snd_conv)

subsection \<open>The wrapper keeps the contract of the store it wraps\<close>

text \<open>A configuration of the wrapped store: the external code, the inner configuration and
  the two authorizers, which must not touch the assets held.\<close>

type_synonym ('i, 'f, 'd, 'b, 'w, 'c) auth_config =
  "('i, 'f, 'd, 'b, 'w) ext \<times> 'c \<times> ('i, 'w) Authorizer \<times> ('i, 'w) Authorizer"

fun auth_store ::
  "('c \<Rightarrow> ('f, 'w) AssetStore) \<Rightarrow> ('i, 'f, 'd, 'b, 'w, 'c) auth_config \<Rightarrow> ('f, 'w) AssetStore" where
  "auth_store store (X, c, Af, Ap) = NewAuthorizingAssetStore X (store c) Af Ap"

fun auth_ok ::
  "('c \<Rightarrow> bool) \<Rightarrow> ('c \<Rightarrow> 'w \<Rightarrow> 'v) \<Rightarrow> ('i, 'f, 'd, 'b, 'w, 'c) auth_config \<Rightarrow> bool" where
  "auth_ok ok view (X, c, Af, Ap) \<longleftrightarrow> ok c \<and> auth_keeps Af (view c) \<and> auth_keeps Ap (view c)"

fun auth_inner :: "('c \<Rightarrow> 'v) \<Rightarrow> ('i, 'f, 'd, 'b, 'w, 'c) auth_config \<Rightarrow> 'v" where
  "auth_inner g (X, c, Af, Ap) = g c"

fun auth_admits ::
  "('c \<Rightarrow> 'f \<Rightarrow> 'w \<Rightarrow> bool) \<Rightarrow> ('i, 'f, 'd, 'b, 'w, 'c) auth_config \<Rightarrow> 'f \<Rightarrow> 'w \<Rightarrow> bool" where
  "auth_admits admits (X, c, Af, Ap) df w \<longleftrightarrow>
     (case AuthorizeSingleInstanceName Af (GetInstanceName X df) w of
        (None, w') \<Rightarrow> admits c df w' | _ \<Rightarrow> False)"

context asset_store
begin

lemma authorized_Put:
  assumes "auth_keeps Ap (view c)"
    and "Put (NewAuthorizingAssetStore X (store c) Af Ap) ref a df w = (Done (Inr u), w')"
  obtains w1 where "view c w1 = view c w" "Put (store c) ref a df w1 = (Done (Inr u), w')"
  using assms by (auto simp: Put_authorizing dest: auth_keepsD split: prod.splits option.splits)

lemma authorized_Get:
  assumes "auth_keeps Af (view c)"
    and "Get (NewAuthorizingAssetStore X (store c) Af Ap) ref df w = (r, w')"
  obtains w1 where "view c w1 = view c w" "Get (store c) ref df w1 = (r, w')"
    | e where "r = Done (Inl e)" "view c w' = view c w"
  using assms by (auto simp: Get_authorizing dest: auth_keepsD split: prod.splits option.splits)

lemma authorized_contract:
  "asset_store (auth_store store) (auth_ok ok view) (auth_inner view) (auth_inner image)
     (auth_inner fits) (auth_admits admits)"
proof (unfold_locales, goal_cases)
  case (1 ac a ref df w u w')
  obtain X c Af Ap where "ac = (X, c, Af, Ap)" by (cases ac)
  with 1 show ?case by (auto elim!: authorized_Put [rotated] intro: Put_stores)
next
  case (2 ac a ref df w u w' df' ref')
  obtain X c Af Ap where "ac = (X, c, Af, Ap)" by (cases ac)
  with 2 show ?case by (auto elim!: authorized_Put [rotated]) (metis Put_frame)
next
  case (3 ac df w ref a)
  obtain X c Af Ap where ac: "ac = (X, c, Af, Ap)" by (cases ac)
  with 3 obtain w1 where "AuthorizeSingleInstanceName Af (GetInstanceName X df) w = (None, w1)"
    "admits c df w1" by (auto split: prod.splits option.splits)
  moreover from this 3 ac have "view c w1 df ref = Some a" by (auto dest: auth_keepsD)
  ultimately show ?case using 3 ac by (auto simp: Get_authorizing intro: Get_hit)
next
  case (4 ac ref df w a w')
  obtain X c Af Ap where "ac = (X, c, Af, Ap)" by (cases ac)
  with 4 show ?case by (auto elim!: authorized_Get [rotated]) (metis Get_sound)
next
  case (5 ac ref df w r w')
  obtain X c Af Ap where "ac = (X, c, Af, Ap)" by (cases ac)
  with 5 show ?case by (auto elim!: authorized_Get [rotated]) (metis Get_frame)
next
  case (6 ac a)
  show ?case by (cases ac) (simp add: image_fields)
next
  case (7 ac a)
  show ?case by (cases ac) (simp add: image_fields)
next
  case (8 ac a)
  show ?case by (cases ac) (simp add: image_fields)
qed

end

context total_asset_store
begin

lemma authorized_total:
  "total_asset_store (auth_store store) (auth_ok ok view) (auth_inner view) (auth_inner image)
     (auth_inner fits) (auth_admits admits)"
proof (intro total_asset_store.intro total_asset_store_axioms.intro authorized_contract, goal_cases)
  case (1 ac ref df)
  then show ?case by (cases ac) (simp add: panic_free_authorizing Get_total)
next
  case (2 ac ref a df)
  then show ?case by (cases ac) (simp add: panic_free_authorizing Put_total)
qed

end

text \<open>The store the configuration builds for the \<open>blobAccess\<close> backend.\<close>

interpretation aas: total_asset_store "auth_store blob_store" "auth_ok blob_ok blob_view"
  "auth_inner blob_view" "auth_inner (\<lambda>_ a. a)" "auth_inner blob_fits"
  "auth_admits (\<lambda>_ _ _. True)"
  by (rule bs.authorized_total)

text \<open>Stores whose keys are known keep them behind the authorizers.\<close>

context keyed_asset_store
begin

lemma authorized_keyed:
  "keyed_asset_store (auth_store store) (auth_ok ok view) (auth_inner view) (auth_inner image)
     (auth_inner fits) (auth_admits admits) (auth_inner settled) (auth_inner same_key)"
proof (intro keyed_asset_store.intro keyed_asset_store_axioms.intro authorized_contract, goal_cases)
  case (1 ac ref a df w r w' df' ref' b)
  obtain X c Af Ap where ac: "ac = (X, c, Af, Ap)" by (cases ac)
  obtain e w1 where auth: "AuthorizeSingleInstanceName Ap (GetInstanceName X df) w = (e, w1)" by fastforce
  with 1 ac have "view c w1 = view c w" by (auto dest: auth_keepsD)
  moreover have "e = None \<and> Put (store c) ref a df w1 = (r, w') \<or> w' = w1"
    using 1(3) auth ac by (cases e) (simp_all add: Put_authorizing)
  ultimately show ?case
    using 1 ac Put_any [of c ref a df w1 r w' df' ref' b] by auto
next
  case (2 ac a ref df w r w' df' ref')
  obtain X c Af Ap where ac: "ac = (X, c, Af, Ap)" by (cases ac)
  obtain e w1 where auth: "AuthorizeSingleInstanceName Ap (GetInstanceName X df) w = (e, w1)" by fastforce
  with 2 ac have "view c w1 = view c w" by (auto dest: auth_keepsD)
  moreover have "e = None \<and> Put (store c) ref a df w1 = (r, w') \<or> w' = w1"
    using 2(4) auth ac by (cases e) (simp_all add: Put_authorizing)
  ultimately show ?case
    using 2 ac Put_touches [of c a ref df w1 r w' df' ref'] by auto
qed

end

interpretation kaas: keyed_asset_store "auth_store blob_store" "auth_ok blob_ok blob_view"
  "auth_inner blob_view" "auth_inner (\<lambda>_ a. a)" "auth_inner blob_fits"
  "auth_admits (\<lambda>_ _ _. True)" "auth_inner blob_settled" "auth_inner blob_key"
  by (rule kbs.authorized_keyed)

end
