(* ===== verification/PushServer.thy ===== *)
theory PushServer
  imports AuthorizingAssetStore
begin

section \<open>The push service (pkg/push)\<close>

text \<open>
  \<open>push_server.go\<close>: a pushed asset is stored under the reference of all its URIs and,
  when there are several, under that of each of them. \<open>NewAssetReference\<close> sorts the
  request's slices in place, so the loop runs over the sorted URIs and qualifiers, and so does
  whoever reads the request after the call: a server gives back, beside its reply, the request
  as it left it.
  \<open>error_push_server.go\<close> answers every push with one status,
  \<open>metrics_push_server.go\<close> measures another push server. The push responses are empty
  messages, here the unit value.
\<close>

record 'w PushServer =
  ServeBlob :: "PushBlobRequest \<Rightarrow> ('w, unit reply \<times> PushBlobRequest) comp"
  ServeDirectory :: "PushDirectoryRequest \<Rightarrow> ('w, unit reply \<times> PushDirectoryRequest) comp"

text \<open>The reply alone.\<close>

definition PushBlob :: "'w PushServer \<Rightarrow> PushBlobRequest \<Rightarrow> ('w, unit reply) comp" where
  "PushBlob ps req = bindM (ServeBlob ps req) (\<lambda>(reply, _). ret reply)"

definition PushDirectory :: "'w PushServer \<Rightarrow> PushDirectoryRequest \<Rightarrow> ('w, unit reply) comp" where
  "PushDirectory ps req = bindM (ServeDirectory ps req) (\<lambda>(reply, _). ret reply)"

lemma PushBlob_served: "ServeBlob ps req w = (Done (r, req'), w') \<Longrightarrow> PushBlob ps req w = (Done r, w')"
  by (simp add: PushBlob_def bindM_Done)

lemma PushDirectory_served: "ServeDirectory ps req w = (Done (r, req'), w') \<Longrightarrow> PushDirectory ps req w = (Done r, w')"
  by (simp add: PushDirectory_def bindM_Done)

lemma preserves_served:
  "preserves P (PushBlob ps req) \<longleftrightarrow> preserves P (ServeBlob ps req)"
  "preserves P (PushDirectory ps req) \<longleftrightarrow> preserves P (ServeDirectory ps req)"
proof -
  have "snd (bindM m (\<lambda>(reply, _). ret reply) w) = snd (m w)" for m :: "('a, unit reply \<times> PushRequest) comp" and w
    by (cases "m w"; cases "fst (m w)") (auto simp: bindM_def)
  then show "preserves P (PushBlob ps req) \<longleftrightarrow> preserves P (ServeBlob ps req)"
    "preserves P (PushDirectory ps req) \<longleftrightarrow> preserves P (ServeDirectory ps req)"
    by (simp_all add: preserves_def PushBlob_def PushDirectory_def)
qed

subsection \<open>push_server.go\<close>

record ('i, 'f, 'w) assetPushServer =
  assetStore :: "('f, 'w) AssetStore"
  allowUpdatesForInstances :: "'i \<rightharpoonup> bool"

definition GetHash :: "Digest option \<Rightarrow> string" where
  "GetHash d = (case d of None \<Rightarrow> [] | Some d \<Rightarrow> Hash d)"

definition push_getDigestFunction ::
  "('i, 'f, 'd, 'b, 'w) ext \<Rightarrow> DigestFunction_Value \<Rightarrow> string \<Rightarrow> Digest option \<Rightarrow> error + 'f" where
  "push_getDigestFunction X digestFunction instanceName sentDigest =
     (case NewInstanceName X instanceName of
        Inl err \<Rightarrow> Inl (StatusWrapf X err (''Invalid instance name '' @ GoQuote X instanceName))
      | Inr inst \<Rightarrow> GetDigestFunction X inst digestFunction (int (length (GetHash sentDigest))))"

definition may_update :: "('i, 'f, 'w) assetPushServer \<Rightarrow> 'i \<Rightarrow> bool" where
  "may_update s inst = (case allowUpdatesForInstances s inst of Some b \<Rightarrow> b | None \<Rightarrow> False)"

definition assetPushServer_PushBlob ::
  "('i, 'f, 'd, 'b, 'w) ext \<Rightarrow> ('i, 'f, 'w) assetPushServer \<Rightarrow> PushBlobRequest \<Rightarrow>
     ('w, error + unit) comp" where
  "assetPushServer_PushBlob X s req =
    (if length (PushUris req) = 0 then
       ret (Inl (StatusError code_InvalidArgument ''PushBlob requires at least one URI''))
     else
       tryM (ret (push_getDigestFunction X (PushDigestFunction req) (PushInstanceName req)
         (PushDigest req))) (\<lambda>digestFunction.
       if \<not> may_update s (GetInstanceName X digestFunction) then
         ret (Inl (StatusError code_PermissionDenied
           (''This service does not accept Blobs for instance '' @ GoQuote X (PushInstanceName req))))
       else
         let assetRef = NewAssetReference (PushUris req) (PushQualifiers req);
             uris = RefUris assetRef;
             qualifiers = SortQualifiers (PushQualifiers req)
         in bindM (NewBlobAsset X (PushDigest req) (PushExpireAt req)) (\<lambda>assetData.
            tryM (Put (assetStore s) assetRef assetData digestFunction) (\<lambda>_.
            if length uris > 1 then
              forM uris (\<lambda>uri.
                let assetRef = NewAssetReference [uri] qualifiers
                in bindM (NewBlobAsset X (PushDigest req) (PushExpireAt req)) (\<lambda>assetData.
                   Put (assetStore s) assetRef assetData digestFunction))
            else ret (Inr ())))))"

definition assetPushServer_PushDirectory ::
  "('i, 'f, 'd, 'b, 'w) ext \<Rightarrow> ('i, 'f, 'w) assetPushServer \<Rightarrow> PushDirectoryRequest \<Rightarrow>
     ('w, error + unit) comp" where
  "assetPushServer_PushDirectory X s req =
    (if length (PushUris req) = 0 then
       ret (Inl (StatusError code_InvalidArgument ''PushDirectory requires at least one URI''))
     else
       tryM (ret (push_getDigestFunction X (PushDigestFunction req) (PushInstanceName req)
         (PushDigest req))) (\<lambda>digestFunction.
       if \<not> may_update s (GetInstanceName X digestFunction) then
         ret (Inl (StatusError code_PermissionDenied
           (''This service does not accept Directories for instance '' @ GoQuote X (PushInstanceName req))))
       else
         let assetRef = NewAssetReference (PushUris req) (PushQualifiers req);
             uris = RefUris assetRef;
             qualifiers = SortQualifiers (PushQualifiers req)
         in bindM (NewDirectoryAsset X (PushDigest req) (PushExpireAt req)) (\<lambda>assetData.
            tryM (Put (assetStore s) assetRef assetData digestFunction) (\<lambda>_.
            if length uris > 1 then
              forM uris (\<lambda>uri.
                let assetRef = NewAssetReference [uri] qualifiers
                in bindM (NewDirectoryAsset X (PushDigest req) (PushExpireAt req)) (\<lambda>assetData.
                   Put (assetStore s) assetRef assetData digestFunction))
            else ret (Inr ())))))"

text \<open>What both handlers leave of the request: the slices are sorted where the first
  \<open>NewAssetReference\<close> is reached, that is after the three guards.\<close>

definition request_after ::
  "('i, 'f, 'd, 'b, 'w) ext \<Rightarrow> ('i, 'f, 'w) assetPushServer \<Rightarrow> PushRequest \<Rightarrow> PushRequest" where
  "request_after X s req =
    (if length (PushUris req) = 0 then req
     else case push_getDigestFunction X (PushDigestFunction req) (PushInstanceName req) (PushDigest req) of
       Inl err \<Rightarrow> req
     | Inr digestFunction \<Rightarrow>
         if \<not> may_update s (GetInstanceName X digestFunction) then req
         else
           let assetRef = NewAssetReference (PushUris req) (PushQualifiers req)
           in req\<lparr>PushUris := RefUris assetRef, PushQualifiers := RefQualifiers assetRef\<rparr>)"

definition NewAssetPushServer ::
  "('i, 'f, 'd, 'b, 'w) ext \<Rightarrow> ('f, 'w) AssetStore \<Rightarrow> ('i \<rightharpoonup> bool) \<Rightarrow> 'w PushServer" where
  "NewAssetPushServer X store allow =
    (let s = \<lparr>assetStore = store, allowUpdatesForInstances = allow\<rparr>
     in \<lparr>ServeBlob = \<lambda>req. bindM (replyM (assetPushServer_PushBlob X s req)) (\<lambda>reply. ret (reply, request_after X s req)),
         ServeDirectory = \<lambda>req. bindM (replyM (assetPushServer_PushDirectory X s req))
           (\<lambda>reply. ret (reply, request_after X s req))\<rparr>)"

lemma bindM_ret_right: "bindM m ret = m"
  by (rule ext) (auto simp: bindM_def split: run.split prod.split)

lemma NewAssetPushServer_run:
  "ServeBlob (NewAssetPushServer X st allow) req =
     bindM (replyM (assetPushServer_PushBlob X \<lparr>assetStore = st, allowUpdatesForInstances = allow\<rparr> req))
       (\<lambda>reply. ret (reply, request_after X \<lparr>assetStore = st, allowUpdatesForInstances = allow\<rparr> req))"
  "ServeDirectory (NewAssetPushServer X st allow) req =
     bindM (replyM (assetPushServer_PushDirectory X \<lparr>assetStore = st, allowUpdatesForInstances = allow\<rparr> req))
       (\<lambda>reply. ret (reply, request_after X \<lparr>assetStore = st, allowUpdatesForInstances = allow\<rparr> req))"
  "PushBlob (NewAssetPushServer X st allow) req =
     replyM (assetPushServer_PushBlob X \<lparr>assetStore = st, allowUpdatesForInstances = allow\<rparr> req)"
  "PushDirectory (NewAssetPushServer X st allow) req =
     replyM (assetPushServer_PushDirectory X \<lparr>assetStore = st, allowUpdatesForInstances = allow\<rparr> req)"
  by (simp_all add: NewAssetPushServer_def PushBlob_def PushDirectory_def Let_def bindM_assoc bindM_ret_right
      del: ret_run)

subsection \<open>error_push_server.go\<close>

definition errorPushServer_Push ::
  "('i, 'f, 'd, 'b, 'w) ext \<Rightarrow> Status \<Rightarrow> PushRequest \<Rightarrow> ('w, unit reply) comp" where
  "errorPushServer_Push X err req = ret (None, ErrorProto X err)"

definition NewErrorPushServer :: "('i, 'f, 'd, 'b, 'w) ext \<Rightarrow> Status \<Rightarrow> 'w PushServer" where
  "NewErrorPushServer X err =
     \<lparr>ServeBlob = \<lambda>req. bindM (errorPushServer_Push X err req) (\<lambda>reply. ret (reply, req)),
      ServeDirectory = \<lambda>req. bindM (errorPushServer_Push X err req) (\<lambda>reply. ret (reply, req))\<rparr>"

lemma NewErrorPushServer_run:
  "PushBlob (NewErrorPushServer X err) req = errorPushServer_Push X err req"
  "PushDirectory (NewErrorPushServer X err) req = errorPushServer_Push X err req"
  by (simp_all add: NewErrorPushServer_def errorPushServer_Push_def PushBlob_def PushDirectory_def del: ret_run)

subsection \<open>metrics_push_server.go\<close>

text \<open>The label of the first \<open>resource_type\<close> qualifier.\<close>

fun resourceTypeLabel :: "Qualifier list \<Rightarrow> string" where
  "resourceTypeLabel [] = ''N/A''"
| "resourceTypeLabel (q # qs) =
     (if Name q = ''resource_type'' then Value q else resourceTypeLabel qs)"

definition push_updateDurationSeconds ::
  "('i, 'f, 'd, 'b, 'w) ext \<Rightarrow> string \<Rightarrow> Code \<Rightarrow> time \<Rightarrow> Qualifier list \<Rightarrow> ('w, unit) comp" where
  "push_updateDurationSeconds X vec code timeStart qualifiers =
     (let resourceType = resourceTypeLabel qualifiers
      in bindM (call (TimeNow X)) (\<lambda>now.
         call (Observe X vec (Some code) resourceType (instant now - instant timeStart))))"

definition push_updateBlobSizeBytes ::
  "('i, 'f, 'd, 'b, 'w) ext \<Rightarrow> string \<Rightarrow> int \<Rightarrow> Qualifier list \<Rightarrow> ('w, unit) comp" where
  "push_updateBlobSizeBytes X vec blobSize qualifiers =
     (let resourceType = resourceTypeLabel qualifiers
      in call (Observe X vec None resourceType blobSize))"

text \<open>The size is labelled before the call, the duration after it: with the qualifiers as
  the call left them.\<close>

definition metricsPush_PushBlob ::
  "('i, 'f, 'd, 'b, 'w) ext \<Rightarrow> 'w PushServer \<Rightarrow> PushBlobRequest \<Rightarrow> ('w, unit reply \<times> PushBlobRequest) comp" where
  "metricsPush_PushBlob X ps req =
     bindM (case PushDigest req of
              Some d \<Rightarrow> push_updateBlobSizeBytes X ''pushBlobBlobSizeBytes'' (SizeBytes d) (PushQualifiers req)
            | None \<Rightarrow> ret ()) (\<lambda>_.
     bindM (call (TimeNow X)) (\<lambda>timeStart.
     bindM (ServeBlob ps req) (\<lambda>((resp, err), req).
     bindM (push_updateDurationSeconds X ''pushBlobDurationSeconds'' (StatusCode X err) timeStart
       (PushQualifiers req)) (\<lambda>_.
     ret ((resp, err), req)))))"

definition metricsPush_PushDirectory ::
  "('i, 'f, 'd, 'b, 'w) ext \<Rightarrow> 'w PushServer \<Rightarrow> PushDirectoryRequest \<Rightarrow>
     ('w, unit reply \<times> PushDirectoryRequest) comp" where
  "metricsPush_PushDirectory X ps req =
     bindM (call (TimeNow X)) (\<lambda>timeStart.
     bindM (ServeDirectory ps req) (\<lambda>((resp, err), req).
     bindM (push_updateDurationSeconds X ''pushDirectoryDurationSeconds'' (StatusCode X err) timeStart
       (PushQualifiers req)) (\<lambda>_.
     ret ((resp, err), req))))"

definition NewMetricsAssetPushServer ::
  "('i, 'f, 'd, 'b, 'w) ext \<Rightarrow> 'w PushServer \<Rightarrow> 'w PushServer" where
  "NewMetricsAssetPushServer X ps =
     \<lparr>ServeBlob = metricsPush_PushBlob X ps, ServeDirectory = metricsPush_PushDirectory X ps\<rparr>"

lemma NewMetricsAssetPushServer_run:
  "PushBlob (NewMetricsAssetPushServer X ps) req =
     bindM (case PushDigest req of
              Some d \<Rightarrow> push_updateBlobSizeBytes X ''pushBlobBlobSizeBytes'' (SizeBytes d) (PushQualifiers req)
            | None \<Rightarrow> ret ()) (\<lambda>_.
     bindM (call (TimeNow X)) (\<lambda>timeStart.
     bindM (ServeBlob ps req) (\<lambda>(reply, req).
     bindM (push_updateDurationSeconds X ''pushBlobDurationSeconds'' (StatusCode X (snd reply)) timeStart
       (PushQualifiers req)) (\<lambda>_. ret reply))))"
  "PushDirectory (NewMetricsAssetPushServer X ps) req =
     bindM (call (TimeNow X)) (\<lambda>timeStart.
     bindM (ServeDirectory ps req) (\<lambda>(reply, req).
     bindM (push_updateDurationSeconds X ''pushDirectoryDurationSeconds'' (StatusCode X (snd reply)) timeStart
       (PushQualifiers req)) (\<lambda>_. ret reply)))"
  by (simp_all add: NewMetricsAssetPushServer_def metricsPush_PushBlob_def metricsPush_PushDirectory_def
      PushBlob_def PushDirectory_def bindM_assoc case_prod_unfold del: ret_run bindM_call)

subsection \<open>What a push leaves in the store\<close>

text \<open>The asset a push request asks to be stored, but for its time stamp.\<close>

definition pushed_asset :: "PushRequest \<Rightarrow> AssetType \<Rightarrow> Asset \<Rightarrow> bool" where
  "pushed_asset req t a \<longleftrightarrow>
     AssetDigest a = PushDigest req \<and> ExpireAt a = PushExpireAt req \<and> AssetTypeOf a = t"

text \<open>The references a push stores it under, in the order it does.\<close>

definition pushed_refs :: "PushRequest \<Rightarrow> AssetReference list" where
  "pushed_refs req =
     NewAssetReference (PushUris req) (PushQualifiers req) #
     (if length (PushUris req) > 1
      then map (\<lambda>uri. NewAssetReference [uri] (PushQualifiers req)) (sort (PushUris req)) else [])"

text \<open>One of these stores: the asset is made anew, with the time of the store.\<close>

definition push_one ::
  "('i, 'f, 'd, 'b, 'w) ext \<Rightarrow> ('f, 'w) AssetStore \<Rightarrow> AssetType \<Rightarrow> PushRequest \<Rightarrow> 'f \<Rightarrow>
     AssetReference \<Rightarrow> ('w, error + unit) comp" where
  "push_one X st t req df ref =
     bindM (NewAsset X (PushDigest req) t (PushExpireAt req)) (\<lambda>a. Put st ref a df)"

text \<open>Both handlers are the same program up to the type of the asset and two messages.\<close>

definition push_with ::
  "('i, 'f, 'd, 'b, 'w) ext \<Rightarrow> ('i, 'f, 'w) assetPushServer \<Rightarrow> AssetType \<Rightarrow> string \<Rightarrow> string \<Rightarrow>
     PushRequest \<Rightarrow> ('w, error + unit) comp" where
  "push_with X s t noUris denied req =
    (if PushUris req = [] then ret (Inl (StatusError code_InvalidArgument noUris))
     else case push_getDigestFunction X (PushDigestFunction req) (PushInstanceName req) (PushDigest req) of
       Inl e \<Rightarrow> ret (Inl e)
     | Inr df \<Rightarrow>
         (if may_update s (GetInstanceName X df)
          then forM (pushed_refs req) (push_one X (assetStore s) t req df)
          else ret (Inl (StatusError code_PermissionDenied (denied @ GoQuote X (PushInstanceName req))))))"

lemma PushBlob_push_with:
  "assetPushServer_PushBlob X s req = push_with X s BLOB ''PushBlob requires at least one URI''
     ''This service does not accept Blobs for instance '' req"
  by (auto simp: assetPushServer_PushBlob_def push_with_def pushed_refs_def push_one_def
        NewBlobAsset_def Let_def tryM_bindM forM_map split: sum.split)

lemma PushDirectory_push_with:
  "assetPushServer_PushDirectory X s req = push_with X s DIRECTORY
     ''PushDirectory requires at least one URI''
     ''This service does not accept Directories for instance '' req"
  by (auto simp: assetPushServer_PushDirectory_def push_with_def pushed_refs_def push_one_def
        NewDirectoryAsset_def Let_def tryM_bindM forM_map split: sum.split)

text \<open>A push that succeeded passed its three guards.\<close>

lemma push_with_success:
  "push_with X s t m1 m2 req w = (Done (Inr u), w') \<longleftrightarrow>
     PushUris req \<noteq> [] \<and>
     (\<exists>df. push_getDigestFunction X (PushDigestFunction req) (PushInstanceName req)
        (PushDigest req) = Inr df \<and>
      may_update s (GetInstanceName X df) \<and>
      forM (pushed_refs req) (push_one X (assetStore s) t req df) w = (Done (Inr u), w'))"
  by (auto simp: push_with_def split: sum.splits)

lemma pushed_refs_single:
  assumes "uri \<in> set (PushUris req)"
  shows "NewAssetReference [uri] (PushQualifiers req) \<in> set (pushed_refs req)"
proof (cases "length (PushUris req) > 1")
  case False
  with assms have "PushUris req = [uri]" by (cases "PushUris req") auto
  then show ?thesis by (simp add: pushed_refs_def)
qed (use assms in \<open>simp add: pushed_refs_def\<close>)

context asset_store
begin

text \<open>\<open>held\<close>: the store holds, under a reference, an asset of this push.\<close>

definition held :: "'c \<Rightarrow> PushRequest \<Rightarrow> AssetType \<Rightarrow> 'f \<Rightarrow> AssetReference \<Rightarrow> 'w \<Rightarrow> bool" where
  "held c req t df ref w \<longleftrightarrow>
     (\<exists>a. view c w df ref = Some (image c a) \<and> pushed_asset req t a)"

lemma push_one_held:
  assumes "ok c" "\<And>a. pushed_asset req t a \<Longrightarrow> fits c a" "clock_keeps X (view c)"
    and "push_one X (store c) t req df ref w = (Done (Inr u), w')"
  shows "held c req t df ref w'" "held c req t df ref' w \<Longrightarrow> held c req t df ref' w'"
proof -
  from assms(4) obtain a w1 where new: "NewAsset X (PushDigest req) t (PushExpireAt req) w = (Done a, w1)"
    and put: "Put (store c) ref a df w1 = (Done (Inr u), w')"
    by (auto simp: push_one_def bindM_Done_iff)
  from new have a: "pushed_asset req t a" by (simp add: pushed_asset_def NewAsset_fields)
  with assms(2) have fits: "fits c a" .
  from NewAsset_fields(4) [OF new] assms(3) have same: "view c w1 = view c w"
    by (simp add: clock_keeps_def)
  show "held c req t df ref w'"
    using Put_stores [OF assms(1) fits put] a by (auto simp: held_def)
  show "held c req t df ref' w \<Longrightarrow> held c req t df ref' w'"
    using Put_frame [OF assms(1) fits put, of df ref'] a same by (auto simp: held_def)
qed

lemma push_with_held:
  assumes "ok c" "\<And>a. pushed_asset req t a \<Longrightarrow> fits c a" "clock_keeps X (view c)"
    and "push_with X \<lparr>assetStore = store c, allowUpdatesForInstances = allow\<rparr> t m1 m2 req w
           = (Done (Inr u), w')"
    and "push_getDigestFunction X (PushDigestFunction req) (PushInstanceName req)
           (PushDigest req) = Inr df"
    and "ref \<in> set (pushed_refs req)"
  shows "held c req t df ref w'"
proof -
  have "forM (pushed_refs req) (push_one X (store c) t req df) w = (Done (Inr u), w')"
    using assms(4,5) by (simp add: push_with_success)
  from forM_establishes [OF this, where Q = "held c req t df"] assms(6)
  show ?thesis using push_one_held [OF assms(1-3)] by blast
qed

end

end
