(* ===== verification/QualifierSet.thy ===== *)
theory QualifierSet
  imports Messages
begin

section \<open>Sets of qualifier names (pkg/qualifier/qualifier_set.go)\<close>

text \<open>
  \<open>type Set map[string]struct{}\<close> is a finite map from names to the unit value. The
  locale \<open>name_set\<close> is what the fetchers rely on; it is interpreted on these operations.
\<close>

type_synonym Set = "(string, unit) mapping"

definition exists_value :: unit where
  "exists_value = ()"

definition IsEmpty :: "Set \<Rightarrow> bool" where
  "IsEmpty s = Mapping.is_empty s"

definition Contains :: "Set \<Rightarrow> string \<Rightarrow> bool" where
  "Contains s q = (case Mapping.lookup s q of Some _ \<Rightarrow> True | None \<Rightarrow> False)"

definition Add :: "Set \<Rightarrow> string \<Rightarrow> Set" where
  "Add s q = Mapping.update q exists_value s"

definition NewSet :: "string list \<Rightarrow> Set" where
  "NewSet names = foldl (\<lambda>s n. Mapping.update n exists_value s) Mapping.empty names"

text \<open>\<open>range a\<close> visits every key of \<open>a\<close>; adding the kept ones to an empty map gives
  the same map in whatever order they come.\<close>

definition Difference :: "Set \<Rightarrow> Set \<Rightarrow> Set" where
  "Difference a b = Mapping.filter (\<lambda>k _. \<not> Contains b k) a"

definition QualifiersToSet :: "Qualifier list \<Rightarrow> Set" where
  "QualifiersToSet qualifiers = foldl (\<lambda>s q. Add s (Name q)) Mapping.empty qualifiers"

subsection \<open>The interface\<close>

locale name_set =
  fixes empty :: "'s"
    and add :: "'s \<Rightarrow> string \<Rightarrow> 's"
    and contains :: "'s \<Rightarrow> string \<Rightarrow> bool"
    and is_empty :: "'s \<Rightarrow> bool"
    and difference :: "'s \<Rightarrow> 's \<Rightarrow> 's"
    and names :: "'s \<Rightarrow> string set"
  assumes names_empty: "names empty = {}"
    and names_add: "names (add s q) = insert q (names s)"
    and contains_iff: "contains s q \<longleftrightarrow> q \<in> names s"
    and is_empty_iff: "is_empty s \<longleftrightarrow> names s = {}"
    and names_difference: "names (difference a b) = names a - names b"
begin

lemma names_foldl_add: "names (foldl add s qs) = names s \<union> set qs"
  by (induction qs arbitrary: s) (auto simp: names_add)

lemma contains_foldl_add: "contains (foldl add empty qs) q \<longleftrightarrow> q \<in> set qs"
  by (simp add: contains_iff names_foldl_add names_empty)

lemma difference_empty_iff: "is_empty (difference a b) \<longleftrightarrow> names a \<subseteq> names b"
  by (auto simp: is_empty_iff names_difference)

lemma difference_foldl_empty_iff:
  "is_empty (difference (foldl add empty as) (foldl add empty bs)) \<longleftrightarrow> set as \<subseteq> set bs"
  by (simp add: difference_empty_iff names_foldl_add names_empty)

lemma contains_difference: "contains (difference a b) q \<longleftrightarrow> contains a q \<and> \<not> contains b q"
  by (simp add: contains_iff names_difference)

end

lemma names_Add [simp]: "Mapping.keys (Add s q) = insert q (Mapping.keys s)"
  by (simp add: Add_def)

lemma Contains_iff [simp]: "Contains s q \<longleftrightarrow> q \<in> Mapping.keys s"
  by (auto simp: Contains_def keys_is_none_rep Option.is_none_def split: option.splits)

lemma keys_filter: "Mapping.keys (Mapping.filter P m) =
    {k \<in> Mapping.keys m. \<exists>v. Mapping.lookup m k = Some v \<and> P k v}"
  by (auto simp: keys_dom_lookup lookup_filter dom_def split: option.splits if_splits)

lemma keys_Difference [simp]:
  "Mapping.keys (Difference a b) = Mapping.keys a - Mapping.keys b"
proof -
  have "k \<in> Mapping.keys a \<longleftrightarrow> (\<exists>v. Mapping.lookup a k = Some v)" for k
    by (auto simp: keys_dom_lookup)
  then show ?thesis by (auto simp: Difference_def keys_filter)
qed

lemma IsEmpty_iff: "IsEmpty s \<longleftrightarrow> Mapping.keys s = {}"
  by (simp add: IsEmpty_def Mapping.is_empty_def)

interpretation qset: name_set "Mapping.empty :: Set" Add Contains IsEmpty Difference Mapping.keys
  by unfold_locales (auto simp: IsEmpty_iff)

subsection \<open>Building sets\<close>

lemma NewSet_foldl: "NewSet names = foldl Add Mapping.empty names"
proof -
  have "(\<lambda>s n. Mapping.update n exists_value s) = Add"
    by (intro ext) (simp add: Add_def)
  then show ?thesis by (simp add: NewSet_def)
qed

lemma QualifiersToSet_foldl: "QualifiersToSet qs = foldl Add Mapping.empty (map Name qs)"
  by (simp add: QualifiersToSet_def foldl_map)

lemma keys_NewSet [simp]: "Mapping.keys (NewSet names) = set names"
  by (simp add: NewSet_foldl qset.names_foldl_add)

lemma keys_QualifiersToSet [simp]: "Mapping.keys (QualifiersToSet qs) = Name ` set qs"
  by (simp add: QualifiersToSet_foldl qset.names_foldl_add)

lemma IsEmpty_Difference_NewSet:
  "IsEmpty (Difference (QualifiersToSet qs) (NewSet names)) \<longleftrightarrow> Name ` set qs \<subseteq> set names"
  using qset.difference_foldl_empty_iff [of "map Name qs" names]
  by (simp add: NewSet_foldl QualifiersToSet_foldl)

end
