(* ===== verification/Fetchers.thy ===== *)
theory Fetchers
  imports QualifierSet AssetData
begin

section \<open>The fetcher interface (pkg/fetch/fetcher.go, utils.go, error_fetcher.go)\<close>

text \<open>A fetcher is an object with three methods; each decorator takes one and gives one.\<close>

record 'w Fetcher =
  FetchBlob :: "FetchBlobRequest \<Rightarrow> ('w, FetchBlobResponse reply) comp"
  FetchDirectory :: "FetchDirectoryRequest \<Rightarrow> ('w, FetchDirectoryResponse reply) comp"
  CheckQualifiers :: "Set \<Rightarrow> Set"

text \<open>The digest function of a fetch request: SHA-256 when it names none.\<close>

definition getDigestFunction ::
  "('i, 'f, 'd, 'b, 'w) ext \<Rightarrow> DigestFunction_Value \<Rightarrow> string \<Rightarrow> error + 'f" where
  "getDigestFunction X digestFunction instanceName =
     (case NewInstanceName X instanceName of
        Inl err \<Rightarrow> Inl (StatusWrapf X err (''Invalid instance name '' @ GoQuote X instanceName))
      | Inr inst \<Rightarrow>
          (let digestFunction = (if digestFunction = DF_UNKNOWN then DF_SHA256 else digestFunction)
           in GetDigestFunction X inst digestFunction 0))"

subsection \<open>error_fetcher.go\<close>

definition errorFetcher_FetchBlob ::
  "('i, 'f, 'd, 'b, 'w) ext \<Rightarrow> Status \<Rightarrow> FetchBlobRequest \<Rightarrow> ('w, FetchBlobResponse reply) comp" where
  "errorFetcher_FetchBlob X err req = ret (None, ErrorProto X err)"

definition errorFetcher_FetchDirectory ::
  "('i, 'f, 'd, 'b, 'w) ext \<Rightarrow> Status \<Rightarrow> FetchDirectoryRequest \<Rightarrow>
     ('w, FetchDirectoryResponse reply) comp" where
  "errorFetcher_FetchDirectory X err req = ret (None, ErrorProto X err)"

definition errorFetcher_CheckQualifiers :: "Set \<Rightarrow> Set" where
  "errorFetcher_CheckQualifiers qualifiers = Mapping.empty"

definition NewErrorFetcher :: "('i, 'f, 'd, 'b, 'w) ext \<Rightarrow> Status \<Rightarrow> 'w Fetcher" where
  "NewErrorFetcher X err =
     \<lparr>FetchBlob = errorFetcher_FetchBlob X err, FetchDirectory = errorFetcher_FetchDirectory X err,
      CheckQualifiers = errorFetcher_CheckQualifiers\<rparr>"

definition DefaultFetcher :: "('i, 'f, 'd, 'b, 'w) ext \<Rightarrow> 'w Fetcher" where
  "DefaultFetcher X = NewErrorFetcher X
     \<lparr>status_Code = 12, status_Message = ''Fetching is not configured for this server''\<rparr>"

lemma NewErrorFetcher_run [simp]:
  "FetchBlob (NewErrorFetcher X err) req w = (Done (None, ErrorProto X err), w)"
  "FetchDirectory (NewErrorFetcher X err) req w = (Done (None, ErrorProto X err), w)"
  by (simp_all add: NewErrorFetcher_def errorFetcher_FetchBlob_def errorFetcher_FetchDirectory_def)

lemma IsEmpty_NewErrorFetcher [simp]: "IsEmpty (CheckQualifiers (NewErrorFetcher X err) qs)"
  by (simp add: NewErrorFetcher_def errorFetcher_CheckQualifiers_def IsEmpty_iff)

text \<open>Where both default to the same function: a fetch that names SHA-256 and one that
  names nothing.\<close>

lemma getDigestFunction_default:
  "getDigestFunction X DF_UNKNOWN i = getDigestFunction X DF_SHA256 i"
  by (simp add: getDigestFunction_def)

subsection \<open>Fetchers behind a gate\<close>

text \<open>
  Two decorators let a request through to the fetcher they wrap, unchanged, or answer it
  with an error themselves: the contract of a gate. \<open>gate c d f req\<close> is the check, with
  \<open>d\<close> telling a directory from a blob request.
\<close>

definition gated ::
  "('w, error option) comp \<Rightarrow> ('w, 'r reply) comp \<Rightarrow> ('w, 'r reply) comp" where
  "gated g m = bindM g (\<lambda>e. case e of Some e \<Rightarrow> ret (None, Some e) | None \<Rightarrow> m)"

locale fetch_gate =
  fixes wrap :: "'c \<Rightarrow> 'w Fetcher \<Rightarrow> 'w Fetcher"
    and gate :: "'c \<Rightarrow> bool \<Rightarrow> 'w Fetcher \<Rightarrow> FetchRequest \<Rightarrow> ('w, error option) comp"
  assumes wrap_blob: "FetchBlob (wrap c f) req = gated (gate c False f req) (FetchBlob f req)"
    and wrap_directory:
      "FetchDirectory (wrap c f) req = gated (gate c True f req) (FetchDirectory f req)"
    and wrap_qualifiers: "CheckQualifiers (wrap c f) = CheckQualifiers f"
begin

lemma gate_rejects:
  "gate c False f req w = (Done (Some e), w') \<Longrightarrow> FetchBlob (wrap c f) req w = (Done (None, Some e), w')"
  "gate c True f req w = (Done (Some e), w') \<Longrightarrow> FetchDirectory (wrap c f) req w = (Done (None, Some e), w')"
  by (simp_all add: wrap_blob wrap_directory gated_def bindM_Done)

lemma gate_admits:
  "gate c False f req w = (Done None, w') \<Longrightarrow> FetchBlob (wrap c f) req w = FetchBlob f req w'"
  "gate c True f req w = (Done None, w') \<Longrightarrow> FetchDirectory (wrap c f) req w = FetchDirectory f req w'"
  by (simp_all add: wrap_blob wrap_directory gated_def bindM_Done)

text \<open>A response can only come from the wrapped fetcher, of a request the gate admitted.\<close>

lemma gate_response:
  assumes "FetchBlob (wrap c f) req w = (Done (Some resp, err), w')"
  obtains w1 where "gate c False f req w = (Done None, w1)"
    "FetchBlob f req w1 = (Done (Some resp, err), w')"
  using assms by (auto simp: wrap_blob gated_def bindM_Done_iff split: option.splits)

lemma gate_directory_response:
  assumes "FetchDirectory (wrap c f) req w = (Done (Some resp, err), w')"
  obtains w1 where "gate c True f req w = (Done None, w1)"
    "FetchDirectory f req w1 = (Done (Some resp, err), w')"
  using assms by (auto simp: wrap_directory gated_def bindM_Done_iff split: option.splits)

end

subsection \<open>Fetchers that only observe\<close>

text \<open>
  Two decorators record what passes through them. \<open>before c d req w\<close> is the world in
  which they call the fetcher they wrap. An error goes out as it came in; so does a response
  that is \<open>plain\<close>, one the decorator can read without dereferencing a nil pointer.
  \<open>quiet c view\<close> says that recording leaves \<open>view\<close> alone.
\<close>

locale fetch_observer =
  fixes wrap :: "'c \<Rightarrow> 'w Fetcher \<Rightarrow> 'w Fetcher"
    and before :: "'c \<Rightarrow> bool \<Rightarrow> FetchRequest \<Rightarrow> 'w \<Rightarrow> 'w"
    and plain :: "bool \<Rightarrow> FetchResponse \<Rightarrow> bool"
    and quiet :: "'c \<Rightarrow> ('w \<Rightarrow> 'v) \<Rightarrow> bool"
  assumes observes_blob: "FetchBlob f req (before c False req w) = (Done (Some resp, None), w1) \<Longrightarrow>
      plain False resp \<Longrightarrow>
      \<exists>w2. FetchBlob (wrap c f) req w = (Done (Some resp, None), w2) \<and> (quiet c view \<longrightarrow> view w2 = view w1)"
    and observes_directory: "FetchDirectory f req (before c True req w) = (Done (Some resp, None), w1) \<Longrightarrow>
      plain True resp \<Longrightarrow>
      \<exists>w2. FetchDirectory (wrap c f) req w = (Done (Some resp, None), w2) \<and> (quiet c view \<longrightarrow> view w2 = view w1)"
    and observes_blob_error: "FetchBlob f req (before c False req w) = (Done (r, Some e), w1) \<Longrightarrow>
      \<exists>r' w2. FetchBlob (wrap c f) req w = (Done (r', Some e), w2) \<and> (quiet c view \<longrightarrow> view w2 = view w1)"
    and observes_directory_error: "FetchDirectory f req (before c True req w) = (Done (r, Some e), w1) \<Longrightarrow>
      \<exists>r' w2. FetchDirectory (wrap c f) req w = (Done (r', Some e), w2) \<and> (quiet c view \<longrightarrow> view w2 = view w1)"
    and before_quiet: "quiet c view \<Longrightarrow> view (before c d req w) = view w"
    and observer_qualifiers: "CheckQualifiers (wrap c f) = CheckQualifiers f"

end
