(* ===== verification/CachingFetcher.thy ===== *)
theory CachingFetcher
  imports Fetchers AuthorizingAssetStore GoStrings
begin

section \<open>The caching fetcher (pkg/fetch/caching_fetcher.go)\<close>

text \<open>
  A fetch looks for each URI of the request in the asset store; the first asset that is
  neither expired nor too old answers it. Otherwise the wrapped fetcher is asked and what it
  gives is stored, first under the URI of the response and, if the request has several
  URIs, under all of them. The last section proves what this promises over any asset store.
\<close>

record ('f, 'w) cachingFetcher =
  cachedFetcher :: "'w Fetcher"
  cacheStore :: "('f, 'w) AssetStore"

definition removeVolatileQualifiers :: "Qualifier list \<Rightarrow> Qualifier list" where
  "removeVolatileQualifiers qualifiers =
     foldl (\<lambda>stableQualifiers q.
       if HasPrefix (Name q) ''http_header_url:'' then stableQualifiers
       else if Name q = ''bazel.auth_headers'' then stableQualifiers
       else stableQualifiers @ [q]) [] qualifiers"

definition getAndCheckAsset ::
  "('i, 'f, 'd, 'b, 'w) ext \<Rightarrow> ('f, 'w) AssetStore \<Rightarrow> string \<Rightarrow> Qualifier list \<Rightarrow> 'f \<Rightarrow> time \<Rightarrow>
     ('w, error + Asset) comp" where
  "getAndCheckAsset X st uri qualifiers digestFunction oldestContentAccepted =
    (let assetRef = NewAssetReference [uri] qualifiers
     in tryM (Get st assetRef digestFunction) (\<lambda>assetData.
     tryM
       (case ExpireAt assetData of
          None \<Rightarrow> ret (Inr ())
        | Some ts \<Rightarrow>
            let expireTime = AsTime X (Some ts)
            in bindM (call (TimeNow X)) (\<lambda>now.
            if Before expireTime now \<and> \<not> TimeEqual expireTime Unix_0_0
            then ret (Inl (PlainError (''Asset expired at '' @ TimeText X expireTime)))
            else ret (Inr ()))) (\<lambda>_.
     if oldestContentAccepted \<noteq> Unix_0_0 then
       let updateTime = AsTime X (LastUpdated assetData)
       in if Before updateTime oldestContentAccepted
       then ret (Inl (PlainError (''Asset older than '' @ TimeText X oldestContentAccepted)))
       else ret (Inr assetData)
     else ret (Inr assetData))))"

text \<open>The loop over the URIs of a request, which both handlers have: the first URI with an
  asset, or the errors of them all.\<close>

fun checkCache ::
  "('i, 'f, 'd, 'b, 'w) ext \<Rightarrow> ('f, 'w) AssetStore \<Rightarrow> Qualifier list \<Rightarrow> 'f \<Rightarrow> time \<Rightarrow>
     string list \<Rightarrow> error list \<Rightarrow> ('w, error list + (string \<times> Asset)) comp" where
  "checkCache X st qualifiers df oldest [] allCachingErrors = ret (Inl allCachingErrors)"
| "checkCache X st qualifiers df oldest (uri # uris) allCachingErrors =
     bindM (getAndCheckAsset X st uri (removeVolatileQualifiers qualifiers) df oldest) (\<lambda>r.
     case r of
       Inl err \<Rightarrow> checkCache X st qualifiers df oldest uris (allCachingErrors @ [err])
     | Inr assetData \<Rightarrow> ret (Inr (uri, assetData)))"

text \<open>\<open>errors.Join\<close> of no error is nil, which \<open>%v\<close> prints as \<open><nil>\<close>.\<close>

definition joinedErrors :: "('i, 'f, 'd, 'b, 'w) ext \<Rightarrow> error list \<Rightarrow> string" where
  "joinedErrors X errs =
     (if errs = [] then ''<nil>'' else Join (map (ErrorText X) errs) [CHR 0x0A])"

definition cachingFetcher_FetchBlob ::
  "('i, 'f, 'd, 'b, 'w) ext \<Rightarrow> ('f, 'w) cachingFetcher \<Rightarrow> FetchBlobRequest \<Rightarrow>
     ('w, FetchBlobResponse reply) comp" where
  "cachingFetcher_FetchBlob X cf req =
    (case getDigestFunction X (DigestFunction req) (InstanceName req) of
       Inl err \<Rightarrow> ret (None, Some err)
     | Inr digestFunction \<Rightarrow>
    (case (case OldestContentAccepted req of
             None \<Rightarrow> Inr Unix_0_0
           | Some ts \<Rightarrow>
               (case CheckValid X ts of
                  Some err \<Rightarrow> Inl err
                | None \<Rightarrow> Inr (AsTime X (Some ts)))) of
       Inl err \<Rightarrow> ret (None, Some err)
     | Inr oldestContentAccepted \<Rightarrow>
     bindM (checkCache X (cacheStore cf) (Qualifiers req) digestFunction oldestContentAccepted
       (Uris req) []) (\<lambda>r.
     case r of
       Inr (uri, assetData) \<Rightarrow>
         ret (Some \<lparr>ResponseStatus = Some \<lparr>status_Code = code_OK,
                      status_Message = ''Blob fetched successfully from asset cache''\<rparr>,
                    ResponseUri = uri, ResponseQualifiers = Qualifiers req,
                    ResponseDigest = AssetDigest assetData\<rparr>, None)
     | Inl allCachingErrors \<Rightarrow>
     bindM (FetchBlob (cachedFetcher cf) req) (\<lambda>(response, err).
     case err of
       Some e \<Rightarrow>
         ret (None, ErrorProto X \<lparr>status_Code = StatusCode X (Some e),
           status_Message = StatusMessage X e @ '' (retrieving cached blob failed with: '' @
             joinedErrors X allCachingErrors @ '')''\<rparr>)
     | None \<Rightarrow>
     bindM (deref response) (\<lambda>rsp.
     bindM (deref (ResponseStatus rsp)) (\<lambda>st.
     if status_Code st \<noteq> 0 then ret (response, None)
     else
       let assetRef = NewAssetReference [ResponseUri rsp]
             (removeVolatileQualifiers (ResponseQualifiers rsp))
       in bindM (NewBlobAsset X (ResponseDigest rsp) (Some (getDefaultTimestamp X))) (\<lambda>assetData.
       bindM (Put (cacheStore cf) assetRef assetData digestFunction) (\<lambda>r.
       case r of
         Inl err \<Rightarrow> ret (response, Some err)
       | Inr _ \<Rightarrow>
         if length (Uris req) > 1 then
           let assetRef = NewAssetReference (Uris req) (RefQualifiers assetRef)
           in bindM (Put (cacheStore cf) assetRef assetData digestFunction) (\<lambda>r.
              case r of
                Inl err \<Rightarrow> ret (response, Some err)
              | Inr _ \<Rightarrow> ret (response, None))
         else ret (response, None)))))))))"

definition cachingFetcher_FetchDirectory ::
  "('i, 'f, 'd, 'b, 'w) ext \<Rightarrow> ('f, 'w) cachingFetcher \<Rightarrow> FetchDirectoryRequest \<Rightarrow>
     ('w, FetchDirectoryResponse reply) comp" where
  "cachingFetcher_FetchDirectory X cf req =
    (case getDigestFunction X (DigestFunction req) (InstanceName req) of
       Inl err \<Rightarrow> ret (None, Some err)
     | Inr digestFunction \<Rightarrow>
    (let oldestContentAccepted =
           (case OldestContentAccepted req of
              None \<Rightarrow> Unix_0_0
            | Some ts \<Rightarrow> AsTime X (Some ts))
     in bindM (checkCache X (cacheStore cf) (Qualifiers req) digestFunction oldestContentAccepted
       (Uris req) []) (\<lambda>r.
     case r of
       Inr (uri, assetData) \<Rightarrow>
         ret (Some \<lparr>ResponseStatus = Some \<lparr>status_Code = code_OK,
                      status_Message = ''Directory fetched successfully from asset cache''\<rparr>,
                    ResponseUri = uri, ResponseQualifiers = Qualifiers req,
                    ResponseDigest = AssetDigest assetData\<rparr>, None)
     | Inl allCachingErrors \<Rightarrow>
     bindM (FetchDirectory (cachedFetcher cf) req) (\<lambda>(response, err).
     case err of
       Some e \<Rightarrow>
         ret (None, ErrorProto X \<lparr>status_Code = StatusCode X (Some e),
           status_Message = StatusMessage X e @ '' (retrieving cached directory failed with: '' @
             joinedErrors X allCachingErrors @ '')''\<rparr>)
     | None \<Rightarrow>
     bindM (deref response) (\<lambda>rsp.
       let assetRef = NewAssetReference [ResponseUri rsp]
             (removeVolatileQualifiers (ResponseQualifiers rsp))
       in bindM (NewDirectoryAsset X (ResponseDigest rsp) (Some (getDefaultTimestamp X))) (\<lambda>assetData.
       bindM (Put (cacheStore cf) assetRef assetData digestFunction) (\<lambda>r.
       case r of
         Inl err \<Rightarrow> ret (response, Some err)
       | Inr _ \<Rightarrow>
         if length (Uris req) > 1 then
           let assetRef = NewAssetReference (Uris req) (RefQualifiers assetRef)
           in bindM (Put (cacheStore cf) assetRef assetData digestFunction) (\<lambda>r.
              case r of
                Inl err \<Rightarrow> ret (response, Some err)
              | Inr _ \<Rightarrow> ret (response, None))
         else ret (response, None))))))))"

definition cachingFetcher_CheckQualifiers :: "('f, 'w) cachingFetcher \<Rightarrow> Set \<Rightarrow> Set" where
  "cachingFetcher_CheckQualifiers cf qualifiers = CheckQualifiers (cachedFetcher cf) qualifiers"

definition NewCachingFetcher ::
  "('i, 'f, 'd, 'b, 'w) ext \<Rightarrow> 'w Fetcher \<Rightarrow> ('f, 'w) AssetStore \<Rightarrow> 'w Fetcher" where
  "NewCachingFetcher X f st =
    (let cf = \<lparr>cachedFetcher = f, cacheStore = st\<rparr>
     in \<lparr>FetchBlob = cachingFetcher_FetchBlob X cf,
         FetchDirectory = cachingFetcher_FetchDirectory X cf,
         CheckQualifiers = cachingFetcher_CheckQualifiers cf\<rparr>)"

subsection \<open>Volatile qualifiers\<close>

definition volatile :: "Qualifier \<Rightarrow> bool" where
  "volatile q \<longleftrightarrow> HasPrefix (Name q) ''http_header_url:'' \<or> Name q = ''bazel.auth_headers''"

lemma removeVolatileQualifiers_filter [simp]:
  "removeVolatileQualifiers qs = filter (\<lambda>q. \<not> volatile q) qs"
proof -
  have "foldl (\<lambda>acc q. if HasPrefix (Name q) ''http_header_url:'' then acc
      else if Name q = ''bazel.auth_headers'' then acc else acc @ [q]) acc qs =
    acc @ filter (\<lambda>q. \<not> volatile q) qs" for acc
    by (induction qs arbitrary: acc) (auto simp: volatile_def)
  then show ?thesis by (simp add: removeVolatileQualifiers_def)
qed

text \<open>The reference a URI is looked up under.\<close>

definition cache_ref :: "Qualifier list \<Rightarrow> string \<Rightarrow> AssetReference" where
  "cache_ref qs uri = NewAssetReference [uri] (removeVolatileQualifiers qs)"

subsection \<open>Which assets may be served\<close>

definition expired :: "('i, 'f, 'd, 'b, 'w) ext \<Rightarrow> Asset \<Rightarrow> time \<Rightarrow> bool" where
  "expired X a now \<longleftrightarrow>
     (case ExpireAt a of
        None \<Rightarrow> False
      | Some ts \<Rightarrow> instant (AsTime X (Some ts)) < instant now \<and> instant (AsTime X (Some ts)) \<noteq> 0)"

definition too_old :: "('i, 'f, 'd, 'b, 'w) ext \<Rightarrow> time \<Rightarrow> Asset \<Rightarrow> bool" where
  "too_old X oldest a \<longleftrightarrow>
     oldest \<noteq> Unix_0_0 \<and> instant (AsTime X (LastUpdated a)) < instant oldest"

text \<open>Assets that do not expire, whatever the clock says.\<close>

definition everlasting :: "('i, 'f, 'd, 'b, 'w) ext \<Rightarrow> Asset \<Rightarrow> bool" where
  "everlasting X a \<longleftrightarrow> (\<forall>now. \<not> expired X a now)"

lemma everlasting_None: "ExpireAt a = None \<Longrightarrow> everlasting X a"
  by (simp add: everlasting_def expired_def)

lemma everlasting_default:
  "timestamps_ok X \<Longrightarrow> ExpireAt a = Some (getDefaultTimestamp X) \<Longrightarrow> everlasting X a"
  by (simp add: everlasting_def expired_def getDefaultTimestamp_def)

lemma expired_after:
  "ExpireAt a = Some ts \<Longrightarrow> instant (AsTime X (Some ts)) \<noteq> 0 \<Longrightarrow> clock_after X t \<Longrightarrow>
     instant (AsTime X (Some ts)) < t \<Longrightarrow> expired X a (fst (TimeNow X w))"
  unfolding expired_def clock_after_def by (simp, meson less_le_trans)

lemma getAndCheckAsset_run:
  "getAndCheckAsset X st uri qs df oldest w =
     (case Get st (NewAssetReference [uri] qs) df w of
        (Done (Inr a), w1) \<Rightarrow>
          (Done (case ExpireAt a of
             Some ts \<Rightarrow>
               if expired X a (fst (TimeNow X w1))
               then Inl (PlainError (''Asset expired at '' @ TimeText X (AsTime X (Some ts))))
               else if too_old X oldest a
               then Inl (PlainError (''Asset older than '' @ TimeText X oldest)) else Inr a
           | None \<Rightarrow>
               if too_old X oldest a
               then Inl (PlainError (''Asset older than '' @ TimeText X oldest)) else Inr a),
           if ExpireAt a = None then w1 else snd (TimeNow X w1))
      | (Done (Inl e), w1) \<Rightarrow> (Done (Inl e), w1)
      | (Panic p, w1) \<Rightarrow> (Panic p, w1)
      | (Unfinished, w1) \<Rightarrow> (Unfinished, w1))"
proof -
  obtain r w1 where get: "Get st (NewAssetReference [uri] qs) df w = (r, w1)" by fastforce
  show ?thesis
  proof (cases r)
    case (Done x)
    with get show ?thesis
      by (cases x; cases "ExpireAt (projr x)")
         (auto simp: getAndCheckAsset_def Let_def tryM_steps tryM_bindM too_old_def expired_def
           Before_def TimeEqual_def)
  qed (use get in \<open>simp_all add: getAndCheckAsset_def Let_def tryM_steps\<close>)
qed

lemma getAndCheckAsset_Inr:
  "getAndCheckAsset X st uri qs df oldest w = (Done (Inr a), w') \<longleftrightarrow>
     (\<exists>w1. Get st (NewAssetReference [uri] qs) df w = (Done (Inr a), w1) \<and> \<not> too_old X oldest a \<and>
       (case ExpireAt a of
          None \<Rightarrow> w' = w1
        | Some ts \<Rightarrow> \<not> expired X a (fst (TimeNow X w1)) \<and> w' = snd (TimeNow X w1)))"
  by (auto simp: getAndCheckAsset_run split: prod.splits run.splits sum.splits option.splits if_splits)

lemma getAndCheckAsset_world:
  assumes "getAndCheckAsset X st uri qs df oldest w = (r, w')"
  obtains r1 w1 where "Get st (NewAssetReference [uri] qs) df w = (r1, w1)"
    "w' = w1 \<or> w' = snd (TimeNow X w1)"
  using assms by (auto simp: getAndCheckAsset_run split: prod.splits run.splits sum.splits if_splits)

lemma panic_free_getAndCheckAsset:
  "panic_free (Get st (NewAssetReference [uri] qs) df) \<Longrightarrow>
     panic_free (getAndCheckAsset X st uri qs df oldest)"
  unfolding panic_free_def
  by (auto simp: getAndCheckAsset_run split: prod.split run.split sum.split)
     (metis Pair_inject run.distinct)+

subsection \<open>The common part of both handlers\<close>

definition cached_response :: "bool \<Rightarrow> FetchRequest \<Rightarrow> string \<Rightarrow> Asset \<Rightarrow> FetchResponse" where
  "cached_response d req uri a =
     \<lparr>ResponseStatus = Some \<lparr>status_Code = code_OK,
        status_Message = (if d then ''Directory'' else ''Blob'') @ '' fetched successfully from asset cache''\<rparr>,
      ResponseUri = uri, ResponseQualifiers = Qualifiers req, ResponseDigest = AssetDigest a\<rparr>"

definition oldest_accepted ::
  "('i, 'f, 'd, 'b, 'w) ext \<Rightarrow> bool \<Rightarrow> FetchRequest \<Rightarrow> error + time" where
  "oldest_accepted X d req =
     (case OldestContentAccepted req of
        None \<Rightarrow> Inr Unix_0_0
      | Some ts \<Rightarrow>
          (case CheckValid X ts of
             Some err \<Rightarrow> if d then Inr (AsTime X (Some ts)) else Inl err
           | None \<Rightarrow> Inr (AsTime X (Some ts))))"

text \<open>Storing a response under one reference after another.\<close>

definition cache_refs :: "FetchRequest \<Rightarrow> FetchResponse \<Rightarrow> AssetReference list" where
  "cache_refs req rsp =
     cache_ref (ResponseQualifiers rsp) (ResponseUri rsp) #
     (if length (Uris req) > 1
      then [NewAssetReference (Uris req) (removeVolatileQualifiers (ResponseQualifiers rsp))] else [])"

definition store_response ::
  "('i, 'f, 'd, 'b, 'w) ext \<Rightarrow> ('f, 'w) AssetStore \<Rightarrow> bool \<Rightarrow> 'f \<Rightarrow> FetchRequest \<Rightarrow> FetchResponse \<Rightarrow>
     ('w, error + unit) comp" where
  "store_response X st d df req rsp =
     bindM (NewAsset X (ResponseDigest rsp) (if d then DIRECTORY else BLOB)
       (Some (getDefaultTimestamp X))) (\<lambda>a.
     forM (cache_refs req rsp) (\<lambda>ref. Put st ref a df))"

definition after_fetch ::
  "('i, 'f, 'd, 'b, 'w) ext \<Rightarrow> ('f, 'w) AssetStore \<Rightarrow> bool \<Rightarrow> 'f \<Rightarrow> FetchRequest \<Rightarrow> error list \<Rightarrow>
     FetchResponse reply \<Rightarrow> ('w, FetchResponse reply) comp" where
  "after_fetch X st d df req errs = (\<lambda>(response, err).
     case err of
       Some e \<Rightarrow> ret (None, ErrorProto X \<lparr>status_Code = StatusCode X (Some e),
         status_Message = StatusMessage X e @ (if d then '' (retrieving cached directory failed with: ''
           else '' (retrieving cached blob failed with: '') @ joinedErrors X errs @ '')''\<rparr>)
     | None \<Rightarrow>
     bindM (deref response) (\<lambda>rsp.
     bindM (if d then ret code_OK else bindM (deref (ResponseStatus rsp)) (\<lambda>st. ret (status_Code st))) (\<lambda>code.
     if code \<noteq> code_OK then ret (response, None)
     else bindM (store_response X st d df req rsp) (\<lambda>r. case r of
            Inl err \<Rightarrow> ret (response, Some err)
          | Inr _ \<Rightarrow> ret (response, None)))))"

definition caching_with ::
  "('i, 'f, 'd, 'b, 'w) ext \<Rightarrow> ('f, 'w) AssetStore \<Rightarrow> bool \<Rightarrow> FetchRequest \<Rightarrow>
     ('w, FetchResponse reply) comp \<Rightarrow> ('w, FetchResponse reply) comp" where
  "caching_with X st d req backend =
    (case getDigestFunction X (DigestFunction req) (InstanceName req) of
       Inl err \<Rightarrow> ret (None, Some err)
     | Inr df \<Rightarrow>
    (case oldest_accepted X d req of
       Inl err \<Rightarrow> ret (None, Some err)
     | Inr oldest \<Rightarrow>
     bindM (checkCache X st (Qualifiers req) df oldest (Uris req) []) (\<lambda>r.
     case r of
       Inr (uri, a) \<Rightarrow> ret (Some (cached_response d req uri a), None)
     | Inl errs \<Rightarrow> bindM backend (after_fetch X st d df req errs))))"

lemma store_response_eq:
  "bindM (store_response X st d df req rsp) k =
     bindM (NewAsset X (ResponseDigest rsp) (if d then DIRECTORY else BLOB)
       (Some (getDefaultTimestamp X))) (\<lambda>a.
     bindM (Put st (cache_ref (ResponseQualifiers rsp) (ResponseUri rsp)) a df) (\<lambda>r.
     case r of
       Inl e \<Rightarrow> k (Inl e)
     | Inr _ \<Rightarrow>
         if length (Uris req) > 1 then
           bindM (Put st (NewAssetReference (Uris req)
             (removeVolatileQualifiers (ResponseQualifiers rsp))) a df) k
         else k (Inr ())))"
  by (auto simp: store_response_def cache_refs_def tryM_def bindM_assoc fun_eq_iff bindM_def
        split: run.split sum.split prod.split)

lemma FetchBlob_caching:
  "FetchBlob (NewCachingFetcher X f st) req = caching_with X st False req (FetchBlob f req)"
  by (auto simp: NewCachingFetcher_def cachingFetcher_FetchBlob_def caching_with_def
        oldest_accepted_def cached_response_def after_fetch_def store_response_eq cache_ref_def
        NewBlobAsset_def bindM_assoc Let_def
        cong: bindM_cong sum.case_cong option.case_cong prod.case_cong if_cong
        split: sum.split option.split)

lemma FetchDirectory_caching:
  "FetchDirectory (NewCachingFetcher X f st) req =
     caching_with X st True req (FetchDirectory f req)"
  by (auto simp: NewCachingFetcher_def cachingFetcher_FetchDirectory_def caching_with_def
        oldest_accepted_def cached_response_def after_fetch_def store_response_eq cache_ref_def
        NewDirectoryAsset_def bindM_assoc Let_def
        cong: bindM_cong sum.case_cong option.case_cong prod.case_cong if_cong
        split: sum.split option.split)

subsection \<open>The contract over an asset store\<close>

lemma reply_fst:
  "bindM m (\<lambda>r. case r of Inl err \<Rightarrow> ret (response, Some err) | Inr _ \<Rightarrow> ret (response, None)) w =
     (Done (x, err), w') \<Longrightarrow> x = response"
  by (auto simp: bindM_def split: run.splits prod.splits sum.splits)

lemma caching_with_cases:
  assumes "caching_with X st d req backend w = (Done (Some rsp, err), w')"
  obtains (hit) df oldest uri a where "err = None"
      "getDigestFunction X (DigestFunction req) (InstanceName req) = Inr df"
      "oldest_accepted X d req = Inr oldest"
      "checkCache X st (Qualifiers req) df oldest (Uris req) [] w = (Done (Inr (uri, a)), w')"
      "rsp = cached_response d req uri a"
    | (fetched) df oldest errs w1 w2 where
      "getDigestFunction X (DigestFunction req) (InstanceName req) = Inr df"
      "oldest_accepted X d req = Inr oldest"
      "checkCache X st (Qualifiers req) df oldest (Uris req) [] w = (Done (Inl errs), w1)"
      "backend w1 = (Done (Some rsp, None), w2)"
      "after_fetch X st d df req errs (Some rsp, None) w2 = (Done (Some rsp, err), w')"
proof -
  have after: "after_fetch X st d df req errs p w2 = (Done (Some rsp, err), w') \<Longrightarrow>
      p = (Some rsp, None)" for df errs p w2
    by (cases p) (auto simp: after_fetch_def deref_def dest: reply_fst split: option.splits if_splits)
  from assms obtain df oldest
    where df: "getDigestFunction X (DigestFunction req) (InstanceName req) = Inr df"
      and oldest: "oldest_accepted X d req = Inr oldest"
    by (auto simp: caching_with_def split: sum.splits)
  from assms df oldest obtain r w1
    where check: "checkCache X st (Qualifiers req) df oldest (Uris req) [] w = (Done r, w1)"
      and rest: "(case r of
          Inr (uri, a) \<Rightarrow> ret (Some (cached_response d req uri a), None)
        | Inl errs \<Rightarrow> bindM backend (after_fetch X st d df req errs)) w1 = (Done (Some rsp, err), w')"
    by (auto simp: caching_with_def bindM_Done_iff)
  show thesis
  proof (cases r)
    case (Inl errs)
    with rest obtain p w2 where "backend w1 = (Done p, w2)"
      "after_fetch X st d df req errs p w2 = (Done (Some rsp, err), w')"
      by (auto simp: bindM_Done_iff)
    with after fetched [OF df oldest] check Inl show thesis by metis
  next
    case (Inr ua)
    with rest check show thesis by (cases ua) (auto intro: hit [OF _ df oldest])
  qed
qed

context asset_store
begin

lemma getAndCheckAsset_frame:
  assumes "ok c" "clock_keeps X (view c)"
  shows "preserves (\<lambda>w. view c w = v) (getAndCheckAsset X (store c) uri qs df oldest)"
proof (rule preservesI)
  fix w r w'
  assume v: "view c w = v" and run: "getAndCheckAsset X (store c) uri qs df oldest w = (r, w')"
  from run obtain r1 w1 where "Get (store c) (NewAssetReference [uri] qs) df w = (r1, w1)"
    and "w' = w1 \<or> w' = snd (TimeNow X w1)" by (rule getAndCheckAsset_world)
  with v assms show "view c w' = v" by (metis Get_frame clock_keeps_def)
qed

lemma checkCache_frame:
  assumes "ok c" "clock_keeps X (view c)"
  shows "preserves (\<lambda>w. view c w = v) (checkCache X (store c) qs df oldest us errs)"
proof (induction us arbitrary: errs)
  case (Cons u us)
  then show ?case
    unfolding checkCache.simps
    by (intro preserves_bindM getAndCheckAsset_frame assms) (auto intro: preserves_ret split: sum.split)
qed (simp add: preserves_ret)

lemma checkCache_world:
  "ok c \<Longrightarrow> clock_keeps X (view c) \<Longrightarrow>
     checkCache X (store c) qs df oldest us errs w = (r, w') \<Longrightarrow> view c w' = view c w"
  using preservesD [OF checkCache_frame] by metis

text \<open>What answers a request from the cache was stored under one of its URIs, has not expired
  and is not too old.\<close>

lemma checkCache_sound:
  assumes "ok c" "clock_keeps X (view c)"
    and "checkCache X (store c) qs df oldest us errs w = (Done (Inr (u, a)), w')"
  shows "u \<in> set us" "view c w df (cache_ref qs u) = Some a" "\<not> too_old X oldest a"
    "\<exists>w1. \<not> expired X a (fst (TimeNow X w1))"
proof -
  have "u \<in> set us \<and> view c w df (cache_ref qs u) = Some a \<and> \<not> too_old X oldest a \<and>
      (\<exists>w1. \<not> expired X a (fst (TimeNow X w1)))"
    using assms(3)
  proof (induction us arbitrary: errs w)
    case (Cons v us)
    from Cons.prems obtain r w1
      where get: "getAndCheckAsset X (store c) v (removeVolatileQualifiers qs) df oldest w = (Done r, w1)"
        and rest: "(case r of Inl err \<Rightarrow> checkCache X (store c) qs df oldest us (errs @ [err])
          | Inr a \<Rightarrow> ret (Inr (v, a))) w1 = (Done (Inr (u, a)), w')"
      by (auto simp: bindM_Done_iff)
    show ?case
    proof (cases r)
      case (Inl e)
      with rest Cons.IH have "u \<in> set us \<and> view c w1 df (cache_ref qs u) = Some a \<and>
          \<not> too_old X oldest a \<and> (\<exists>w1. \<not> expired X a (fst (TimeNow X w1)))" by simp
      moreover have "view c w1 = view c w"
        using preservesD [OF getAndCheckAsset_frame [OF assms(1,2)] get] by blast
      ultimately show ?thesis by simp
    next
      case (Inr b)
      with rest have "b = a" "v = u" by auto
      with get Inr show ?thesis
        by (auto simp: getAndCheckAsset_Inr cache_ref_def expired_def
            dest!: Get_sound [OF assms(1)] split: option.splits)
    qed
  qed simp
  then show "u \<in> set us" "view c w df (cache_ref qs u) = Some a" "\<not> too_old X oldest a"
    "\<exists>w1. \<not> expired X a (fst (TimeNow X w1))" by auto
qed

text \<open>An asset that does not expire and is new enough is found.\<close>

lemma getAndCheckAsset_hit:
  assumes "ok c" "admits c df w" "view c w df (NewAssetReference [uri] qs) = Some a"
    and "everlasting X a" "\<not> too_old X oldest a"
  shows "\<exists>w'. getAndCheckAsset X (store c) uri qs df oldest w = (Done (Inr a), w')"
proof -
  obtain w1 where "Get (store c) (NewAssetReference [uri] qs) df w = (Done (Inr a), w1)"
    using Get_hit [OF assms(1-3)] by blast
  with assms(4,5) show ?thesis
    by (auto simp: getAndCheckAsset_run everlasting_def split: option.split)
qed

lemma checkCache_hit:
  assumes "ok c" "admits c df w" "view c w df (cache_ref qs u) = Some a"
    and "everlasting X a" "\<not> too_old X oldest a"
  shows "\<exists>w'. checkCache X (store c) qs df oldest (u # us) errs w = (Done (Inr (u, a)), w')"
  using getAndCheckAsset_hit [OF assms(1,2) assms(3) [unfolded cache_ref_def] assms(4,5)]
  by (auto simp: bindM_Done)

lemma caching_hit:
  assumes "ok c" "admits c df w" "view c w df (cache_ref (Qualifiers req) u) = Some a"
    and "everlasting X a" "\<not> too_old X oldest a"
    and "getDigestFunction X (DigestFunction req) (InstanceName req) = Inr df"
    and "oldest_accepted X d req = Inr oldest" "Uris req = u # us"
  shows "\<exists>w'. caching_with X (store c) d req backend w = (Done (Some (cached_response d req u a), None), w')"
  using checkCache_hit [OF assms(1-5), of us "[]"] assms(6-8)
  by (auto simp: caching_with_def bindM_Done simp del: checkCache.simps)

text \<open>Everything a successful fetch stores, it stores under each of its references.\<close>

lemma store_response_stores:
  assumes "ok c" "\<And>a. ExpireAt a = Some (getDefaultTimestamp X) \<Longrightarrow> AssetDigest a = ResponseDigest rsp \<Longrightarrow>
      AssetTypeOf a = (if d then DIRECTORY else BLOB) \<Longrightarrow> fits c a"
    and "store_response X (store c) d df req rsp w = (Done (Inr u), w')"
    and "ref \<in> set (cache_refs req rsp)"
  shows "\<exists>a. view c w' df ref = Some (image c a) \<and> AssetDigest a = ResponseDigest rsp \<and>
     ExpireAt a = Some (getDefaultTimestamp X) \<and> AssetTypeOf a = (if d then DIRECTORY else BLOB) \<and>
     LastUpdated a = Some (TimestampNew X (fst (TimeNow X w)))"
proof -
  obtain a w1 where new: "NewAsset X (ResponseDigest rsp) (if d then DIRECTORY else BLOB)
        (Some (getDefaultTimestamp X)) w = (Done a, w1)"
    and puts: "forM (cache_refs req rsp) (\<lambda>ref. Put (store c) ref a df) w1 = (Done (Inr u), w')"
    using assms(3) unfolding store_response_def bindM_Done_iff by blast
  from NewAsset_Done [OF new] have a: "AssetDigest a = ResponseDigest rsp"
    "ExpireAt a = Some (getDefaultTimestamp X)" "AssetTypeOf a = (if d then DIRECTORY else BLOB)"
    "LastUpdated a = Some (TimestampNew X (fst (TimeNow X w)))" by auto
  with assms(2) have "fits c a" by blast
  have "view c w' df ref = Some (image c a)"
  proof (rule forM_establishes [OF puts, where Q = "\<lambda>ref w. view c w df ref = Some (image c a)"])
    show "\<And>x w1 w2. Put (store c) x a df w1 = (Done (Inr ()), w2) \<Longrightarrow> view c w2 df x = Some (image c a)"
      using Put_stores [OF assms(1) \<open>fits c a\<close>] by blast
    show "\<And>x y w1 w2. Put (store c) x a df w1 = (Done (Inr ()), w2) \<Longrightarrow>
        view c w1 df y = Some (image c a) \<Longrightarrow> view c w2 df y = Some (image c a)"
      using Put_frame [OF assms(1) \<open>fits c a\<close>] by metis
  qed (use assms(4) in auto)
  with a show ?thesis by blast
qed

end

context asset_store
begin

text \<open>A response that did not come from the cache is in it afterwards; a blob's only if its
  status is OK, a directory's whatever its status.\<close>

lemma fetched_is_stored:
  assumes "ok c" "clock_keeps X (view c)"
    and fits: "\<And>a. ExpireAt a = Some (getDefaultTimestamp X) \<Longrightarrow> AssetDigest a = ResponseDigest rsp \<Longrightarrow>
      AssetTypeOf a = (if d then DIRECTORY else BLOB) \<Longrightarrow> fits c a"
    and df: "getDigestFunction X (DigestFunction req) (InstanceName req) = Inr df"
    and miss: "\<And>u. u \<in> set (Uris req) \<Longrightarrow> view c w df (cache_ref (Qualifiers req) u) = None"
    and run: "caching_with X (store c) d req backend w = (Done (Some rsp, None), w')"
    and status: "d \<or> ResponseStatus rsp = Some st \<and> status_Code st = code_OK"
    and ref: "ref \<in> set (cache_refs req rsp)"
  shows "\<exists>a. view c w' df ref = Some (image c a) \<and> AssetDigest a = ResponseDigest rsp \<and>
     ExpireAt a = Some (getDefaultTimestamp X) \<and> AssetTypeOf a = (if d then DIRECTORY else BLOB)"
  using run
proof (cases rule: caching_with_cases)
  case (hit df' oldest u a)
  with df checkCache_sound [OF assms(1,2) hit(4)] miss show ?thesis by simp
next
  case (fetched df' oldest errs w1 w2)
  with df status obtain u where "store_response X (store c) d df req rsp w2 = (Done (Inr u), w')"
    by (auto simp: after_fetch_def elim!: bindM_DoneE split: sum.split_asm if_split_asm)
  from store_response_stores [OF assms(1) fits this ref] show ?thesis by blast
qed

end

context total_asset_store
begin

text \<open>Where a total store holds nothing under any URI, the loop collects one error for each
  and the backend is asked.\<close>

lemma checkCache_miss:
  assumes "ok c" "\<And>w. admits c df w"
  shows "\<forall>u\<in>set us. view c w df (cache_ref qs u) = None \<Longrightarrow>
    \<exists>es w'. checkCache X (store c) qs df oldest us errs w = (Done (Inl (errs @ es)), w') \<and>
      view c w' = view c w \<and> length es = length us"
proof (induction us arbitrary: errs w)
  case (Cons u us)
  let ?ref = "NewAssetReference [u] (removeVolatileQualifiers qs)"
  have none: "view c w df ?ref = None" using Cons.prems by (simp add: cache_ref_def)
  obtain e w1 where get: "Get (store c) ?ref df w = (Done (Inl e), w1)"
    using Get_decides [OF assms, of ?ref w] none by (metis option.distinct(1))
  then have "view c w1 = view c w" by (rule Get_frame [OF assms(1)])
  moreover from get have "getAndCheckAsset X (store c) u (removeVolatileQualifiers qs) df oldest w = (Done (Inl e), w1)"
    by (simp add: getAndCheckAsset_run)
  ultimately show ?case
    using Cons.IH [of w1 "errs @ [e]"] Cons.prems by (auto simp: bindM_Done)
qed simp

end

end
