(* ===== verification/QualifierTranslator.thy ===== *)
theory QualifierTranslator
  imports GoStrings Messages
begin

section \<open>From qualifiers to a command (pkg/qualifier/qualifier_translator.go)\<close>

text \<open>
  \<open>QualifiersToCommand\<close> returns a command generator or an error. The generator is a
  function of the URI; generating may panic, because \<open>parseChecksum\<close> reads the part
  after the first dash whether there is one or not.
\<close>

definition makeMap :: "Qualifier list \<Rightarrow> (string \<rightharpoonup> string)" where
  "makeMap qualifiers = foldl (\<lambda>qual q. qual(Name q \<mapsto> Value q)) Map.empty qualifiers"

definition parseChecksum :: "string \<Rightarrow> (string \<times> string) run" where
  "parseChecksum c =
     (case Split c CHR ''-'' of
        part0 # part1 # _ \<Rightarrow> Done (part0, part1)
      | _ \<Rightarrow> Panic IndexOutOfRange)"

definition gitScript :: "(string \<rightharpoonup> string) \<Rightarrow> string \<Rightarrow> string" where
  "gitScript qualifiers url =
    (let script = ''git clone '' @ url @ '' out'';
         script = (case qualifiers ''vcs.branch'' of
            Some branch \<Rightarrow> script @ '' --single-branch --branch '' @ branch
          | None \<Rightarrow> script);
         script = (case qualifiers ''vcs.commit'' of
            Some commit \<Rightarrow> script @ '' && git -C out checkout '' @ commit
          | None \<Rightarrow> script)
     in script)"

definition shellCommand :: "string \<Rightarrow> Command" where
  "shellCommand script = \<lparr>Arguments = [''sh'', ''-c'', script], OutputPaths = [''out''],
     DirectoryFormat = TREE_AND_DIRECTORY, CommandPlatform = None\<rparr>"

definition gitCommand :: "(string \<rightharpoonup> string) \<Rightarrow> string \<Rightarrow> Command run" where
  "gitCommand qualifiers url = Done (shellCommand (gitScript qualifiers url))"

definition octetStreamCommand :: "(string \<rightharpoonup> string) \<Rightarrow> string \<Rightarrow> Command run" where
  "octetStreamCommand qualifiers url =
    (let script = ''wget -O out '' @ url;
         script = (case qualifiers ''auth.basic.username'' of
            Some username \<Rightarrow> script @ '' --http-user='' @ username
          | None \<Rightarrow> script);
         script = (case qualifiers ''auth.basic.password'' of
            Some password \<Rightarrow> script @ '' --http-password='' @ password
          | None \<Rightarrow> script)
     in case qualifiers ''checksum.sri'' of
          None \<Rightarrow> Done (shellCommand script)
        | Some checksum \<Rightarrow>
            (case parseChecksum checksum of
               Done (protocol, base64) \<Rightarrow>
                 Done (shellCommand (script @ '' && openssl dgst -'' @ protocol @
                   '' -binary out | openssl base64 -A | grep '' @ base64))
             | Panic p \<Rightarrow> Panic p
             | Unfinished \<Rightarrow> Unfinished))"

definition QualifiersToCommand :: "Qualifier list \<Rightarrow> error + (string \<Rightarrow> Command run)" where
  "QualifiersToCommand qArr =
    (let qualifiers = makeMap qArr
     in case qualifiers ''resource_type'' of
          None \<Rightarrow> Inl (PlainError ''missing resource_type'')
        | Some resourceType \<Rightarrow>
            (if resourceType = ''application/x-git'' then Inr (gitCommand qualifiers)
             else if resourceType = ''application/octet-stream'' then
               Inr (octetStreamCommand qualifiers)
             else Inl (PlainError ''unhandled resource_type'')))"

subsection \<open>The qualifier map: the last value of a name wins\<close>

lemma makeMap_Nil [simp]: "makeMap [] = Map.empty"
  by (simp add: makeMap_def)

lemma makeMap_snoc [simp]: "makeMap (qs @ [q]) = (makeMap qs)(Name q \<mapsto> Value q)"
  by (simp add: makeMap_def)

lemma dom_makeMap [simp]: "dom (makeMap qs) = Name ` set qs"
  by (induction qs rule: rev_induct) (simp_all del: fun_upd_apply)

lemma makeMap_Some_in: "makeMap qs n = Some v \<Longrightarrow> Qualifier n v \<in> set qs"
  by (induction qs rule: rev_induct) (auto split: if_splits)

lemma makeMap_last:
  "makeMap qs n = map_option Value (find (\<lambda>q. Name q = n) (rev qs))"
  by (induction qs rule: rev_induct) auto

text \<open>When no name occurs twice the order of the qualifiers does not matter.\<close>

lemma makeMap_Some_iff:
  "distinct (map Name qs) \<Longrightarrow> makeMap qs n = Some v \<longleftrightarrow> Qualifier n v \<in> set qs"
proof (induction qs rule: rev_induct)
  case (snoc q qs)
  then show ?case
    by (cases q) (force simp: image_iff)
qed simp

lemma makeMap_mset:
  assumes "distinct (map Name qs)" and "mset qs = mset qs'"
  shows "makeMap qs = makeMap qs'"
proof
  fix n
  have "distinct (map Name qs')"
    using assms by (metis mset_map distinct_count_atmost_1 mset_eq_setD set_map)
  moreover have "set qs = set qs'" using assms(2) by (rule mset_eq_setD)
  ultimately show "makeMap qs n = makeMap qs' n"
    using makeMap_Some_iff [OF assms(1), of n] makeMap_Some_iff [of qs' n]
    by (cases "makeMap qs n") (metis not_None_eq, metis)
qed

subsection \<open>Commands\<close>

lemma parseChecksum_Done:
  "parseChecksum c = Done (p, b) \<longleftrightarrow> (\<exists>rest. Split c CHR ''-'' = p # b # rest)"
  by (auto simp: parseChecksum_def split: list.splits)

lemma parseChecksum_panics_iff: "parseChecksum c = Panic IndexOutOfRange \<longleftrightarrow> CHR ''-'' \<notin> set c"
proof -
  have "length (Split c CHR ''-'') = Suc (count_list c CHR ''-'')" by (rule length_Split)
  moreover have "count_list c CHR ''-'' = 0 \<longleftrightarrow> CHR ''-'' \<notin> set c"
    by (rule count_list_0_iff)
  ultimately show ?thesis
    by (cases "Split c CHR ''-''"; cases "tl (Split c CHR ''-'')")
       (auto simp: parseChecksum_def)
qed

lemma parseChecksum_cases:
  obtains (panics) "CHR ''-'' \<notin> set c" "parseChecksum c = Panic IndexOutOfRange"
    | (parts) p b where "CHR ''-'' \<in> set c" "parseChecksum c = Done (p, b)"
proof (cases "CHR ''-'' \<in> set c")
  case True
  then have "parseChecksum c \<noteq> Panic IndexOutOfRange" by (simp add: parseChecksum_panics_iff)
  then have "\<exists>p b. parseChecksum c = Done (p, b)"
    by (auto simp: parseChecksum_def split: list.splits)
  with True parts show thesis by blast
qed (use panics in \<open>simp add: parseChecksum_panics_iff\<close>)

lemma octetStreamCommand_cases:
  obtains (panics) c where "m ''checksum.sri'' = Some c" "CHR ''-'' \<notin> set c"
      "octetStreamCommand m uri = Panic IndexOutOfRange"
    | (command) script where "\<And>c. m ''checksum.sri'' = Some c \<Longrightarrow> CHR ''-'' \<in> set c"
      "octetStreamCommand m uri = Done (shellCommand script)"
proof (cases "m ''checksum.sri''")
  case None
  then show thesis using that(2) by (auto simp: octetStreamCommand_def Let_def)
next
  case (Some c)
  show thesis
  proof (cases c rule: parseChecksum_cases)
    case panics
    with Some show thesis using that(1) by (auto simp: octetStreamCommand_def Let_def)
  next
    case (parts p b)
    with Some show thesis using that(2) by (auto simp: octetStreamCommand_def Let_def)
  qed
qed

lemma parseChecksum_not_Unfinished [simp]: "parseChecksum c \<noteq> Unfinished"
  by (auto simp: parseChecksum_def split: list.splits)

lemma shellCommand_fields [simp]:
  "OutputPaths (shellCommand s) = [''out'']"
  "CommandPlatform (shellCommand s) = None"
  "Arguments (shellCommand s) = [''sh'', ''-c'', s]"
  "DirectoryFormat (shellCommand s) = TREE_AND_DIRECTORY"
  by (simp_all add: shellCommand_def)

lemma QualifiersToCommand_Inr:
  "QualifiersToCommand qs = Inr gen \<longleftrightarrow>
     (makeMap qs ''resource_type'' = Some ''application/x-git'' \<and> gen = gitCommand (makeMap qs)) \<or>
     (makeMap qs ''resource_type'' = Some ''application/octet-stream'' \<and>
      gen = octetStreamCommand (makeMap qs))"
  by (auto simp: QualifiersToCommand_def Let_def split: option.splits)

lemma generated_command:
  assumes "QualifiersToCommand qs = Inr gen" and "gen uri = Done cmd"
  shows "OutputPaths cmd = [''out'']" "CommandPlatform cmd = None"
    "\<exists>script. Arguments cmd = [''sh'', ''-c'', script]"
  using assms
  by (auto simp: QualifiersToCommand_Inr gitCommand_def octetStreamCommand_def Let_def
        split: option.splits run.splits)

end
