(* ===== verification/ActionCacheAssetStore.thy ===== *)
theory ActionCacheAssetStore
  imports AuthorizingAssetStore QualifierTranslator
begin

section \<open>Assets in an action cache (pkg/storage/action_cache_asset_store.go)\<close>

text \<open>
  A reference becomes an \<open>Action\<close>, an asset an \<open>ActionResult\<close>; the result is stored
  in the action cache under the digest of the action, after everything the action and the
  result refer to has been stored in the content addressable storage. A directory asset is
  converted to a \<open>Tree\<close> by following its subdirectories; that recursion carries fuel
  (\<^const>\<open>Unfinished\<close> when it runs out), and the section on directories proves how much
  is enough.
\<close>

record ('d, 'b, 'w) actionCacheAssetStore =
  actionCache :: "('d, 'b, 'w) BlobAccess"
  contentAddressableStorage :: "('d, 'b, 'w) BlobAccess"
  maximumMessageSize :: int
  platform :: "Platform option"

definition assetReferenceToAction ::
  "('i, 'f, 'd, 'b, 'w) ext \<Rightarrow> ('d, 'b, 'w) actionCacheAssetStore \<Rightarrow> AssetReference \<Rightarrow> 'f \<Rightarrow>
     (error + (Action \<times> message list)) run" where
  "assetReferenceToAction X rs ref digestFunction =
    (let qr = NewAssetReference [] (RefQualifiers ref);
         qualifiers = SortQualifiers (RefQualifiers ref)
     in tryR (Done (ProtoSerialise X (MAssetReference qr) digestFunction)) (\<lambda>(_, qrDigest).
     let objects = [MAssetReference qr];
         directory = \<lparr>Files = [\<lparr>FileName = ''AssetReference'', FileDigest = Some (GetProto X qrDigest)\<rparr>],
           Directories = [], Symlinks = []\<rparr>
     in tryR (Done (ProtoSerialise X (MDirectory directory) digestFunction)) (\<lambda>(_, directoryDigest).
     let objects = objects @ [MDirectory directory];
         commandGenerator = QualifiersToCommand qualifiers
     in if isl commandGenerator \<or> length (RefUris ref) > 1 then
          let command = \<lparr>Arguments = RefUris ref, OutputPaths = [''out''],
                DirectoryFormat = TREE_AND_DIRECTORY, CommandPlatform = platform rs\<rparr>
          in tryR (Done (ProtoSerialise X (MCommand command) digestFunction)) (\<lambda>(_, commandDigest).
             Done (Inr (\<lparr>CommandDigest = GetProto X commandDigest,
               InputRootDigest = GetProto X directoryDigest, ActionPlatform = platform rs\<rparr>,
               objects @ [MCommand command])))
        else
          (case RefUris ref of
             [] \<Rightarrow> Panic IndexOutOfRange
           | uri # _ \<Rightarrow>
               (case projr commandGenerator uri of
                  Panic p \<Rightarrow> Panic p
                | Unfinished \<Rightarrow> Unfinished
                | Done command \<Rightarrow>
                    let command = (if CommandPlatform command = None
                          then command\<lparr>CommandPlatform := platform rs\<rparr> else command)
                    in tryR (Done (ProtoSerialise X (MCommand command) digestFunction)) (\<lambda>(_, commandDigest).
                       Done (Inr (\<lparr>CommandDigest = GetProto X commandDigest,
                         InputRootDigest = GetProto X (EmptyDigest X digestFunction),
                         ActionPlatform = CommandPlatform command\<rparr>,
                         objects @ [MCommand command]))))))))"

text \<open>\<open>for _, node := range nodes { ...; acc = append(acc, children...) }\<close>.\<close>

fun appendChildren ::
  "('n \<Rightarrow> ('w, error + Directory list) comp) \<Rightarrow> 'n list \<Rightarrow> Directory list \<Rightarrow>
     ('w, error + Directory list) comp" where
  "appendChildren f [] acc = ret (Inr acc)"
| "appendChildren f (node # nodes) acc =
     tryM (f node) (\<lambda>children. appendChildren f nodes (acc @ children))"

primrec directoryNodeToDirectories ::
  "('i, 'f, 'd, 'b, 'w) ext \<Rightarrow> ('d, 'b, 'w) actionCacheAssetStore \<Rightarrow> 'f \<Rightarrow> nat \<Rightarrow> DirectoryNode \<Rightarrow>
     ('w, error + Directory list) comp" where
  "directoryNodeToDirectories X rs digestFunction 0 = (\<lambda>node. lift Unfinished)"
| "directoryNodeToDirectories X rs digestFunction (Suc n) = (\<lambda>node.
     tryM (ret (NewDigestFromProto X digestFunction (DirDigest node))) (\<lambda>digest.
     bindM (call (BlobGet (contentAddressableStorage rs) digest)) (\<lambda>buf.
     case ToProto X buf KDirectory (maximumMessageSize rs) of
       Inl err \<Rightarrow> ret (Inl err)
     | Inr (MDirectory directory) \<Rightarrow>
         appendChildren (directoryNodeToDirectories X rs digestFunction n) (Directories directory)
           [directory]
     | Inr _ \<Rightarrow> panicM TypeAssertion)))"

definition directoryToTree ::
  "('i, 'f, 'd, 'b, 'w) ext \<Rightarrow> ('d, 'b, 'w) actionCacheAssetStore \<Rightarrow> nat \<Rightarrow> Directory \<Rightarrow> 'f \<Rightarrow>
     ('w, error + Tree) comp" where
  "directoryToTree X rs n directory digestFunction =
     tryM (appendChildren (directoryNodeToDirectories X rs digestFunction n) (Directories directory) [])
       (\<lambda>children. ret (Inr \<lparr>Root = directory, Children = children\<rparr>))"

fun AssetType_String :: "AssetType \<Rightarrow> string" where
  "AssetType_String BLOB = ''BLOB''"
| "AssetType_String DIRECTORY = ''DIRECTORY''"
| "AssetType_String (OtherType n) = Itoa n"

definition assetToActionResult ::
  "('i, 'f, 'd, 'b, 'w) ext \<Rightarrow> ('d, 'b, 'w) actionCacheAssetStore \<Rightarrow> nat \<Rightarrow> Asset \<Rightarrow> 'f \<Rightarrow>
     ('w, error + ActionResult) comp" where
  "assetToActionResult X rs n data digestFunction =
    (let result = \<lparr>OutputFiles = [], OutputDirectories = [], ExitCode = 0,
           ExecutionMetadata = Some \<lparr>QueuedTimestamp = LastUpdated data\<rparr>\<rparr>
     in if AssetTypeOf data = DIRECTORY then
       tryM (ret (NewDigestFromProto X digestFunction (AssetDigest data))) (\<lambda>digest.
       bindM (call (BlobGet (contentAddressableStorage rs) digest)) (\<lambda>buf.
       case ToProto X buf KDirectory (maximumMessageSize rs) of
         Inl err \<Rightarrow> ret (Inl (StatusWrapf X err ''digest in directory asset does not reference a Directory''))
       | Inr (MDirectory directory) \<Rightarrow>
           bindM (directoryToTree X rs n directory digestFunction) (\<lambda>r.
           case r of
             Inl err \<Rightarrow> ret (Inl (StatusError code_InvalidArgument
               (''Failed to convert directory to tree (one of the subdirs is not in the CAS?): '' @
                ErrorText X err)))
           | Inr tree \<Rightarrow>
               tryM (ret (ProtoSerialise X (MTree tree) digestFunction)) (\<lambda>(treePb, treeDigest).
               checkM (call (BlobPut (contentAddressableStorage rs) treeDigest treePb))
                 (ret (Inr (result\<lparr>OutputDirectories := [\<lparr>OutDirPath = ''out'',
                    TreeDigest = Some (GetProto X treeDigest),
                    RootDirectoryDigest = AssetDigest data\<rparr>]\<rparr>)))))
       | Inr _ \<Rightarrow> panicM TypeAssertion))
     else if AssetTypeOf data = BLOB then
       ret (Inr (result\<lparr>OutputFiles := [\<lparr>OutFilePath = ''out'', OutFileDigest = AssetDigest data\<rparr>]\<rparr>))
     else
       ret (Inl (StatusError code_InvalidArgument
         (''unknown asset Type '' @ AssetType_String (AssetTypeOf data)))))"

definition no_digest :: "Digest option \<Rightarrow> bool" where
  "no_digest digest \<longleftrightarrow> (case digest of None \<Rightarrow> True | Some d \<Rightarrow> Hash d = [])"

definition actionResultToAsset :: "('i, 'f, 'd, 'b, 'w) ext \<Rightarrow> ActionResult \<Rightarrow> (error + Asset) run" where
  "actionResultToAsset X a =
    (let digest = Some \<lparr>Hash = [], SizeBytes = 0\<rparr>;
         assetType = DIRECTORY;
         digest = foldl (\<lambda>digest dir. if OutDirPath dir = ''out'' then RootDirectoryDigest dir else digest)
           digest (OutputDirectories a);
         (assetType, digest) =
           (if no_digest digest then
              (BLOB, foldl (\<lambda>digest file. if OutFilePath file = ''out'' then OutFileDigest file else digest)
                 digest (OutputFiles a))
            else (assetType, digest))
     in if no_digest digest then
          Done (Inl (StatusError code_InvalidArgument
            ''could not find digest (either directory or blob) in ActionResult''))
        else
          (case ExecutionMetadata a of
             None \<Rightarrow> Panic NilPointer
           | Some md \<Rightarrow>
               Done (Inr \<lparr>AssetDigest = digest, ExpireAt = Some (getDefaultTimestamp X),
                 LastUpdated = QueuedTimestamp md, AssetTypeOf = assetType\<rparr>)))"

text \<open>The error of serialising the action is overwritten by that of the lookup: the digest
  is then the zero value, \<open>BadDigest\<close>.\<close>

definition action_digest :: "('i, 'f, 'd, 'b, 'w) ext \<Rightarrow> Action \<Rightarrow> 'f \<Rightarrow> 'd" where
  "action_digest X action df =
     (case ProtoSerialise X (MAction action) df of Inl _ \<Rightarrow> BadDigest X | Inr (_, d) \<Rightarrow> d)"

definition actionCacheAssetStore_Get ::
  "('i, 'f, 'd, 'b, 'w) ext \<Rightarrow> ('d, 'b, 'w) actionCacheAssetStore \<Rightarrow> AssetReference \<Rightarrow> 'f \<Rightarrow>
     ('w, error + Asset) comp" where
  "actionCacheAssetStore_Get X rs ref digestFunction =
     tryM (lift (assetReferenceToAction X rs ref digestFunction)) (\<lambda>(action, _).
     let digest = action_digest X action digestFunction
     in bindM (call (BlobGet (actionCache rs) digest)) (\<lambda>buf.
     case ToProto X buf KActionResult (maximumMessageSize rs) of
       Inl err \<Rightarrow> ret (Inl (StatusWrapf X err ''could not get action from action cache''))
     | Inr (MActionResult a) \<Rightarrow> lift (actionResultToAsset X a)
     | Inr _ \<Rightarrow> panicM TypeAssertion))"

definition actionCacheAssetStore_Put ::
  "('i, 'f, 'd, 'b, 'w) ext \<Rightarrow> ('d, 'b, 'w) actionCacheAssetStore \<Rightarrow> nat \<Rightarrow> AssetReference \<Rightarrow> Asset \<Rightarrow> 'f \<Rightarrow>
     ('w, error + unit) comp" where
  "actionCacheAssetStore_Put X rs n ref data digestFunction =
     tryM (lift (assetReferenceToAction X rs ref digestFunction)) (\<lambda>(action, extraObjs).
     tryM (ret (ProtoSerialise X (MAction action) digestFunction)) (\<lambda>(actionPb, actionDigest).
     checkM (call (BlobPut (contentAddressableStorage rs) actionDigest actionPb)) (
     tryM (forM extraObjs (\<lambda>obj.
       tryM (ret (ProtoSerialise X obj digestFunction)) (\<lambda>(buf, digest).
       checkM (call (BlobPut (contentAddressableStorage rs) digest buf)) (ret (Inr ()))))) (\<lambda>_.
     tryM (assetToActionResult X rs n data digestFunction) (\<lambda>actionResult.
     checkM (call (BlobPut (actionCache rs) actionDigest
       (NewProtoBufferFromProto X (MActionResult actionResult)))) (ret (Inr ())))))))"

definition NewActionCacheAssetStore ::
  "('i, 'f, 'd, 'b, 'w) ext \<Rightarrow> nat \<Rightarrow> ('d, 'b, 'w) BlobAccess \<Rightarrow> ('d, 'b, 'w) BlobAccess \<Rightarrow> int \<Rightarrow>
     Platform option \<Rightarrow> ('f, 'w) AssetStore" where
  "NewActionCacheAssetStore X n ac cas max_bytes plat =
    (let rs = \<lparr>actionCache = ac, contentAddressableStorage = cas, maximumMessageSize = max_bytes,
           platform = plat\<rparr>
     in \<lparr>Get = actionCacheAssetStore_Get X rs, Put = actionCacheAssetStore_Put X rs n\<rparr>)"

end
