(* ===== verification/DirectoryTrees.thy ===== *)
theory DirectoryTrees
  imports ActionCacheAssetStore
begin

section \<open>Directories in the content addressable storage as trees\<close>

text \<open>
  What \<open>directoryNodeToDirectories\<close> and \<open>directoryToTree\<close> of
  \<open>action_cache_asset_store.go\<close> compute: the preorder listing of the tree of directories
  the storage holds. The recursion of the code ends because a directory's digest covers those
  of its subdirectories; here that is a rank on digests that decreases from a directory to its
  children, and fuel beyond the rank is enough whatever blobs are missing or malformed.
\<close>

datatype dirtree = DirTree Directory "dirtree list"

fun preorder :: "dirtree \<Rightarrow> Directory list" where
  "preorder (DirTree dir ts) = dir # concat (map preorder ts)"

fun height :: "dirtree \<Rightarrow> nat" where
  "height (DirTree dir ts) = Suc (fold max (map height ts) 0)"

text \<open>\<open>m\<close> holds the tree at a node: the node's digest leads to the root directory, and
  the nodes of that to the subtrees, in order.\<close>

fun holds_tree ::
  "('i, 'f, 'd, 'b, 'w) ext \<Rightarrow> 'f \<Rightarrow> int \<Rightarrow> ('d \<rightharpoonup> 'b) \<Rightarrow> DirectoryNode \<Rightarrow> dirtree \<Rightarrow> bool" where
  "holds_tree X df lim m node (DirTree dir ts) =
     (case NewDigestFromProto X df (DirDigest node) of
        Inl _ \<Rightarrow> False
      | Inr d \<Rightarrow>
          (case m d of
             None \<Rightarrow> False
           | Some b \<Rightarrow> ToProto X b KDirectory lim = Inr (MDirectory dir) \<and>
               list_all2 (\<lambda>n t. holds_tree X df lim m n t) (Directories dir) ts))"

lemma holds_tree_cases:
  assumes "holds_tree X df lim m node t"
  obtains d b dir ts where "t = DirTree dir ts" "NewDigestFromProto X df (DirDigest node) = Inr d"
    "m d = Some b" "ToProto X b KDirectory lim = Inr (MDirectory dir)"
    "list_all2 (holds_tree X df lim m) (Directories dir) ts"
  using assms by (cases t) (auto split: sum.splits option.splits)

lemma fold_max_le: "fold max xs (k::nat) \<le> n \<longleftrightarrow> k \<le> n \<and> (\<forall>x\<in>set xs. x \<le> n)"
  by (induction xs arbitrary: k) auto

lemma height_le_Suc: "height (DirTree dir ts) \<le> Suc n \<longleftrightarrow> (\<forall>t\<in>set ts. height t \<le> n)"
  by (simp add: fold_max_le)

subsection \<open>The listing is the preorder of the tree\<close>

lemma appendChildren_all:
  assumes "list_all2 R nodes rs" "view w = v"
    and "\<And>n r w. n \<in> set nodes \<Longrightarrow> r \<in> set rs \<Longrightarrow> R n r \<Longrightarrow> view w = v \<Longrightarrow>
      \<exists>w'. f n w = (Done (Inr (g r)), w') \<and> view w' = v"
  shows "\<exists>w'. appendChildren f nodes acc w = (Done (Inr (acc @ concat (map g rs))), w') \<and> view w' = v"
  using assms
proof (induction nodes rs arbitrary: acc w rule: list_all2_induct)
  case (Cons n ns r rs)
  from Cons.prems Cons.hyps obtain w1 where f: "f n w = (Done (Inr (g r)), w1)" "view w1 = v"
    by (metis list.set_intros(1))
  have "\<exists>w'. appendChildren f ns (acc @ g r) w1 = (Done (Inr ((acc @ g r) @ concat (map g rs))), w') \<and>
      view w' = v"
    by (rule Cons.IH) (use f Cons.prems in \<open>auto intro: list.set_intros\<close>)
  with f show ?case by (simp add: tryM_Inr)
qed simp

lemma directoryNodeToDirectories_step:
  assumes "NewDigestFromProto X df (DirDigest node) = Inr d"
  shows "directoryNodeToDirectories X rs df (Suc n) node w =
    (let w1 = snd (BlobGet (contentAddressableStorage rs) d w)
     in case ToProto X (fst (BlobGet (contentAddressableStorage rs) d w)) KDirectory (maximumMessageSize rs) of
       Inl err \<Rightarrow> (Done (Inl err), w1)
     | Inr (MDirectory dir) \<Rightarrow>
         appendChildren (directoryNodeToDirectories X rs df n) (Directories dir) [dir] w1
     | Inr _ \<Rightarrow> (Panic TypeAssertion, w1))"
  using assms by (simp add: Let_def split: sum.split message.split)

lemma directoryNodeToDirectories_preorder:
  assumes keeps: "keeps_blobs X (contentAddressableStorage rs) contents"
  shows "holds_tree X df (maximumMessageSize rs) m node t \<Longrightarrow> height t \<le> n \<Longrightarrow> contents w = m \<Longrightarrow>
    \<exists>w'. directoryNodeToDirectories X rs df n node w = (Done (Inr (preorder t)), w') \<and> contents w' = m"
proof (induction n arbitrary: node t w)
  case 0
  then show ?case by (cases t) simp
next
  case (Suc n)
  from Suc.prems(1) obtain d b dir ts where t: "t = DirTree dir ts"
    and d: "NewDigestFromProto X df (DirDigest node) = Inr d" and b: "m d = Some b"
    and dir: "ToProto X b KDirectory (maximumMessageSize rs) = Inr (MDirectory dir)"
    and sub: "list_all2 (holds_tree X df (maximumMessageSize rs) m) (Directories dir) ts"
    by (rule holds_tree_cases)
  have ts: "\<forall>t\<in>set ts. height t \<le> n"
    using Suc.prems(2) unfolding t height_le_Suc .
  let ?w1 = "snd (BlobGet (contentAddressableStorage rs) d w)"
  have get: "fst (BlobGet (contentAddressableStorage rs) d w) = b"
    using keeps b Suc.prems(3) by (auto intro: keeps_blobs_Get_hit)
  have "contents ?w1 = m" using keeps Suc.prems(3) by (simp add: keeps_blobs_Get_view)
  then have "\<exists>w'. appendChildren (directoryNodeToDirectories X rs df n) (Directories dir) [dir] ?w1 =
      (Done (Inr ([dir] @ concat (map preorder ts))), w') \<and> contents w' = m"
    by (intro appendChildren_all [where view = contents, OF sub]) (use Suc.IH ts in blast)+
  then show ?case
    by (simp add: directoryNodeToDirectories_step [OF d] Let_def get dir t
        del: directoryNodeToDirectories.simps)
qed

lemma directoryToTree_preorder:
  assumes "keeps_blobs X (contentAddressableStorage rs) contents" "contents w = m"
    and sub: "list_all2 (holds_tree X df (maximumMessageSize rs) m) (Directories dir) ts"
    and ts: "\<forall>t\<in>set ts. height t \<le> n"
  shows "\<exists>w'. directoryToTree X rs n dir df w =
    (Done (Inr \<lparr>Root = dir, Children = concat (map preorder ts)\<rparr>), w') \<and> contents w' = m"
proof -
  have "\<exists>w'. appendChildren (directoryNodeToDirectories X rs df n) (Directories dir) [] w =
      (Done (Inr ([] @ concat (map preorder ts))), w') \<and> contents w' = m"
    by (rule appendChildren_all [where view = contents, OF sub assms(2)])
       (use directoryNodeToDirectories_preorder [OF assms(1)] ts in blast)
  then show ?thesis by (auto simp: directoryToTree_def tryM_Inr)
qed

subsection \<open>Enough fuel\<close>

definition ranked ::
  "('i, 'f, 'd, 'b, 'w) ext \<Rightarrow> 'f \<Rightarrow> int \<Rightarrow> ('d \<Rightarrow> nat) \<Rightarrow> ('d \<rightharpoonup> 'b) \<Rightarrow> bool" where
  "ranked X df lim rank m \<longleftrightarrow>
     (\<forall>d b dir node d'. m d = Some b \<longrightarrow> ToProto X b KDirectory lim = Inr (MDirectory dir) \<longrightarrow>
        node \<in> set (Directories dir) \<longrightarrow> NewDigestFromProto X df (DirDigest node) = Inr d' \<longrightarrow>
        rank d' < rank d)"

lemma rankedD:
  "ranked X df lim rank m \<Longrightarrow> m d = Some b \<Longrightarrow> ToProto X b KDirectory lim = Inr (MDirectory dir) \<Longrightarrow>
     node \<in> set (Directories dir) \<Longrightarrow> NewDigestFromProto X df (DirDigest node) = Inr d' \<Longrightarrow> rank d' < rank d"
  unfolding ranked_def by blast

text \<open>A finished listing keeps the storage as it is; the two facts go together because the
  loop continues in the world the previous child left.\<close>

definition finishes :: "('w \<Rightarrow> 'v) \<Rightarrow> 'v \<Rightarrow> ('w, 'a) comp \<Rightarrow> bool" where
  "finishes view v m \<longleftrightarrow> (\<forall>w. view w = v \<longrightarrow> fst (m w) \<noteq> Unfinished \<and> view (snd (m w)) = v)"

lemma finishesD: "finishes view v m \<Longrightarrow> view w = v \<Longrightarrow> m w = (r, w') \<Longrightarrow> r \<noteq> Unfinished \<and> view w' = v"
  unfolding finishes_def by (metis fst_conv snd_conv)

lemma finishes_tryM:
  assumes "finishes view v m" "\<And>a. finishes view v (k a)"
  shows "finishes view v (tryM m k)"
  unfolding finishes_def
proof (intro allI impI)
  fix w assume "view w = v"
  moreover obtain r w1 where m: "m w = (r, w1)" by fastforce
  ultimately have r: "r \<noteq> Unfinished" "view w1 = v" using assms(1) by (auto dest: finishesD)
  with m assms(2) show "fst (tryM m k w) \<noteq> Unfinished \<and> view (snd (tryM m k w)) = v"
    by (cases r rule: run.exhaust; cases "case r of Done x \<Rightarrow> x")
       (auto simp: tryM_steps finishes_def)
qed

lemma finishes_ret: "finishes view v (ret a)" "finishes view v (panicM p)"
  by (simp_all add: finishes_def)

lemma appendChildren_finishes:
  "(\<And>n. n \<in> set nodes \<Longrightarrow> finishes view v (f n)) \<Longrightarrow> finishes view v (appendChildren f nodes acc)"
  by (induction nodes arbitrary: acc) (auto intro!: finishes_ret finishes_tryM)

lemma directoryNodeToDirectories_finishes:
  assumes keeps: "keeps_blobs X (contentAddressableStorage rs) contents"
    and rank: "ranked X df (maximumMessageSize rs) rank m"
  shows "0 < n \<Longrightarrow> (\<And>d. NewDigestFromProto X df (DirDigest node) = Inr d \<Longrightarrow> Suc (rank d) < n) \<Longrightarrow>
    finishes contents m (directoryNodeToDirectories X rs df n node)"
proof (induction n arbitrary: node)
  case (Suc n)
  let ?cas = "contentAddressableStorage rs" and ?f = "directoryNodeToDirectories X rs df"
  show ?case
  proof (cases "NewDigestFromProto X df (DirDigest node)")
    case (Inl e)
    then show ?thesis by (simp add: finishes_def)
  next
    case d: (Inr d)
    note step = directoryNodeToDirectories_step [OF d] Let_def
    have children: "finishes contents m (?f n node')"
      if "contents w = m" "ToProto X (fst (BlobGet ?cas d w)) KDirectory (maximumMessageSize rs) = Inr (MDirectory dir)"
        "node' \<in> set (Directories dir)" for w dir node'
    proof (rule Suc.IH)
      from that(1,2) keeps obtain b where "m d = Some b" "fst (BlobGet ?cas d w) = b"
        by (metis keeps_blobs_Get_hit keeps_blobs_Get_miss not_None_eq sum.simps(4))
      then show "Suc (rank d') < n" if "NewDigestFromProto X df (DirDigest node') = Inr d'" for d'
        using rankedD [OF rank _ _ \<open>node' \<in> _\<close> that] Suc.prems(2) [OF d] \<open>ToProto _ _ _ _ = _\<close>
        by fastforce
      show "0 < n" using Suc.prems(2) [OF d] by simp
    qed
    show ?thesis
      unfolding finishes_def
    proof (intro allI impI)
      fix w assume w: "contents w = m"
      have w1: "contents (snd (BlobGet ?cas d w)) = m"
        using keeps w by (simp add: keeps_blobs_Get_view)
      show "fst (?f (Suc n) node w) \<noteq> Unfinished \<and> contents (snd (?f (Suc n) node w)) = m"
      proof (cases "\<exists>dir. ToProto X (fst (BlobGet ?cas d w)) KDirectory (maximumMessageSize rs) = Inr (MDirectory dir)")
        case True
        then obtain dir where dir: "ToProto X (fst (BlobGet ?cas d w)) KDirectory (maximumMessageSize rs) =
          Inr (MDirectory dir)" ..
        have "finishes contents m (appendChildren (?f n) (Directories dir) [dir])"
          using children [OF w dir] by (rule appendChildren_finishes)
        with dir w1 show ?thesis unfolding step by (simp add: finishes_def)
      next
        case False
        then show ?thesis using w1 unfolding step by (auto split: sum.split message.split)
      qed
    qed
  qed
qed simp

lemma directoryToTree_finishes:
  assumes "keeps_blobs X (contentAddressableStorage rs) contents"
    and "ranked X df (maximumMessageSize rs) rank m"
    and "0 < n" "\<And>node d. node \<in> set (Directories dir) \<Longrightarrow>
      NewDigestFromProto X df (DirDigest node) = Inr d \<Longrightarrow> Suc (rank d) < n"
  shows "finishes contents m (directoryToTree X rs n dir df)"
  unfolding directoryToTree_def
  by (intro finishes_tryM appendChildren_finishes finishes_ret
      directoryNodeToDirectories_finishes [OF assms(1,2)]) (use assms(3,4) in auto)

end
