(* ===== verification/ActionCacheContract.thy ===== *)
theory ActionCacheContract
  imports DirectoryTrees
begin

section \<open>The action cache store keeps the contract of an asset store\<close>

text \<open>
  The view of the store is what a lookup finds: the action a reference becomes, the result the
  action cache holds under its digest, and the asset that result stands for. Storing loses the
  asset's expiry, which is no part of an action result: the image of an asset never expires.
  The last section states the order of \<open>Put\<close>: the action cache is written last, and only
  if everything the entry refers to is in the content addressable storage.
\<close>

subsection \<open>Assets and action results\<close>

definition result_of :: "Asset \<Rightarrow> Digest option \<Rightarrow> ActionResult" where
  "result_of a tree_digest =
     \<lparr>OutputFiles = (if AssetTypeOf a = BLOB then [\<lparr>OutFilePath = ''out'', OutFileDigest = AssetDigest a\<rparr>] else []),
      OutputDirectories = (if AssetTypeOf a = DIRECTORY
        then [\<lparr>OutDirPath = ''out'', TreeDigest = tree_digest, RootDirectoryDigest = AssetDigest a\<rparr>] else []),
      ExitCode = 0, ExecutionMetadata = Some \<lparr>QueuedTimestamp = LastUpdated a\<rparr>\<rparr>"

lemma assetToActionResult_BLOB:
  "AssetTypeOf a = BLOB \<Longrightarrow> assetToActionResult X rs n a df w = (Done (Inr (result_of a td)), w)"
  by (simp add: assetToActionResult_def result_of_def Let_def)

lemma assetToActionResult_Other:
  "AssetTypeOf a = OtherType k \<Longrightarrow> assetToActionResult X rs n a df w =
     (Done (Inl (StatusError code_InvalidArgument (''unknown asset Type '' @ Itoa k))), w)"
  by (simp add: assetToActionResult_def Let_def)

lemma assetToActionResult_Inr:
  assumes "assetToActionResult X rs n a df w = (Done (Inr r), w')"
  shows "AssetTypeOf a = BLOB \<or> AssetTypeOf a = DIRECTORY" "\<exists>td. r = result_of a td"
  using assms
  by (auto simp: assetToActionResult_def result_of_def Let_def
      elim!: tryM_InrE bindM_DoneE checkM_InrE
      split: if_split_asm sum.split_asm message.split_asm prod.split_asm
      simp del: bindM_call checkM_call)

lemma actionResultToAsset_result_of:
  assumes "AssetDigest a = Some d" "Hash d \<noteq> []" "AssetTypeOf a = BLOB \<or> AssetTypeOf a = DIRECTORY"
  shows "actionResultToAsset X (result_of a td) = Done (Inr (a\<lparr>ExpireAt := Some (getDefaultTimestamp X)\<rparr>))"
  using assms by (auto simp: actionResultToAsset_def result_of_def no_digest_def Let_def)

subsection \<open>The contract\<close>

definition separate :: "('d, 'b, 'w) BlobAccess \<Rightarrow> ('w \<Rightarrow> 'v) \<Rightarrow> bool" where
  "separate ba view \<longleftrightarrow>
     (\<forall>d w. view (snd (BlobGet ba d w)) = view w) \<and> (\<forall>d b w. view (snd (BlobPut ba d b w)) = view w)"

text \<open>A configuration: the external code, the store, the fuel for directories, and the
  contents of the action cache.\<close>

type_synonym ('i, 'f, 'd, 'b, 'w) ac_config =
  "('i, 'f, 'd, 'b, 'w) ext \<times> ('d, 'b, 'w) actionCacheAssetStore \<times> nat \<times> ('w \<Rightarrow> 'd \<rightharpoonup> 'b)"

fun ac_store :: "('i, 'f, 'd, 'b, 'w) ac_config \<Rightarrow> ('f, 'w) AssetStore" where
  "ac_store (X, rs, n, contents) =
     NewActionCacheAssetStore X n (actionCache rs) (contentAddressableStorage rs)
       (maximumMessageSize rs) (platform rs)"

fun ac_ok :: "('i, 'f, 'd, 'b, 'w) ac_config \<Rightarrow> bool" where
  "ac_ok (X, rs, n, contents) \<longleftrightarrow>
     keeps_blobs X (actionCache rs) contents \<and> separate (contentAddressableStorage rs) contents"

definition action_key ::
  "('i, 'f, 'd, 'b, 'w) ext \<Rightarrow> ('d, 'b, 'w) actionCacheAssetStore \<Rightarrow> 'f \<Rightarrow> AssetReference \<Rightarrow> 'd option" where
  "action_key X rs df ref =
     (case assetReferenceToAction X rs ref df of
        Done (Inr (action, _)) \<Rightarrow> Some (action_digest X action df)
      | _ \<Rightarrow> None)"

definition result_asset :: "('i, 'f, 'd, 'b, 'w) ext \<Rightarrow> int \<Rightarrow> 'b \<Rightarrow> Asset option" where
  "result_asset X lim b =
     (case ToProto X b KActionResult lim of
        Inr (MActionResult r) \<Rightarrow>
          (case actionResultToAsset X r of Done (Inr a) \<Rightarrow> Some a | _ \<Rightarrow> None)
      | _ \<Rightarrow> None)"

fun ac_view ::
  "('i, 'f, 'd, 'b, 'w) ac_config \<Rightarrow> 'w \<Rightarrow> 'f \<Rightarrow> AssetReference \<Rightarrow> Asset option" where
  "ac_view (X, rs, n, contents) w df ref =
     Option.bind (action_key X rs df ref) (\<lambda>d.
     Option.bind (contents w d) (result_asset X (maximumMessageSize rs)))"

fun ac_image :: "('i, 'f, 'd, 'b, 'w) ac_config \<Rightarrow> Asset \<Rightarrow> Asset" where
  "ac_image (X, rs, n, contents) a = a\<lparr>ExpireAt := Some (getDefaultTimestamp X)\<rparr>"

fun ac_fits :: "('i, 'f, 'd, 'b, 'w) ac_config \<Rightarrow> Asset \<Rightarrow> bool" where
  "ac_fits (X, rs, n, contents) a \<longleftrightarrow>
     (\<exists>d. AssetDigest a = Some d \<and> Hash d \<noteq> []) \<and>
     (\<forall>td. buffers_roundtrip X (maximumMessageSize rs) (MActionResult (result_of a td)))"

lemma ac_store_record:
  "Get (ac_store (X, rs, n, contents)) = actionCacheAssetStore_Get X rs"
  "Put (ac_store (X, rs, n, contents)) = actionCacheAssetStore_Put X rs n"
  by (cases rs; simp add: NewActionCacheAssetStore_def Let_def)+

text \<open>The calls of a \<open>Put\<close> that succeeded.\<close>

lemma ac_Put_success:
  assumes "actionCacheAssetStore_Put X rs n ref a df w = (Done (Inr u), w')"
  obtains action objs apb ad w1 w2 r w3 where
    "assetReferenceToAction X rs ref df = Done (Inr (action, objs))"
    "ProtoSerialise X (MAction action) df = Inr (apb, ad)"
    "BlobPut (contentAddressableStorage rs) ad apb w = (None, w1)"
    "forM objs (\<lambda>obj. tryM (ret (ProtoSerialise X obj df)) (\<lambda>(buf, digest).
       checkM (call (BlobPut (contentAddressableStorage rs) digest buf)) (ret (Inr ())))) w1 = (Done (Inr ()), w2)"
    "assetToActionResult X rs n a df w2 = (Done (Inr r), w3)"
    "BlobPut (actionCache rs) ad (NewProtoBufferFromProto X (MActionResult r)) w3 = (None, w')"
  using assms that
  by (auto simp: actionCacheAssetStore_Put_def elim!: tryM_InrE checkM_InrE
      split: prod.split_asm simp del: checkM_call)

lemma separate_preserves:
  assumes "separate ba view"
  shows "preserves (\<lambda>w. view w = v) (call (BlobGet ba d))" "preserves (\<lambda>w. view w = v) (call (BlobPut ba d b))"
  using assms by (auto simp: separate_def intro!: preserves_call)

lemma appendChildren_preserves:
  "(\<And>n. preserves P (f n)) \<Longrightarrow> preserves P (appendChildren f ns acc)"
  by (induction ns arbitrary: acc) (auto intro!: preserves_ret preserves_tryM)

lemma directoryNodeToDirectories_separate:
  assumes "separate (contentAddressableStorage rs) view"
  shows "preserves (\<lambda>w. view w = v) (directoryNodeToDirectories X rs df n node)"
  by (induction n arbitrary: node)
     (auto intro!: frame_rules separate_preserves [OF assms] appendChildren_preserves
       split: sum.split message.split simp del: ret_run lift_run panicM_run bindM_call)

lemma assetToActionResult_separate:
  assumes "separate (contentAddressableStorage rs) view"
  shows "preserves (\<lambda>w. view w = v) (assetToActionResult X rs n a df)"
  unfolding assetToActionResult_def directoryToTree_def Let_def
  by (auto intro!: frame_rules separate_preserves [OF assms] appendChildren_preserves
       directoryNodeToDirectories_separate [OF assms]
       split: sum.split message.split simp del: ret_run lift_run panicM_run bindM_call checkM_call)

lemma put_objects_preserves:
  assumes "\<And>d b. preserves P (call (BlobPut ba d b))"
  shows "preserves P (forM objs (\<lambda>obj. tryM (ret (ProtoSerialise X obj df)) (\<lambda>(buf, digest).
     checkM (call (BlobPut ba digest buf)) (ret (Inr ())))))"
  by (auto intro!: preserves_forM preserves_tryM preserves_checkM preserves_ret assms
      simp del: checkM_call)

text \<open>A \<open>Put\<close> that succeeded wrote one entry of the action cache.\<close>

lemma ac_Put_contents:
  assumes "ac_ok (X, rs, n, contents)" "actionCacheAssetStore_Put X rs n ref a df w = (Done (Inr u), w')"
  obtains action objs apb ad td where
    "assetReferenceToAction X rs ref df = Done (Inr (action, objs))"
    "ProtoSerialise X (MAction action) df = Inr (apb, ad)"
    "AssetTypeOf a = BLOB \<or> AssetTypeOf a = DIRECTORY"
    "contents w' = (contents w)(ad \<mapsto> NewProtoBufferFromProto X (MActionResult (result_of a td)))"
proof -
  from assms(1) have keeps: "keeps_blobs X (actionCache rs) contents"
    and sep: "separate (contentAddressableStorage rs) contents" by simp_all
  from assms(2) obtain action objs apb ad w1 w2 r w3 where
    ref: "assetReferenceToAction X rs ref df = Done (Inr (action, objs))"
    and ad: "ProtoSerialise X (MAction action) df = Inr (apb, ad)"
    and put1: "BlobPut (contentAddressableStorage rs) ad apb w = (None, w1)"
    and put2: "forM objs (\<lambda>obj. tryM (ret (ProtoSerialise X obj df)) (\<lambda>(buf, digest).
       checkM (call (BlobPut (contentAddressableStorage rs) digest buf)) (ret (Inr ())))) w1 = (Done (Inr ()), w2)"
    and result: "assetToActionResult X rs n a df w2 = (Done (Inr r), w3)"
    and put3: "BlobPut (actionCache rs) ad (NewProtoBufferFromProto X (MActionResult r)) w3 = (None, w')"
    by (rule ac_Put_success)
  have "contents w1 = contents w" using sep put1 unfolding separate_def by (metis snd_conv)
  moreover have "contents w2 = contents w1"
    using preservesD [OF put_objects_preserves put2] separate_preserves(2) [OF sep] by blast
  moreover have "contents w3 = contents w2"
    using preservesD [OF assetToActionResult_separate [OF sep] result] by blast
  ultimately have "contents w' = (contents w)(ad \<mapsto> NewProtoBufferFromProto X (MActionResult r))"
    using keeps_blobs_Put [OF keeps put3] by simp
  with assetToActionResult_Inr [OF result] that [OF ref ad] show thesis by blast
qed

lemma ac_Put_view:
  assumes "ac_ok c" "ac_fits c a" "Put (ac_store c) ref a df w = (Done (Inr u), w')"
  shows "ac_view c w' df ref = Some (ac_image c a)"
    "ac_view c w' df' ref' = ac_view c w df' ref' \<or> ac_view c w' df' ref' = Some (ac_image c a)"
proof -
  obtain X rs n contents where c: "c = (X, rs, n, contents)" by (cases c)
  from ac_Put_contents [OF assms(1) [unfolded c] assms(3) [unfolded c ac_store_record]]
  obtain action objs apb ad td where
    ref: "assetReferenceToAction X rs ref df = Done (Inr (action, objs))"
    and ad: "ProtoSerialise X (MAction action) df = Inr (apb, ad)"
    and type: "AssetTypeOf a = BLOB \<or> AssetTypeOf a = DIRECTORY"
    and w': "contents w' = (contents w)(ad \<mapsto> NewProtoBufferFromProto X (MActionResult (result_of a td)))"
    by blast
  from ref ad have key: "action_key X rs df ref = Some ad"
    by (simp add: action_key_def action_digest_def)
  have "result_asset X (maximumMessageSize rs)
      (NewProtoBufferFromProto X (MActionResult (result_of a td))) = Some (ac_image c a)"
    using assms(2) type unfolding c
    by (auto simp: result_asset_def buffers_roundtripD actionResultToAsset_result_of)
  then show "ac_view c w' df ref = Some (ac_image c a)"
    "ac_view c w' df' ref' = ac_view c w df' ref' \<or> ac_view c w' df' ref' = Some (ac_image c a)"
    by (auto simp: c key w' split: Option.bind_splits)
qed

lemma ac_Get_run:
  "actionCacheAssetStore_Get X rs ref df w =
    (case assetReferenceToAction X rs ref df of
       Done (Inr (action, _)) \<Rightarrow>
         (let d = action_digest X action df
          in (case ToProto X (fst (BlobGet (actionCache rs) d w)) KActionResult (maximumMessageSize rs) of
                Inl err \<Rightarrow> Done (Inl (StatusWrapf X err ''could not get action from action cache''))
              | Inr (MActionResult r) \<Rightarrow> actionResultToAsset X r
              | Inr _ \<Rightarrow> Panic TypeAssertion,
              snd (BlobGet (actionCache rs) d w)))
     | Done (Inl e) \<Rightarrow> (Done (Inl e), w)
     | Panic p \<Rightarrow> (Panic p, w)
     | Unfinished \<Rightarrow> (Unfinished, w))"
  by (auto simp: actionCacheAssetStore_Get_def Let_def tryM_def
      split: run.split sum.split message.split)

lemma ac_Get_view:
  assumes "ac_ok (X, rs, n, contents)"
  shows "fst (actionCacheAssetStore_Get X rs ref df w) = Done (Inr a) \<longleftrightarrow>
    ac_view (X, rs, n, contents) w df ref = Some a" (is ?found)
    "contents (snd (actionCacheAssetStore_Get X rs ref df w)) = contents w" (is ?frame)
proof -
  from assms have keeps: "keeps_blobs X (actionCache rs) contents" by simp
  show ?frame
    by (auto simp: ac_Get_run Let_def keeps_blobs_Get_view [OF keeps] split: run.split sum.split)
  show ?found
  proof (cases "action_key X rs df ref")
    case None
    then show ?thesis by (auto simp: ac_Get_run action_key_def split: run.splits sum.splits)
  next
    case (Some d)
    then have get: "fst (actionCacheAssetStore_Get X rs ref df w) =
      (case ToProto X (fst (BlobGet (actionCache rs) d w)) KActionResult (maximumMessageSize rs) of
         Inl err \<Rightarrow> Done (Inl (StatusWrapf X err ''could not get action from action cache''))
       | Inr (MActionResult r) \<Rightarrow> actionResultToAsset X r
       | Inr _ \<Rightarrow> Panic TypeAssertion)"
      by (auto simp: ac_Get_run action_key_def Let_def split: run.splits sum.splits)
    show ?thesis
    proof (cases "contents w d")
      case None
      then obtain e where "ToProto X (fst (BlobGet (actionCache rs) d w)) KActionResult
          (maximumMessageSize rs) = Inl e"
        using keeps_blobs_Get_miss [OF keeps] by blast
      with Some None get show ?thesis by simp
    next
      case b: (Some b)
      with keeps have "fst (BlobGet (actionCache rs) d w) = b" by (rule keeps_blobs_Get_hit)
      with Some b get show ?thesis
        by (auto simp: result_asset_def split: sum.split message.split run.split)
    qed
  qed
qed

lemma ac_Get_hit:
  "ac_ok c \<Longrightarrow> ac_view c w df ref = Some a \<Longrightarrow> \<exists>w'. Get (ac_store c) ref df w = (Done (Inr a), w')"
  by (cases c) (simp only: ac_store_record, metis ac_Get_view(1) prod.collapse)

lemma ac_Get_sound:
  "ac_ok c \<Longrightarrow> Get (ac_store c) ref df w = (Done (Inr a), w') \<Longrightarrow> ac_view c w df ref = Some a"
  by (cases c) (simp only: ac_store_record, metis ac_Get_view(1) fst_conv)

lemma ac_Get_frame:
  assumes "ac_ok c" "Get (ac_store c) ref df w = (r, w')"
  shows "ac_view c w' = ac_view c w"
proof -
  obtain X rs n contents where c: "c = (X, rs, n, contents)" by (cases c)
  with assms have "contents w' = contents w"
    by (metis ac_Get_view(2) ac_store_record(1) snd_conv)
  with c show ?thesis by (intro ext) simp
qed

lemma ac_view_same:
  "contents w' = contents w \<Longrightarrow> ac_view (X, rs, n, contents) w' = ac_view (X, rs, n, contents) w"
  by (intro ext) simp

lemma ac_view_keeps:
  "clock_keeps Y contents \<Longrightarrow> clock_keeps Y (ac_view (X, rs, n, contents))"
  "log_keeps Y contents \<Longrightarrow> log_keeps Y (ac_view (X, rs, n, contents))"
  "auth_keeps A contents \<Longrightarrow> auth_keeps A (ac_view (X, rs, n, contents))"
  unfolding clock_keeps_def log_keeps_def auth_keeps_def by (blast intro: ac_view_same)+

lemma ac_image_fields:
  "AssetDigest (ac_image c a) = AssetDigest a" "LastUpdated (ac_image c a) = LastUpdated a"
  "AssetTypeOf (ac_image c a) = AssetTypeOf a"
  by (cases c; simp)+

lemmas ac_config_simps = ac_store.simps ac_ok.simps ac_view.simps ac_image.simps ac_fits.simps

declare ac_config_simps [simp del]

interpretation acs: asset_store ac_store ac_ok ac_view ac_image ac_fits "\<lambda>_ _ _. True"
  by unfold_locales
     (simp_all only: ac_Put_view(1) ac_Put_view(2) ac_Get_hit ac_Get_sound ac_Get_frame ac_image_fields)

text \<open>The store the configuration builds for the \<open>actionCache\<close> backend.\<close>

interpretation aacs: asset_store "auth_store ac_store" "auth_ok ac_ok ac_view" "auth_inner ac_view"
  "auth_inner ac_image" "auth_inner ac_fits" "auth_admits (\<lambda>_ _ _. True)"
  by (rule acs.authorized_contract)

subsection \<open>The order of a \<open>Put\<close>\<close>

text \<open>\<open>fails_clean view m\<close>: unless \<open>m\<close> succeeds, it leaves the view alone.\<close>

definition fails_clean :: "('w \<Rightarrow> 'v) \<Rightarrow> ('w, error + unit) comp \<Rightarrow> bool" where
  "fails_clean view m \<longleftrightarrow> (\<forall>w r w'. m w = (r, w') \<longrightarrow> r \<noteq> Done (Inr ()) \<longrightarrow> view w' = view w)"

lemma fails_clean_bindM:
  assumes "\<And>v. preserves (\<lambda>w. view w = v) m" "\<And>a. fails_clean view (k a)"
  shows "fails_clean view (bindM m k)"
  unfolding fails_clean_def
proof (intro allI impI)
  fix w r w'
  assume run: "bindM m k w = (r, w')" and r: "r \<noteq> Done (Inr ())"
  obtain r1 w1 where m: "m w = (r1, w1)" by fastforce
  from preservesD [OF assms(1) m refl] have "view w1 = view w" .
  show "view w' = view w"
  proof (cases r1)
    case (Done x)
    with run m have "k x w1 = (r, w')" by (simp add: bindM_Done)
    with assms(2) r \<open>view w1 = view w\<close> show ?thesis unfolding fails_clean_def by metis
  qed (use run m \<open>view w1 = view w\<close> in \<open>simp_all add: bindM_def\<close>)
qed

lemma fails_clean_ret: "fails_clean view (ret a)"
  by (simp add: fails_clean_def)

lemma fails_clean_tryM:
  "(\<And>v. preserves (\<lambda>w. view w = v) m) \<Longrightarrow> (\<And>a. fails_clean view (k a)) \<Longrightarrow> fails_clean view (tryM m k)"
  unfolding tryM_def
  by (rule fails_clean_bindM) (auto intro: fails_clean_ret split: sum.split simp del: ret_run)

lemma fails_clean_checkM:
  "(\<And>v. preserves (\<lambda>w. view w = v) m) \<Longrightarrow> fails_clean view k \<Longrightarrow> fails_clean view (checkM m k)"
  unfolding checkM_def
  by (rule fails_clean_bindM) (auto intro: fails_clean_ret split: option.split simp del: ret_run)

text \<open>If the action cache leaves its contents alone when it refuses a \<open>Put\<close>, a store
  that did not succeed did not change them: every earlier step writes elsewhere.\<close>

lemma ac_Put_fails_clean:
  assumes sep: "separate (contentAddressableStorage rs) contents"
    and refuses: "\<And>d b w e w'. BlobPut (actionCache rs) d b w = (Some e, w') \<Longrightarrow> contents w' = contents w"
  shows "fails_clean contents (actionCacheAssetStore_Put X rs n ref a df)"
proof -
  have last: "fails_clean contents (checkM (call (BlobPut (actionCache rs) d b)) (ret (Inr ())))" for d b
    using refuses by (auto simp: fails_clean_def split: prod.splits option.splits)
  show ?thesis
    unfolding actionCacheAssetStore_Put_def case_prod_beta
    by (intro fails_clean_tryM fails_clean_checkM last preserves_lift preserves_ret
        separate_preserves [OF sep] assetToActionResult_separate [OF sep]
        put_objects_preserves [unfolded case_prod_beta])
qed

subsection \<open>Referential integrity\<close>

text \<open>What a successful \<open>Put\<close> leaves in the content addressable storage: the action,
  the reference of the qualifiers, the input root and the command, and for a directory its
  tree.\<close>

lemma assetToActionResult_cas:
  assumes keeps: "keeps_blobs X (contentAddressableStorage rs) cas"
    and run: "assetToActionResult X rs n a df w = (Done (Inr r), w')"
  shows "dom (cas w) \<subseteq> dom (cas w')"
    "\<And>out. out \<in> set (OutputDirectories r) \<Longrightarrow> \<exists>td. TreeDigest out = Some (GetProto X td) \<and> td \<in> dom (cas w')"
proof -
  have get: "preserves (\<lambda>w. cas w = v) (call (BlobGet (contentAddressableStorage rs) d))" for v d
    by (rule preserves_call) (simp add: keeps_blobs_Get_view [OF keeps])
  have node: "preserves (\<lambda>w. cas w = v) (directoryNodeToDirectories X rs df n node)" for v n node
    by (induction n arbitrary: node)
       (auto intro!: frame_rules get appendChildren_preserves
         split: sum.split message.split simp del: ret_run lift_run panicM_run bindM_call)
  have "preserves (\<lambda>w. cas w = v) (directoryToTree X rs n dir df)" for v dir
    unfolding directoryToTree_def
    by (intro preserves_tryM appendChildren_preserves node preserves_ret)
  note tree = preservesD [OF this _ refl]
  have put: "(dom (cas w2) \<subseteq> dom (cas w3)) \<and> td \<in> dom (cas w3)"
    if "BlobPut (contentAddressableStorage rs) td b w2 = (None, w3)" for td b w2 w3
    using keeps_blobs_Put [OF keeps that] by auto
  have "dom (cas w) \<subseteq> dom (cas w') \<and> (\<forall>out\<in>set (OutputDirectories r).
      \<exists>td. TreeDigest out = Some (GetProto X td) \<and> td \<in> dom (cas w'))"
  proof (cases "AssetTypeOf a = DIRECTORY")
    case True
    with run obtain d buf w1 dir x w2 tpb td where
      d: "BlobGet (contentAddressableStorage rs) d w = (buf, w1)"
      and dir: "directoryToTree X rs n dir df w1 = (x, w2)"
      and td: "BlobPut (contentAddressableStorage rs) td tpb w2 = (None, w')"
      and r: "\<And>out. out \<in> set (OutputDirectories r) \<Longrightarrow> TreeDigest out = Some (GetProto X td)"
      by (auto simp: assetToActionResult_def Let_def
          elim!: tryM_InrE bindM_DoneE checkM_InrE
          split: sum.split_asm message.split_asm prod.split_asm simp del: checkM_call)
    from tree [OF dir] d have "cas w2 = cas w" by (metis keeps_blobs_Get_view [OF keeps] snd_conv)
    with put [OF td] r show ?thesis by auto
  next
    case False
    with run show ?thesis by (auto simp: assetToActionResult_def Let_def split: if_split_asm)
  qed
  then show "dom (cas w) \<subseteq> dom (cas w')"
    "\<And>out. out \<in> set (OutputDirectories r) \<Longrightarrow> \<exists>td. TreeDigest out = Some (GetProto X td) \<and> td \<in> dom (cas w')"
    by auto
qed

text \<open>What an action refers to: its command, the reference of its qualifiers, and a directory with
  that reference, which is the input root but of an action with a generated command.\<close>

definition action_objects ::
  "('i, 'f, 'd, 'b, 'w) ext \<Rightarrow> ('d, 'b, 'w) actionCacheAssetStore \<Rightarrow> AssetReference \<Rightarrow> 'f \<Rightarrow> Action \<Rightarrow>
     (message \<Rightarrow> 'd \<Rightarrow> bool) \<Rightarrow> bool" where
  "action_objects X rs ref df action has \<longleftrightarrow>
     (\<exists>ad command cd qd dd.
        has (MAction action) ad \<and>
        has (MCommand command) cd \<and> CommandDigest action = GetProto X cd \<and>
        has (MAssetReference (NewAssetReference [] (RefQualifiers ref))) qd \<and>
        has (MDirectory \<lparr>Files = [\<lparr>FileName = ''AssetReference'', FileDigest = Some (GetProto X qd)\<rparr>],
          Directories = [], Symlinks = []\<rparr>) dd \<and>
        (case QualifiersToCommand (SortQualifiers (RefQualifiers ref)) of
           Inr generator \<Rightarrow>
             if length (RefUris ref) > 1
             then Arguments command = RefUris ref \<and> InputRootDigest action = GetProto X dd
             else (\<exists>uri cmd. RefUris ref = [uri] \<and> generator uri = Done cmd \<and>
                 command = (if CommandPlatform cmd = None then cmd\<lparr>CommandPlatform := platform rs\<rparr> else cmd)) \<and>
               InputRootDigest action = GetProto X (EmptyDigest X df)
         | Inl _ \<Rightarrow> Arguments command = RefUris ref \<and> InputRootDigest action = GetProto X dd))"

lemma message_digestI: "ProtoSerialise X m df = Inr (b, d) \<Longrightarrow> message_digest X df m = Some d"
  by (simp add: message_digest_def)

lemma assetReferenceToAction_objects:
  assumes run: "assetReferenceToAction X rs ref df = Done (Inr (action, extra))"
    and stored: "\<And>m. m \<in> set (MAction action # extra) \<Longrightarrow> \<exists>d. message_digest X df m = Some d \<and> P d"
  shows "action_objects X rs ref df action (\<lambda>m d. message_digest X df m = Some d \<and> P d)"
proof -
  let ?qr = "NewAssetReference [] (RefQualifiers ref)"
  let ?dir = "\<lambda>qd. \<lparr>Files = [\<lparr>FileName = ''AssetReference'', FileDigest = Some (GetProto X qd)\<rparr>],
    Directories = [], Symlinks = []\<rparr>"
  let ?gen = "QualifiersToCommand (SortQualifiers (RefQualifiers ref))"
  from run obtain b qd b' dd where q: "ProtoSerialise X (MAssetReference ?qr) df = Inr (b, qd)"
    and d: "ProtoSerialise X (MDirectory (?dir qd)) df = Inr (b', dd)"
    by (auto simp: assetReferenceToAction_def Let_def tryR_def split: sum.split_asm)
  have "\<exists>command cb cd. ProtoSerialise X (MCommand command) df = Inr (cb, cd) \<and> CommandDigest action = GetProto X cd \<and>
    extra = [MAssetReference ?qr, MDirectory (?dir qd), MCommand command] \<and>
    (if isl ?gen \<or> length (RefUris ref) > 1
     then Arguments command = RefUris ref \<and> InputRootDigest action = GetProto X dd
     else (\<exists>uri cmd. RefUris ref = [uri] \<and> projr ?gen uri = Done cmd \<and>
         command = (if CommandPlatform cmd = None then cmd\<lparr>CommandPlatform := platform rs\<rparr> else cmd)) \<and>
       InputRootDigest action = GetProto X (EmptyDigest X df))"
  proof (cases "isl ?gen \<or> length (RefUris ref) > 1")
    case True
    with run q d show ?thesis
      by (auto simp: assetReferenceToAction_def Let_def tryR_def split: sum.split_asm)
  next
    case False
    with run q d obtain uri where uri: "RefUris ref = [uri]"
      by (cases "RefUris ref"; cases "tl (RefUris ref)")
         (auto simp: assetReferenceToAction_def Let_def tryR_def)
    with False run q d obtain cmd where cmd: "projr ?gen uri = Done cmd"
      by (auto simp: assetReferenceToAction_def Let_def tryR_def split: run.split_asm)
    let ?c = "if CommandPlatform cmd = None then cmd\<lparr>CommandPlatform := platform rs\<rparr> else cmd"
    from False run q d uri cmd obtain cb cd where "ProtoSerialise X (MCommand ?c) df = Inr (cb, cd)"
      "CommandDigest action = GetProto X cd" "InputRootDigest action = GetProto X (EmptyDigest X df)"
      "extra = [MAssetReference ?qr, MDirectory (?dir qd), MCommand ?c]"
      by (auto simp: assetReferenceToAction_def Let_def tryR_def split: sum.split_asm simp del: if_split)
    with False uri cmd show ?thesis
      by (intro exI [of _ ?c] exI [of _ cb] exI [of _ cd]) auto
  qed
  then obtain command cb cd where c: "ProtoSerialise X (MCommand command) df = Inr (cb, cd)" "CommandDigest action = GetProto X cd"
    and extra: "extra = [MAssetReference ?qr, MDirectory (?dir qd), MCommand command]"
    and root: "if isl ?gen \<or> length (RefUris ref) > 1
     then Arguments command = RefUris ref \<and> InputRootDigest action = GetProto X dd
     else (\<exists>uri cmd. RefUris ref = [uri] \<and> projr ?gen uri = Done cmd \<and>
         command = (if CommandPlatform cmd = None then cmd\<lparr>CommandPlatform := platform rs\<rparr> else cmd)) \<and>
       InputRootDigest action = GetProto X (EmptyDigest X df)" by blast
  have P: "P qd" "P dd" "P cd"
    using stored [of "MAssetReference ?qr"] stored [of "MDirectory (?dir qd)"] stored [of "MCommand command"]
      message_digestI [OF q] message_digestI [OF d] message_digestI [OF c(1)] by (auto simp: extra)
  obtain ad where "message_digest X df (MAction action) = Some ad" "P ad" using stored [of "MAction action"] by auto
  note digests = this message_digestI [OF q] message_digestI [OF d] message_digestI [OF c(1)] P c(2)
  have "case ?gen of
      Inr generator \<Rightarrow>
        if length (RefUris ref) > 1 then Arguments command = RefUris ref \<and> InputRootDigest action = GetProto X dd
        else (\<exists>uri cmd. RefUris ref = [uri] \<and> generator uri = Done cmd \<and>
            command = (if CommandPlatform cmd = None then cmd\<lparr>CommandPlatform := platform rs\<rparr> else cmd)) \<and>
          InputRootDigest action = GetProto X (EmptyDigest X df)
    | Inl _ \<Rightarrow> Arguments command = RefUris ref \<and> InputRootDigest action = GetProto X dd"
    using root by (cases ?gen) (simp_all split del: if_split cong: if_cong)
  with digests show ?thesis
    unfolding action_objects_def
    by - (rule exI [of _ ad], rule exI [of _ command], rule exI [of _ cd], rule exI [of _ qd], rule exI [of _ dd],
      intro conjI, assumption+)
qed

lemma ac_Put_integrity:
  assumes keeps: "keeps_blobs X (contentAddressableStorage rs) cas" and sep: "separate (actionCache rs) cas"
    and run: "actionCacheAssetStore_Put X rs n ref a df w = (Done (Inr u), w')"
    and ref: "assetReferenceToAction X rs ref df = Done (Inr (action, objs))"
    and m: "m \<in> set (MAction action # objs)"
  shows "\<exists>d. message_digest X df m = Some d \<and> d \<in> dom (cas w')"
proof -
  let ?put = "\<lambda>obj. tryM (ret (ProtoSerialise X obj df)) (\<lambda>(buf, digest).
       checkM (call (BlobPut (contentAddressableStorage rs) digest buf)) (ret (Inr ())))"
  let ?Q = "\<lambda>m w. \<exists>d. message_digest X df m = Some d \<and> d \<in> dom (cas w)"
  from run ref obtain apb ad w1 w2 r w3 where
    ad: "ProtoSerialise X (MAction action) df = Inr (apb, ad)"
    and put1: "BlobPut (contentAddressableStorage rs) ad apb w = (None, w1)"
    and put2: "forM objs ?put w1 = (Done (Inr ()), w2)"
    and result: "assetToActionResult X rs n a df w2 = (Done (Inr r), w3)"
    and put3: "BlobPut (actionCache rs) ad (NewProtoBufferFromProto X (MActionResult r)) w3 = (None, w')"
    by (auto elim!: ac_Put_success)
  have one: "message_digest X df x = Some (snd (projr (ProtoSerialise X x df))) \<and>
      cas v2 = (cas v1)(snd (projr (ProtoSerialise X x df)) \<mapsto> fst (projr (ProtoSerialise X x df)))"
    if "?put x v1 = (Done (Inr ()), v2)" for x v1 v2
    using that
    by (auto simp: message_digest_def elim!: tryM_InrE checkM_InrE dest!: keeps_blobs_Put [OF keeps]
        split: prod.split_asm simp del: checkM_call)
  have "m = MAction action \<Longrightarrow> ?Q m w1"
    using ad keeps_blobs_Put [OF keeps put1] by (auto simp: message_digest_def)
  then have "?Q m w2"
    using forM_establishes [OF put2, where Q = ?Q] m one by (smt (verit) dom_fun_upd insertCI option.distinct(1) set_ConsD)
  moreover have "dom (cas w2) \<subseteq> dom (cas w3)" by (rule assetToActionResult_cas [OF keeps result])
  moreover have "cas w' = cas w3" using sep put3 unfolding separate_def by (metis snd_conv)
  ultimately show ?thesis by (metis subsetD)
qed

subsection \<open>What a \<open>Put\<close> changes, whatever its outcome\<close>

text \<open>\<open>changes view Q m\<close>: \<open>m\<close> leaves the view alone or changes it as \<open>Q\<close> says.\<close>

definition changes :: "('w \<Rightarrow> 'v) \<Rightarrow> ('v \<Rightarrow> 'v \<Rightarrow> bool) \<Rightarrow> ('w, 'a) comp \<Rightarrow> bool" where
  "changes view Q m \<longleftrightarrow> (\<forall>w r w'. m w = (r, w') \<longrightarrow> view w' = view w \<or> Q (view w) (view w'))"

lemma changes_ret: "changes view Q (ret a)"
  by (simp add: changes_def)

lemma changes_bindM:
  assumes m: "\<And>v. preserves (\<lambda>w. view w = v) m"
    and k: "\<And>x w w1. m w = (Done x, w1) \<Longrightarrow> changes view Q (k x)"
  shows "changes view Q (bindM m k)"
  unfolding changes_def
proof (intro allI impI)
  fix w r w'
  assume run: "bindM m k w = (r, w')"
  obtain r1 w1 where m1: "m w = (r1, w1)" by fastforce
  from preservesD [OF m m1 refl] have same: "view w1 = view w" .
  show "view w' = view w \<or> Q (view w) (view w')"
  proof (cases r1)
    case (Done x)
    with run m1 have "k x w1 = (r, w')" by (simp add: bindM_Done)
    with k [of w x w1] m1 Done same show ?thesis unfolding changes_def by metis
  qed (use run m1 same in \<open>simp_all add: bindM_def\<close>)
qed

lemma changes_tryM:
  assumes "\<And>v. preserves (\<lambda>w. view w = v) m"
    and "\<And>x w w1. m w = (Done (Inr x), w1) \<Longrightarrow> changes view Q (k x)"
  shows "changes view Q (tryM m k)"
  unfolding tryM_def
proof (rule changes_bindM [OF assms(1)])
  fix x w w1
  assume "m w = (Done x, w1)"
  with assms(2) show "changes view Q (case x of Inl e \<Rightarrow> ret (Inl e) | Inr a \<Rightarrow> k a)"
    by (cases x) (simp_all add: changes_ret del: ret_run)
qed

lemma changes_checkM:
  "(\<And>v. preserves (\<lambda>w. view w = v) m) \<Longrightarrow> changes view Q k \<Longrightarrow> changes view Q (checkM m k)"
  unfolding checkM_def
  by (rule changes_bindM) (auto intro: changes_ret split: option.split simp del: ret_run)

text \<open>The one entry a \<open>Put\<close> may write.\<close>

definition ac_entry ::
  "('i, 'f, 'd, 'b, 'w) ext \<Rightarrow> ('d, 'b, 'w) actionCacheAssetStore \<Rightarrow> 'f \<Rightarrow> AssetReference \<Rightarrow> Asset \<Rightarrow>
     ('d \<rightharpoonup> 'b) \<Rightarrow> ('d \<rightharpoonup> 'b) \<Rightarrow> bool" where
  "ac_entry X rs df ref a v v' \<longleftrightarrow> (AssetTypeOf a = BLOB \<or> AssetTypeOf a = DIRECTORY) \<and>
     (\<exists>ad td. action_key X rs df ref = Some ad \<and>
        v' = v(ad \<mapsto> NewProtoBufferFromProto X (MActionResult (result_of a td))))"

lemma ac_Put_changes:
  assumes ok: "ac_ok (X, rs, n, contents)" and refuses: "refusals_keep (actionCache rs) contents"
  shows "changes contents (ac_entry X rs df ref a) (actionCacheAssetStore_Put X rs n ref a df)"
proof -
  from ok have keeps: "keeps_blobs X (actionCache rs) contents"
    and sep: "separate (contentAddressableStorage rs) contents" by (simp_all add: ac_config_simps)
  have last: "changes contents (ac_entry X rs df ref a) (checkM (call (BlobPut (actionCache rs) ad
      (NewProtoBufferFromProto X (MActionResult r)))) (ret (Inr ())))"
    if "action_key X rs df ref = Some ad" "assetToActionResult X rs n a df w = (Done (Inr r), w1)" for ad r w w1
  proof -
    from assetToActionResult_Inr [OF that(2)] obtain td where r: "r = result_of a td"
      and type: "AssetTypeOf a = BLOB \<or> AssetTypeOf a = DIRECTORY" by blast
    have "contents w' = contents w \<or> contents w' = (contents w)(ad \<mapsto> NewProtoBufferFromProto X (MActionResult r))"
      if "BlobPut (actionCache rs) ad (NewProtoBufferFromProto X (MActionResult r)) w = (e, w')" for w e w'
      using that refuses by (cases e) (auto dest: keeps_blobs_Put [OF keeps] refusals_keepD)
    with that(1) type r show ?thesis
      unfolding changes_def ac_entry_def by (auto split: prod.splits option.splits)
  qed
  show ?thesis
    unfolding actionCacheAssetStore_Put_def case_prod_beta
    by (intro changes_tryM changes_checkM last preserves_lift preserves_ret
        separate_preserves [OF sep] assetToActionResult_separate [OF sep]
        put_objects_preserves [unfolded case_prod_beta])
       (auto simp: action_key_def action_digest_def)
qed

fun ac_settled :: "('i, 'f, 'd, 'b, 'w) ac_config \<Rightarrow> bool" where
  "ac_settled (X, rs, n, contents) \<longleftrightarrow> refusals_keep (actionCache rs) contents \<and> faithful_buffers X"

fun ac_same_key :: "('i, 'f, 'd, 'b, 'w) ac_config \<Rightarrow> 'f \<Rightarrow> AssetReference \<Rightarrow> 'f \<Rightarrow> AssetReference \<Rightarrow> bool" where
  "ac_same_key (X, rs, n, contents) df ref df' ref' \<longleftrightarrow>
     action_key X rs df ref \<noteq> None \<and> action_key X rs df' ref' = action_key X rs df ref"

lemma actionResultToAsset_only:
  assumes "actionResultToAsset X (result_of a td) = Done (Inr b)" "AssetTypeOf a = BLOB \<or> AssetTypeOf a = DIRECTORY"
  shows "b = a\<lparr>ExpireAt := Some (getDefaultTimestamp X)\<rparr>"
  using assms by (auto simp: actionResultToAsset_def result_of_def Let_def no_digest_def split: if_split_asm)

lemma ac_Put_any:
  assumes "ac_ok c" "ac_settled c" "Put (ac_store c) ref a df w = (r, w')" "ac_view c w' df' ref' = Some b"
  shows "ac_view c w df' ref' = Some b \<or> ac_same_key c df ref df' ref' \<and> b = ac_image c a"
proof -
  obtain X rs n contents where c: "c = (X, rs, n, contents)" by (cases c)
  from assms(1,2) have settled: "refusals_keep (actionCache rs) contents" "faithful_buffers X"
    and ok: "ac_ok (X, rs, n, contents)" by (simp_all add: c)
  have only: "b' = ac_image c a"
    if "result_asset X lim (NewProtoBufferFromProto X (MActionResult (result_of a td))) = Some b'"
      "AssetTypeOf a = BLOB \<or> AssetTypeOf a = DIRECTORY" for lim td b'
  proof -
    from that(1) obtain r where r: "ToProto X (NewProtoBufferFromProto X (MActionResult (result_of a td))) KActionResult lim
        = Inr (MActionResult r)" and "actionResultToAsset X r = Done (Inr b')"
      by (auto simp: result_asset_def split: sum.split_asm message.split_asm run.split_asm)
    moreover from faithful_buffersD [OF settled(2) r] have "r = result_of a td" by simp
    ultimately show ?thesis using actionResultToAsset_only that(2) by (fastforce simp: c ac_config_simps)
  qed
  from ac_Put_changes [OF ok settled(1)] assms(3)
  have "contents w' = contents w \<or> ac_entry X rs df ref a (contents w) (contents w')"
    unfolding changes_def c ac_store_record by blast
  then show ?thesis
  proof
    assume "ac_entry X rs df ref a (contents w) (contents w')"
    then obtain ad td where key: "action_key X rs df ref = Some ad"
      and type: "AssetTypeOf a = BLOB \<or> AssetTypeOf a = DIRECTORY"
      and w': "contents w' = (contents w)(ad \<mapsto> NewProtoBufferFromProto X (MActionResult (result_of a td)))"
      unfolding ac_entry_def by blast
    from assms(4) key w' only [OF _ type] show ?thesis
      by (auto simp: c ac_config_simps bind_eq_Some_conv split: if_split_asm)
  qed (use assms(4) in \<open>simp add: c ac_config_simps\<close>)
qed

lemma ac_Put_touches:
  assumes "ac_ok c" "ac_settled c" "ac_fits c a" "Put (ac_store c) ref a df w = (r, w')"
  shows "ac_view c w' df' ref' = ac_view c w df' ref' \<or>
    ac_same_key c df ref df' ref' \<and> ac_view c w' df' ref' = Some (ac_image c a)"
proof -
  obtain X rs n contents where c: "c = (X, rs, n, contents)" by (cases c)
  from assms(1,2) have settled: "refusals_keep (actionCache rs) contents"
    and ok: "ac_ok (X, rs, n, contents)" by (simp_all add: c)
  from ac_Put_changes [OF ok settled] assms(4)
  have "contents w' = contents w \<or> ac_entry X rs df ref a (contents w) (contents w')"
    unfolding changes_def c ac_store_record by blast
  then show ?thesis
  proof
    assume "contents w' = contents w"
    then show ?thesis unfolding c by (metis ac_view_same)
  next
    assume "ac_entry X rs df ref a (contents w) (contents w')"
    then obtain ad td where key: "action_key X rs df ref = Some ad"
      and type: "AssetTypeOf a = BLOB \<or> AssetTypeOf a = DIRECTORY"
      and w': "contents w' = (contents w)(ad \<mapsto> NewProtoBufferFromProto X (MActionResult (result_of a td)))"
      unfolding ac_entry_def by blast
    have "result_asset X (maximumMessageSize rs) (NewProtoBufferFromProto X (MActionResult (result_of a td))) =
        Some (ac_image c a)"
      using assms(3) type
      by (auto simp: c ac_config_simps result_asset_def buffers_roundtripD actionResultToAsset_result_of)
    with key w' show ?thesis
      by (cases "action_key X rs df' ref' = Some ad") (auto simp: c ac_config_simps split: bind_splits)
  qed
qed

interpretation kacs: keyed_asset_store ac_store ac_ok ac_view ac_image ac_fits "\<lambda>_ _ _. True" ac_settled ac_same_key
  by unfold_locales (rule ac_Put_any ac_Put_touches; assumption)+

interpretation kaacs: keyed_asset_store "auth_store ac_store" "auth_ok ac_ok ac_view" "auth_inner ac_view"
  "auth_inner ac_image" "auth_inner ac_fits" "auth_admits (\<lambda>_ _ _. True)"
  "auth_inner ac_settled" "auth_inner ac_same_key"
  by (rule kacs.authorized_keyed)

end
