(* ===== verification/GateFetchers.thy ===== *)
theory GateFetchers
  imports Fetchers
begin

section \<open>The fetchers that guard (pkg/fetch/validating_fetcher.go, authorizing_fetcher.go)\<close>

text \<open>
  The validating fetcher refuses requests without a URI and requests with a qualifier the
  fetcher behind it does not support. The authorizing fetcher asks an authorizer about the
  instance name. Both are gates; the locale \<open>fetch_gate\<close> is interpreted on each.
\<close>

subsection \<open>validating_fetcher.go\<close>

definition validatingFetcher_CheckQualifiers :: "'w Fetcher \<Rightarrow> Set \<Rightarrow> Set" where
  "validatingFetcher_CheckQualifiers vf qualifiers = CheckQualifiers vf qualifiers"

definition violations :: "('i, 'f, 'd, 'b, 'w) ext \<Rightarrow> Set \<Rightarrow> (string \<times> string) list" where
  "violations X unsupported =
     foldl (\<lambda>vs q. vs @ [(''qualifiers.name'', [CHR 0x22] @ q @ [CHR 0x22] @ '' not supported'')])
       [] (RangeKeys X (Mapping.keys unsupported))"

definition validatingFetcher_FetchBlob ::
  "('i, 'f, 'd, 'b, 'w) ext \<Rightarrow> 'w Fetcher \<Rightarrow> FetchBlobRequest \<Rightarrow>
     ('w, FetchBlobResponse reply) comp" where
  "validatingFetcher_FetchBlob X vf req =
    (if length (Uris req) = 0 then
       ret (None, Some (StatusError code_InvalidArgument
         ''FetchBlob does not support requests without any URIs specified.''))
     else let unsupported = validatingFetcher_CheckQualifiers vf (QualifiersToSet (Qualifiers req))
     in if \<not> IsEmpty unsupported then
       (case WithDetails X \<lparr>status_Code = code_InvalidArgument,
            status_Message = ''Unsupported Qualifier(s) found in request.''\<rparr> (violations X unsupported) of
          Inl err \<Rightarrow> ret (None, Some err)
        | Inr s_Err \<Rightarrow> ret (None, Some s_Err))
     else FetchBlob vf req)"

definition validatingFetcher_FetchDirectory ::
  "('i, 'f, 'd, 'b, 'w) ext \<Rightarrow> 'w Fetcher \<Rightarrow> FetchDirectoryRequest \<Rightarrow>
     ('w, FetchDirectoryResponse reply) comp" where
  "validatingFetcher_FetchDirectory X vf req =
    (if length (Uris req) = 0 then
       ret (None, Some (StatusError code_InvalidArgument
         ''FetchDirectory does not support requests without any URIs specified.''))
     else let unsupported = validatingFetcher_CheckQualifiers vf (QualifiersToSet (Qualifiers req))
     in if \<not> IsEmpty unsupported then
       (case WithDetails X \<lparr>status_Code = code_InvalidArgument,
            status_Message = ''Unsupported Qualifier(s) found in request.''\<rparr> (violations X unsupported) of
          Inl err \<Rightarrow> ret (None, Some err)
        | Inr s_Err \<Rightarrow> ret (None, Some s_Err))
     else FetchDirectory vf req)"

definition NewValidatingFetcher :: "('i, 'f, 'd, 'b, 'w) ext \<Rightarrow> 'w Fetcher \<Rightarrow> 'w Fetcher" where
  "NewValidatingFetcher X fetcher =
     \<lparr>FetchBlob = validatingFetcher_FetchBlob X fetcher,
      FetchDirectory = validatingFetcher_FetchDirectory X fetcher,
      CheckQualifiers = validatingFetcher_CheckQualifiers fetcher\<rparr>"

text \<open>The check itself.\<close>

definition unsupported_error :: "('i, 'f, 'd, 'b, 'w) ext \<Rightarrow> Set \<Rightarrow> error" where
  "unsupported_error X unsupported =
     (case WithDetails X \<lparr>status_Code = code_InvalidArgument,
         status_Message = ''Unsupported Qualifier(s) found in request.''\<rparr> (violations X unsupported) of
        Inl err \<Rightarrow> err | Inr err \<Rightarrow> err)"

definition validation ::
  "('i, 'f, 'd, 'b, 'w) ext \<Rightarrow> bool \<Rightarrow> 'w Fetcher \<Rightarrow> FetchRequest \<Rightarrow> ('w, error option) comp" where
  "validation X d f req =
     ret (if Uris req = [] then
            Some (StatusError code_InvalidArgument
              ((if d then ''FetchDirectory'' else ''FetchBlob'') @
               '' does not support requests without any URIs specified.''))
          else let unsupported = CheckQualifiers f (QualifiersToSet (Qualifiers req))
          in if IsEmpty unsupported then None else Some (unsupported_error X unsupported))"

interpretation vf: fetch_gate NewValidatingFetcher validation
  by unfold_locales
     (auto simp: NewValidatingFetcher_def validatingFetcher_FetchBlob_def
       validatingFetcher_FetchDirectory_def validatingFetcher_CheckQualifiers_def validation_def
       unsupported_error_def gated_def Let_def fun_eq_iff split: sum.split)

lemma validation_admits:
  "validation X d f req w = (Done None, w') \<longleftrightarrow>
     w' = w \<and> Uris req \<noteq> [] \<and> IsEmpty (CheckQualifiers f (QualifiersToSet (Qualifiers req)))"
  by (auto simp: validation_def Let_def)

lemma violations_map:
  "violations X u = map (\<lambda>q. (''qualifiers.name'', [CHR 0x22] @ q @ [CHR 0x22] @ '' not supported''))
     (RangeKeys X (Mapping.keys u))"
proof -
  have "foldl (\<lambda>vs q. vs @ [g q]) vs qs = vs @ map g qs" for g :: "string \<Rightarrow> string \<times> string" and vs qs
    by (induction qs arbitrary: vs) auto
  then show ?thesis by (simp add: violations_def)
qed

subsection \<open>authorizing_fetcher.go\<close>

record ('i, 'w) AuthorizingFetcher =
  authorizedFetcher :: "'w Fetcher"
  authorizer :: "('i, 'w) Authorizer"

definition AuthorizingFetcher_FetchBlob ::
  "('i, 'f, 'd, 'b, 'w) ext \<Rightarrow> ('i, 'w) AuthorizingFetcher \<Rightarrow> FetchBlobRequest \<Rightarrow>
     ('w, FetchBlobResponse reply) comp" where
  "AuthorizingFetcher_FetchBlob X af req =
    (case NewInstanceName X (InstanceName req) of
       Inl err \<Rightarrow> ret (None, Some err)
     | Inr instanceName \<Rightarrow>
         bindM (call (AuthorizeSingleInstanceName (authorizer af) instanceName)) (\<lambda>err.
         case err of
           Some err \<Rightarrow> ret (None, Some err)
         | None \<Rightarrow> FetchBlob (authorizedFetcher af) req))"

definition AuthorizingFetcher_FetchDirectory ::
  "('i, 'f, 'd, 'b, 'w) ext \<Rightarrow> ('i, 'w) AuthorizingFetcher \<Rightarrow> FetchDirectoryRequest \<Rightarrow>
     ('w, FetchDirectoryResponse reply) comp" where
  "AuthorizingFetcher_FetchDirectory X af req =
    (case NewInstanceName X (InstanceName req) of
       Inl err \<Rightarrow> ret (None, Some err)
     | Inr instanceName \<Rightarrow>
         bindM (call (AuthorizeSingleInstanceName (authorizer af) instanceName)) (\<lambda>err.
         case err of
           Some err \<Rightarrow> ret (None, Some err)
         | None \<Rightarrow> FetchDirectory (authorizedFetcher af) req))"

text \<open>\<open>CheckQualifiers\<close> is the embedded fetcher's.\<close>

definition NewAuthorizingFetcher ::
  "('i, 'f, 'd, 'b, 'w) ext \<Rightarrow> 'w Fetcher \<Rightarrow> ('i, 'w) Authorizer \<Rightarrow> 'w Fetcher" where
  "NewAuthorizingFetcher X f a =
    (let af = \<lparr>authorizedFetcher = f, authorizer = a\<rparr>
     in \<lparr>FetchBlob = AuthorizingFetcher_FetchBlob X af,
         FetchDirectory = AuthorizingFetcher_FetchDirectory X af,
         CheckQualifiers = CheckQualifiers f\<rparr>)"

fun authorization ::
  "('i, 'f, 'd, 'b, 'w) ext \<times> ('i, 'w) Authorizer \<Rightarrow> bool \<Rightarrow> 'w Fetcher \<Rightarrow> FetchRequest \<Rightarrow>
     ('w, error option) comp" where
  "authorization (X, A) d f req =
     (case NewInstanceName X (InstanceName req) of
        Inl err \<Rightarrow> ret (Some err)
      | Inr i \<Rightarrow> call (AuthorizeSingleInstanceName A i))"

fun authorized_fetcher ::
  "('i, 'f, 'd, 'b, 'w) ext \<times> ('i, 'w) Authorizer \<Rightarrow> 'w Fetcher \<Rightarrow> 'w Fetcher" where
  "authorized_fetcher (X, A) f = NewAuthorizingFetcher X f A"

interpretation af: fetch_gate authorized_fetcher authorization
  by unfold_locales
     (auto simp: NewAuthorizingFetcher_def AuthorizingFetcher_FetchBlob_def
       AuthorizingFetcher_FetchDirectory_def gated_def Let_def fun_eq_iff split: sum.split option.split)

end
