(* ===== verification/ObserverFetchers.thy ===== *)
theory ObserverFetchers
  imports Fetchers
begin

section \<open>The fetchers that observe (pkg/fetch/logging_fetcher.go, metrics_fetcher.go)\<close>

text \<open>
  The logging fetcher writes a line before and after each fetch, the metrics fetcher a
  duration after it and, for blobs, the size of what was fetched. Both read fields of the
  response: the metrics fetcher dereferences its status and its blob digest, and panics
  where one of them is nil.
\<close>

subsection \<open>logging_fetcher.go\<close>

text \<open>\<open>resp.Status.GetCode()\<close>: the getter accepts a nil status, but \<open>resp\<close> itself must
  not be nil.\<close>

definition GetCode :: "Status option \<Rightarrow> Code" where
  "GetCode s = (case s of None \<Rightarrow> 0 | Some s \<Rightarrow> status_Code s)"

definition logCompleted ::
  "('i, 'f, 'd, 'b, 'w) ext \<Rightarrow> FetchRequest \<Rightarrow> FetchResponse reply \<Rightarrow> ('w, FetchResponse reply) comp" where
  "logCompleted X req = (\<lambda>(resp, err).
     case err of
       None \<Rightarrow>
         (case resp of
            None \<Rightarrow> panicM NilPointer
          | Some r \<Rightarrow>
              bindM (call (LogPrintf X (LogCompleted (mset (Uris req)) (GetCode (ResponseStatus r))))) (\<lambda>_.
              ret (resp, err)))
     | Some e \<Rightarrow>
         bindM (call (LogPrintf X (LogCompleted (mset (Uris req)) (StatusCode X err)))) (\<lambda>_. ret (resp, err)))"

definition loggingFetcher_FetchBlob ::
  "('i, 'f, 'd, 'b, 'w) ext \<Rightarrow> 'w Fetcher \<Rightarrow> FetchBlobRequest \<Rightarrow>
     ('w, FetchBlobResponse reply) comp" where
  "loggingFetcher_FetchBlob X lf req =
     bindM (call (LogPrintf X (LogFetchingBlob (Uris req) (Qualifiers req)))) (\<lambda>_.
     bindM (FetchBlob lf req) (logCompleted X req))"

definition loggingFetcher_FetchDirectory ::
  "('i, 'f, 'd, 'b, 'w) ext \<Rightarrow> 'w Fetcher \<Rightarrow> FetchDirectoryRequest \<Rightarrow>
     ('w, FetchDirectoryResponse reply) comp" where
  "loggingFetcher_FetchDirectory X lf req =
     bindM (call (LogPrintf X (LogFetchingDirectory (Uris req) (Qualifiers req)))) (\<lambda>_.
     bindM (FetchDirectory lf req) (logCompleted X req))"

definition loggingFetcher_CheckQualifiers :: "'w Fetcher \<Rightarrow> Set \<Rightarrow> Set" where
  "loggingFetcher_CheckQualifiers lf qualifiers = CheckQualifiers lf qualifiers"

definition NewLoggingFetcher :: "('i, 'f, 'd, 'b, 'w) ext \<Rightarrow> 'w Fetcher \<Rightarrow> 'w Fetcher" where
  "NewLoggingFetcher X fetcher =
     \<lparr>FetchBlob = loggingFetcher_FetchBlob X fetcher,
      FetchDirectory = loggingFetcher_FetchDirectory X fetcher,
      CheckQualifiers = loggingFetcher_CheckQualifiers fetcher\<rparr>"

fun logging_before ::
  "('i, 'f, 'd, 'b, 'w) ext \<Rightarrow> bool \<Rightarrow> FetchRequest \<Rightarrow> 'w \<Rightarrow> 'w" where
  "logging_before X d req w = snd (LogPrintf X
     (if d then LogFetchingDirectory (Uris req) (Qualifiers req)
      else LogFetchingBlob (Uris req) (Qualifiers req)) w)"

lemma logCompleted_Some [simp]:
  "logCompleted X req (Some r, None) w =
     (Done (Some r, None), snd (LogPrintf X (LogCompleted (mset (Uris req)) (GetCode (ResponseStatus r))) w))"
  by (simp add: logCompleted_def)

lemma logCompleted_error [simp]:
  "logCompleted X req (r, Some e) w =
     (Done (r, Some e), snd (LogPrintf X (LogCompleted (mset (Uris req)) (StatusCode X (Some e))) w))"
  by (simp add: logCompleted_def)

lemma logCompleted_nil [simp]: "logCompleted X req (None, None) w = (Panic NilPointer, w)"
  by (simp add: logCompleted_def)

lemma logCompleted_same: "logCompleted X req p w = (Done q, w') \<Longrightarrow> q = p"
  by (cases p; cases "fst p"; cases "snd p") auto

lemmas logging_defs = NewLoggingFetcher_def loggingFetcher_FetchBlob_def
  loggingFetcher_FetchDirectory_def loggingFetcher_CheckQualifiers_def

interpretation lf: fetch_observer NewLoggingFetcher logging_before "\<lambda>_ _. True" log_keeps
  by unfold_locales
     (auto simp: logging_defs log_keeps_def bindM_Done fun_eq_iff)

subsection \<open>metrics_fetcher.go\<close>

text \<open>The label of the first \<open>resource_type\<close> qualifier.\<close>

fun fetch_resourceTypeLabel :: "Qualifier list \<Rightarrow> string" where
  "fetch_resourceTypeLabel [] = ''N/A''"
| "fetch_resourceTypeLabel (q # qs) =
     (if Name q = ''resource_type'' then Value q else fetch_resourceTypeLabel qs)"

definition metricsFetcher_updateDurationSeconds ::
  "('i, 'f, 'd, 'b, 'w) ext \<Rightarrow> string \<Rightarrow> Code \<Rightarrow> time \<Rightarrow> Qualifier list \<Rightarrow> ('w, unit) comp" where
  "metricsFetcher_updateDurationSeconds X vec code timeStart qualifiers =
     (let resourceType = fetch_resourceTypeLabel qualifiers
      in bindM (call (TimeNow X)) (\<lambda>now.
         call (Observe X vec (Some code) resourceType (instant now - instant timeStart))))"

definition metricsFetcher_updateBlobSizeBytes ::
  "('i, 'f, 'd, 'b, 'w) ext \<Rightarrow> string \<Rightarrow> int \<Rightarrow> Qualifier list \<Rightarrow> ('w, unit) comp" where
  "metricsFetcher_updateBlobSizeBytes X vec blobSize qualifiers =
     (let resourceType = fetch_resourceTypeLabel qualifiers
      in call (Observe X vec None resourceType blobSize))"

definition metricsFetcher_FetchBlob ::
  "('i, 'f, 'd, 'b, 'w) ext \<Rightarrow> 'w Fetcher \<Rightarrow> FetchBlobRequest \<Rightarrow>
     ('w, FetchBlobResponse reply) comp" where
  "metricsFetcher_FetchBlob X mf req =
     bindM (call (TimeNow X)) (\<lambda>timeStart.
     bindM (FetchBlob mf req) (\<lambda>(resp, err).
     if err \<noteq> None then
       bindM (metricsFetcher_updateDurationSeconds X ''fetchBlobDurationSeconds'' (StatusCode X err)
         timeStart (Qualifiers req)) (\<lambda>_.
       ret (None, err))
     else
       bindM (deref resp) (\<lambda>r.
       bindM (deref (ResponseStatus r)) (\<lambda>st.
       bindM (metricsFetcher_updateDurationSeconds X ''fetchBlobDurationSeconds'' (status_Code st)
         timeStart (Qualifiers req)) (\<lambda>_.
       bindM (deref (ResponseDigest r)) (\<lambda>digest.
       bindM (metricsFetcher_updateBlobSizeBytes X ''fetchBlobBlobSizeBytes'' (SizeBytes digest)
         (Qualifiers req)) (\<lambda>_.
       ret (resp, err))))))))"

definition metricsFetcher_FetchDirectory ::
  "('i, 'f, 'd, 'b, 'w) ext \<Rightarrow> 'w Fetcher \<Rightarrow> FetchDirectoryRequest \<Rightarrow>
     ('w, FetchDirectoryResponse reply) comp" where
  "metricsFetcher_FetchDirectory X mf req =
     bindM (call (TimeNow X)) (\<lambda>timeStart.
     bindM (FetchDirectory mf req) (\<lambda>(resp, err).
     if err \<noteq> None then
       bindM (metricsFetcher_updateDurationSeconds X ''fetchDirectoryDurationSeconds'' (StatusCode X err)
         timeStart (Qualifiers req)) (\<lambda>_.
       ret (None, err))
     else
       bindM (deref resp) (\<lambda>r.
       bindM (deref (ResponseStatus r)) (\<lambda>st.
       bindM (metricsFetcher_updateDurationSeconds X ''fetchDirectoryDurationSeconds'' (status_Code st)
         timeStart (Qualifiers req)) (\<lambda>_.
       ret (resp, err))))))"

definition metricsFetcher_CheckQualifiers :: "'w Fetcher \<Rightarrow> Set \<Rightarrow> Set" where
  "metricsFetcher_CheckQualifiers mf qualifiers = CheckQualifiers mf qualifiers"

definition NewMetricsFetcher :: "('i, 'f, 'd, 'b, 'w) ext \<Rightarrow> 'w Fetcher \<Rightarrow> 'w Fetcher" where
  "NewMetricsFetcher X fetcher =
     \<lparr>FetchBlob = metricsFetcher_FetchBlob X fetcher,
      FetchDirectory = metricsFetcher_FetchDirectory X fetcher,
      CheckQualifiers = metricsFetcher_CheckQualifiers fetcher\<rparr>"

fun metrics_before ::
  "('i, 'f, 'd, 'b, 'w) ext \<Rightarrow> bool \<Rightarrow> FetchRequest \<Rightarrow> 'w \<Rightarrow> 'w" where
  "metrics_before X d req w = snd (TimeNow X w)"

text \<open>The responses the metrics fetcher can read.\<close>

fun metrics_plain :: "bool \<Rightarrow> FetchResponse \<Rightarrow> bool" where
  "metrics_plain d r \<longleftrightarrow> ResponseStatus r \<noteq> None \<and> (d \<or> ResponseDigest r \<noteq> None)"

definition metrics_quiet :: "('i, 'f, 'd, 'b, 'w) ext \<Rightarrow> ('w \<Rightarrow> 'v) \<Rightarrow> bool" where
  "metrics_quiet X view \<longleftrightarrow> clock_keeps X view \<and> log_keeps X view"

lemmas metrics_defs = NewMetricsFetcher_def metricsFetcher_FetchBlob_def
  metricsFetcher_FetchDirectory_def metricsFetcher_CheckQualifiers_def
  metricsFetcher_updateDurationSeconds_def metricsFetcher_updateBlobSizeBytes_def

interpretation mf: fetch_observer NewMetricsFetcher metrics_before metrics_plain metrics_quiet
  by unfold_locales
     (auto simp: metrics_defs metrics_quiet_def log_keeps_def clock_keeps_def bindM_Done bindM_assoc
       Let_def fun_eq_iff)

text \<open>A blob response without a digest makes the metrics fetcher panic.\<close>

lemma metrics_nil_digest:
  assumes "FetchBlob f req (metrics_before X False req w) = (Done (Some r, None), w1)"
    and "ResponseStatus r = Some st" "ResponseDigest r = None"
  shows "fst (FetchBlob (NewMetricsFetcher X f) req w) = Panic NilPointer"
  using assms by (simp add: metrics_defs bindM_Done bindM_assoc Let_def)

end
