(* ===== verification/GoEncodings.thy ===== *)
theory GoEncodings
  imports GoStrings
begin

section \<open>Numbers and bytes in text: strconv, encoding/hex, encoding/base64\<close>

text \<open>
  The parts of Go's standard library that \<open>http_fetcher.go\<close> reads qualifiers with:
  \<open>strconv.ParseInt(s, 10, 64)\<close>, \<open>hex.EncodeToString\<close> and
  \<open>base64.StdEncoding.DecodeString\<close>, errors included. The encoder of base64, which the
  code does not call, is here as the reference the decoder is proved against.
\<close>

subsection \<open>strconv.ParseInt\<close>

definition digit_value :: "char \<Rightarrow> nat option" where
  "digit_value c = (let n = of_char c :: nat in if 48 \<le> n \<and> n \<le> 57 then Some (n - 48) else None)"

text \<open>The loop of \<open>ParseUint\<close>, with the value read so far: the next digit must neither
  overflow the multiplication by the base nor the addition, in 64 bits.\<close>

primrec ParseUintFrom :: "nat \<Rightarrow> string \<Rightarrow> string + nat" where
  "ParseUintFrom n [] = Inr n"
| "ParseUintFrom n (c # s) =
     (case digit_value c of
        None \<Rightarrow> Inl ''invalid syntax''
      | Some d \<Rightarrow>
          if 2 ^ 64 div 10 + 1 \<le> n \<or> 2 ^ 64 \<le> n * 10 + d then Inl ''value out of range''
          else ParseUintFrom (n * 10 + d) s)"

definition ParseUint :: "string \<Rightarrow> string + nat" where
  "ParseUint s = (if s = [] then Inl ''invalid syntax'' else ParseUintFrom 0 s)"

definition ParseInt :: "string \<Rightarrow> string + int" where
  "ParseInt s =
    (if s = [] then Inl ''invalid syntax''
     else let neg = (hd s = CHR ''-'');
              digits = (if hd s = CHR ''+'' \<or> hd s = CHR ''-'' then tl s else s)
     in case ParseUint digits of
          Inl err \<Rightarrow> Inl err
        | Inr un \<Rightarrow>
            if (\<not> neg \<and> 2 ^ 63 \<le> un) \<or> (neg \<and> 2 ^ 63 < un) then Inl ''value out of range''
            else Inr (if neg then - int un else int un))"

lemma ParseUintFrom_bound: "ParseUintFrom n s = Inr m \<Longrightarrow> n < 2 ^ 64 \<Longrightarrow> m < 2 ^ 64"
  by (induction s arbitrary: n) (auto split: option.split_asm if_split_asm)

lemma ParseInt_bounds: "ParseInt s = Inr i \<Longrightarrow> - (2 ^ 63) \<le> i \<and> i < 2 ^ 63"
  by (auto simp: ParseInt_def Let_def split: if_split_asm sum.split_asm)

text \<open>What \<open>Itoa\<close> prints is read back.\<close>

lemma digit_value_char [simp]: "d < 10 \<Longrightarrow> digit_value (char_of (48 + d)) = Some d"
  by (simp add: digit_value_def Let_def)

lemma ParseUintFrom_snoc:
  "ParseUintFrom n (s @ [c]) =
     (case ParseUintFrom n s of Inl e \<Rightarrow> Inl e | Inr m \<Rightarrow> ParseUintFrom m [c])"
  by (induction s arbitrary: n) (auto split: option.split)

lemma Itoa_nat_nonempty [simp]: "Itoa_nat n \<noteq> []"
  by (subst Itoa_nat.simps) simp

lemma ParseUintFrom_Itoa: "n < 2 ^ 64 \<Longrightarrow> ParseUintFrom 0 (Itoa_nat n) = Inr n"
proof (induction n rule: Itoa_nat.induct)
  case (1 n)
  show ?case
  proof (cases "n < 10")
    case True
    then show ?thesis by (subst Itoa_nat.simps) (simp add: digit_value_char)
  next
    case False
    have "n div 10 < 2 ^ 64" "n div 10 < 2 ^ 64 div 10 + 1" using "1.prems" by simp_all
    moreover from this False have "ParseUintFrom 0 (Itoa_nat (n div 10)) = Inr (n div 10)"
      using "1.IH" by blast
    ultimately show ?thesis
      using False "1.prems" by (subst Itoa_nat.simps) (simp add: ParseUintFrom_snoc digit_value_char)
  qed
qed

lemma hd_Itoa_nat: "hd (Itoa_nat n) \<noteq> CHR ''-'' \<and> hd (Itoa_nat n) \<noteq> CHR ''+''"
proof (induction n rule: Itoa_nat.induct)
  case (1 n)
  have "d < 10 \<Longrightarrow> char_of (48 + d) \<noteq> CHR ''-'' \<and> char_of (48 + d) \<noteq> CHR ''+''" for d :: nat
    by (auto dest: arg_cong [where f = "of_char :: char \<Rightarrow> nat"])
  then show ?case
    using "1.IH" by (subst (1 2) Itoa_nat.simps) (auto simp: hd_append)
qed

lemma ParseInt_Itoa: "- (2 ^ 63) \<le> i \<Longrightarrow> i < 2 ^ 63 \<Longrightarrow> ParseInt (Itoa i) = Inr i"
  using hd_Itoa_nat
  by (auto simp: ParseInt_def Itoa_def ParseUint_def Let_def ParseUintFrom_Itoa nat_less_iff)

subsection \<open>encoding/hex\<close>

definition hextable :: string where
  "hextable = ''0123456789abcdef''"

fun HexEncodeToString :: "8 word list \<Rightarrow> string" where
  "HexEncodeToString [] = []"
| "HexEncodeToString (b # bs) =
     hextable ! unat (drop_bit 4 b) # hextable ! unat (take_bit 4 b) # HexEncodeToString bs"

lemma length_HexEncodeToString: "length (HexEncodeToString bs) = 2 * length bs"
  by (induction bs) auto

lemma HexEncodeToString_empty_iff [simp]: "HexEncodeToString bs = [] \<longleftrightarrow> bs = []"
  by (cases bs) auto

text \<open>Two byte strings have the same hexadecimal digits only if they are the same: the code
  compares checksums by their digits.\<close>

lemma hextable_inj: "i < 16 \<Longrightarrow> j < 16 \<Longrightarrow> hextable ! i = hextable ! j \<longleftrightarrow> i = j"
proof -
  have "distinct hextable" "length hextable = 16" by (simp_all add: hextable_def)
  then show "i < 16 \<Longrightarrow> j < 16 \<Longrightarrow> hextable ! i = hextable ! j \<longleftrightarrow> i = j"
    by (simp add: nth_eq_iff_index_eq)
qed

lemma nibbles_eq:
  fixes a b :: "8 word"
  assumes "unat (drop_bit 4 a) = unat (drop_bit 4 b)" "unat (take_bit 4 a) = unat (take_bit 4 b)"
  shows "a = b"
proof -
  have "push_bit 4 (drop_bit 4 a) + take_bit 4 a = a" "push_bit 4 (drop_bit 4 b) + take_bit 4 b = b"
    by (simp_all add: bits_ident)
  with assms show ?thesis by (metis word_unat_eq_iff)
qed

lemma unat_byte: "unat (b :: 8 word) < 256"
  using unsigned_less [of b, where ?'a = nat] by simp

lemma nibble_bounds:
  fixes b :: "8 word"
  shows "unat (drop_bit 4 b) < 16" "unat (take_bit 4 b) < 16"
proof -
  have "unat (take_bit 4 b) = take_bit 4 (unat b)" by (rule unsigned_take_bit_eq)
  then show "unat (take_bit 4 b) < 16" by (simp only: take_bit_eq_mod) simp
  have "unat (drop_bit 4 b) = drop_bit 4 (unat b)" by (rule unat_drop_bit_eq)
  then show "unat (drop_bit 4 b) < 16" using unat_byte [of b] by (simp only: drop_bit_eq_div) simp
qed

lemma HexEncodeToString_inj: "HexEncodeToString as = HexEncodeToString bs \<longleftrightarrow> as = bs"
proof (induction as arbitrary: bs)
  case (Cons a as)
  show ?case
  proof (cases bs)
    case (Cons b bs')
    then show ?thesis
      using Cons.IH [of bs'] nibbles_eq [of a b] hextable_inj nibble_bounds by auto
  qed simp
qed (metis HexEncodeToString_empty_iff)

subsection \<open>encoding/base64\<close>

definition encodeStd :: string where
  "encodeStd = ''ABCDEFGHIJKLMNOPQRSTUVWXYZabcdefghijklmnopqrstuvwxyz0123456789+/''"

text \<open>\<open>decodeMap\<close>: the position of a character in the alphabet.\<close>

fun index_from :: "nat \<Rightarrow> char \<Rightarrow> string \<Rightarrow> nat option" where
  "index_from i c [] = None"
| "index_from i c (d # s) = (if c = d then Some i else index_from (Suc i) c s)"

definition decodeMap :: "char \<Rightarrow> nat option" where
  "decodeMap c = index_from 0 c encodeStd"

definition is_newline :: "char \<Rightarrow> bool" where
  "is_newline c \<longleftrightarrow> c = CHR 0x0A \<or> c = CHR 0x0D"

fun skipNewlines :: "nat \<Rightarrow> string \<Rightarrow> nat \<times> string" where
  "skipNewlines si [] = (si, [])"
| "skipNewlines si (c # src) = (if is_newline c then skipNewlines (Suc si) src else (si, c # src))"

text \<open>The bytes of a quantum: \<open>dbuf\<close> holds the values read, four for three bytes, fewer
  for the last quantum.\<close>

definition quantum_bytes :: "nat list \<Rightarrow> 8 word list" where
  "quantum_bytes dbuf =
    (let val = foldl (\<lambda>v x. v * 64 + x) 0 (take 4 (dbuf @ replicate 4 0))
     in take (length dbuf - 1) [of_nat (val div 65536), of_nat (val div 256), of_nat val])"

text \<open>After the padding only newlines may follow; an error is the offset it is found at.\<close>

definition padded_end :: "nat list \<Rightarrow> nat \<Rightarrow> string \<Rightarrow> nat + 8 word list" where
  "padded_end dbuf si src =
    (case skipNewlines si src of
       (si, []) \<Rightarrow> Inr (quantum_bytes dbuf)
     | (si, _ # _) \<Rightarrow> Inl si)"

text \<open>The loop over quanta: \<open>si\<close> is the offset in the source.\<close>

fun decodeQuanta :: "nat \<Rightarrow> nat list \<Rightarrow> string \<Rightarrow> nat + 8 word list" where
  "decodeQuanta si dbuf [] = (if dbuf = [] then Inr [] else Inl (si - length dbuf))"
| "decodeQuanta si dbuf (c # src) =
     (case decodeMap c of
        Some out \<Rightarrow>
          if length dbuf = 3 then
            (case decodeQuanta (Suc si) [] src of
               Inl err \<Rightarrow> Inl err
             | Inr bs \<Rightarrow> Inr (quantum_bytes (dbuf @ [out]) @ bs))
          else decodeQuanta (Suc si) (dbuf @ [out]) src
      | None \<Rightarrow>
          if is_newline c then decodeQuanta (Suc si) dbuf src
          else if c \<noteq> CHR ''='' then Inl si
          else if length dbuf \<le> 1 then Inl si
          else if length dbuf = 2 then
            (case skipNewlines (Suc si) src of
               (si, []) \<Rightarrow> Inl si
             | (si, d # src) \<Rightarrow> if d \<noteq> CHR ''='' then Inl (si - 1) else padded_end dbuf (Suc si) src)
          else padded_end dbuf (Suc si) src)"

text \<open>\<open>base64.StdEncoding.DecodeString\<close>\<close>

definition DecodeString :: "string \<Rightarrow> string + 8 word list" where
  "DecodeString s = (case decodeQuanta 0 [] s of
      Inl offset \<Rightarrow> Inl (''illegal base64 data at input byte '' @ Itoa (int offset))
    | Inr bs \<Rightarrow> Inr bs)"

text \<open>The reference encoder.\<close>

definition digits24 :: "nat \<Rightarrow> nat list" where
  "digits24 v = [v div 64 div 64 div 64, v div 64 div 64 mod 64, v div 64 mod 64, v mod 64]"

fun EncodeBase64 :: "8 word list \<Rightarrow> string" where
  "EncodeBase64 [] = []"
| "EncodeBase64 [a] = map (\<lambda>d. encodeStd ! d) (take 2 (digits24 (unat a * 65536))) @ ''==''"
| "EncodeBase64 [a, b] = map (\<lambda>d. encodeStd ! d) (take 3 (digits24 (unat a * 65536 + unat b * 256))) @ ''=''"
| "EncodeBase64 (a # b # c # bs) =
     map (\<lambda>d. encodeStd ! d) (digits24 (unat a * 65536 + unat b * 256 + unat c)) @ EncodeBase64 bs"

lemma index_from_nth: "distinct s \<Longrightarrow> k < length s \<Longrightarrow> index_from i (s ! k) s = Some (i + k)"
proof (induction s arbitrary: i k)
  case (Cons d s)
  then show ?case by (cases k) auto
qed simp

lemma decodeMap_encodeStd: "d < 64 \<Longrightarrow> decodeMap (encodeStd ! d) = Some d"
  using index_from_nth [of encodeStd d 0] by (simp add: decodeMap_def encodeStd_def)

lemma foldl_digits24: "v < 2 ^ 24 \<Longrightarrow> foldl (\<lambda>v x. v * 64 + x) 0 (digits24 v) = v"
  by (simp add: digits24_def)

lemma digits24_bound: "v < 2 ^ 24 \<Longrightarrow> d \<in> set (digits24 v) \<Longrightarrow> d < 64"
  by (auto simp: digits24_def)

lemma decodeQuanta_digit:
  "d < 64 \<Longrightarrow> decodeQuanta si dbuf (encodeStd ! d # src) =
     (if length dbuf = 3 then
        (case decodeQuanta (Suc si) [] src of Inl err \<Rightarrow> Inl err | Inr bs \<Rightarrow> Inr (quantum_bytes (dbuf @ [d]) @ bs))
      else decodeQuanta (Suc si) (dbuf @ [d]) src)"
  by (simp add: decodeMap_encodeStd)

text \<open>The three bytes of a quantum, and those of its shorter forms.\<close>

lemma byte_of_sum:
  "of_nat ((unat a * 65536 + unat b * 256 + unat c) div 65536) = (a :: 8 word)"
  "of_nat ((unat a * 65536 + unat b * 256 + unat c) div 256) = (b :: 8 word)"
  "of_nat (unat a * 65536 + unat b * 256 + unat c) = (c :: 8 word)"
proof -
  have bounds: "unat b < 256" "unat c < 256" by (rule unat_byte)+
  then have high: "(unat a * 65536 + unat b * 256 + unat c) div 65536 = unat a"
    and middle: "(unat a * 65536 + unat b * 256 + unat c) div 256 = unat a * 256 + unat b" by simp_all
  have zero: "(256 :: 8 word) = 0" "(65536 :: 8 word) = 0" by simp_all
  show "of_nat ((unat a * 65536 + unat b * 256 + unat c) div 65536) = (a :: 8 word)"
    "of_nat ((unat a * 65536 + unat b * 256 + unat c) div 256) = (b :: 8 word)"
    "of_nat (unat a * 65536 + unat b * 256 + unat c) = (c :: 8 word)"
    unfolding high middle by (simp_all add: zero)
qed

lemma quantum_bytes_digits24:
  fixes a b c :: "8 word"
  defines "v \<equiv> unat a * 65536 + unat b * 256 + unat c"
  shows "quantum_bytes (digits24 v) = [a, b, c]"
    and "c = 0 \<Longrightarrow> quantum_bytes (take 3 (digits24 v)) = [a, b]"
    and "b = 0 \<Longrightarrow> c = 0 \<Longrightarrow> quantum_bytes (take 2 (digits24 v)) = [a]"
proof -
  have v: "v < 2 ^ 24" unfolding v_def using unat_byte [of a] unat_byte [of b] unat_byte [of c] by simp
  note bytes = byte_of_sum [of a b c, folded v_def] foldl_digits24 [OF v]
  show "quantum_bytes (digits24 v) = [a, b, c]"
    using bytes by (simp add: quantum_bytes_def digits24_def)
  assume "c = 0"
  then have last: "v mod 64 = 0" by (simp add: v_def)
  with bytes show "quantum_bytes (take 3 (digits24 v)) = [a, b]"
    by (simp add: quantum_bytes_def digits24_def)
  assume "b = 0"
  with \<open>c = 0\<close> have "v div 64 mod 64 = 0" by (simp add: v_def)
  with last bytes show "quantum_bytes (take 2 (digits24 v)) = [a]"
    by (simp add: quantum_bytes_def digits24_def numeral_2_eq_2)
qed

lemma not_digit [simp]: "decodeMap CHR ''='' = None"
  by (simp add: decodeMap_def encodeStd_def)

lemma not_newline [simp]: "\<not> is_newline CHR ''=''"
  by (simp add: is_newline_def)

lemma digits24_cases:
  assumes "v < 2 ^ 24"
  obtains d1 d2 d3 d4 where "digits24 v = [d1, d2, d3, d4]" "d1 < 64" "d2 < 64" "d3 < 64" "d4 < 64"
  by (rule that [OF digits24_def]) (rule digits24_bound [OF assms], simp only: digits24_def, simp)+

lemma decodeQuanta_EncodeBase64: "decodeQuanta si [] (EncodeBase64 bs) = Inr bs"
proof (induction bs arbitrary: si rule: EncodeBase64.induct)
  case (2 a)
  have v: "unat a * 65536 < 2 ^ 24" using unat_byte [of a] by simp
  have bytes: "quantum_bytes (take 2 (digits24 (unat a * 65536))) = [a]"
    using quantum_bytes_digits24(3) [of 0 0 a] by simp
  from v show ?case
    by (rule digits24_cases)
       (use bytes in \<open>simp add: decodeQuanta_digit padded_end_def numeral_2_eq_2 del: decodeQuanta.simps(2)\<close>,
        simp add: padded_end_def)
next
  case (3 a b)
  have v: "unat a * 65536 + unat b * 256 < 2 ^ 24" using unat_byte [of a] unat_byte [of b] by simp
  have bytes: "quantum_bytes (take 3 (digits24 (unat a * 65536 + unat b * 256))) = [a, b]"
    using quantum_bytes_digits24(2) [of 0 a b] by simp
  from v show ?case
    by (rule digits24_cases)
       (use bytes in \<open>simp add: decodeQuanta_digit padded_end_def del: decodeQuanta.simps(2)\<close>,
        simp add: padded_end_def)
next
  case (4 a b c bs)
  have "unat a * 65536 + unat b * 256 + unat c < 2 ^ 24"
    using unat_byte [of a] unat_byte [of b] unat_byte [of c] by simp
  then show ?case
    by (rule digits24_cases)
       (use quantum_bytes_digits24(1) [of a b c] "4.IH" in
         \<open>simp add: decodeQuanta_digit del: decodeQuanta.simps(2)\<close>)
qed simp

lemma DecodeString_EncodeBase64: "DecodeString (EncodeBase64 bs) = Inr bs"
  by (simp add: DecodeString_def decodeQuanta_EncodeBase64)

end
