(* ===== verification/GoJson.thy ===== *)
theory GoJson
  imports GoEncodings
begin

section \<open>JSON objects of strings: encoding/json\<close>

text \<open>
  \<open>json.Unmarshal\<close> into a \<open>map[string]map[string]string\<close>, which reads the headers of
  older clients. It succeeds on objects of objects of strings, with \<open>null\<close> for any of them,
  and white space between tokens; every other text is an error, whether it is no JSON or of another
  type. Strings are decoded as Go does it: escapes, surrogate pairs, and the replacement
  character for a lone surrogate and for a byte that is no UTF-8.
\<close>

definition byte :: "char \<Rightarrow> nat" where "byte c = of_char c"

subsection \<open>UTF-8\<close>

definition continuation :: "nat \<Rightarrow> bool" where "continuation b \<longleftrightarrow> 0x80 \<le> b \<and> b \<le> 0xBF"

text \<open>The length of the rune a text starts with, zero if there is none
  (\<open>utf8.DecodeRune\<close>).\<close>

definition runeSize :: "string \<Rightarrow> nat" where
  "runeSize s = (case map byte s of
     [] \<Rightarrow> 0
   | a # rest \<Rightarrow>
       if a < 0x80 then 1
       else if 0xC2 \<le> a \<and> a \<le> 0xDF then
         (case rest of b # _ \<Rightarrow> if continuation b then 2 else 0 | _ \<Rightarrow> 0)
       else if 0xE0 \<le> a \<and> a \<le> 0xEF then
         (case rest of b # c # _ \<Rightarrow>
            if (if a = 0xE0 then 0xA0 else 0x80) \<le> b \<and> b \<le> (if a = 0xED then 0x9F else 0xBF) \<and> continuation c
            then 3 else 0
          | _ \<Rightarrow> 0)
       else if 0xF0 \<le> a \<and> a \<le> 0xF4 then
         (case rest of b # c # d # _ \<Rightarrow>
            if (if a = 0xF0 then 0x90 else 0x80) \<le> b \<and> b \<le> (if a = 0xF4 then 0x8F else 0xBF) \<and>
               continuation c \<and> continuation d
            then 4 else 0
          | _ \<Rightarrow> 0)
       else 0)"

text \<open>\<open>utf8.EncodeRune\<close>, for a rune that is no surrogate.\<close>

definition EncodeRune :: "nat \<Rightarrow> string" where
  "EncodeRune r = map char_of
    (if r < 0x80 then [r]
     else if r < 0x800 then [0xC0 + r div 64, 0x80 + r mod 64]
     else if r < 0x10000 then [0xE0 + r div 4096, 0x80 + r div 64 mod 64, 0x80 + r mod 64]
     else [0xF0 + r div 262144, 0x80 + r div 4096 mod 64, 0x80 + r div 64 mod 64, 0x80 + r mod 64])"

definition ReplacementChar :: nat where "ReplacementChar = 0xFFFD"

subsection \<open>Strings\<close>

definition hex_value :: "char \<Rightarrow> nat option" where
  "hex_value c = (let n = byte c in
     if 48 \<le> n \<and> n \<le> 57 then Some (n - 48)
     else if 97 \<le> n \<and> n \<le> 102 then Some (n - 87)
     else if 65 \<le> n \<and> n \<le> 70 then Some (n - 55)
     else None)"

text \<open>Four digits, as after \<open>\u\<close>.\<close>

fun hex4 :: "string \<Rightarrow> (nat \<times> string) option" where
  "hex4 (a # b # c # d # s) = (case (hex_value a, hex_value b, hex_value c, hex_value d) of
     (Some w, Some x, Some y, Some z) \<Rightarrow> Some (((w * 16 + x) * 16 + y) * 16 + z, s)
   | _ \<Rightarrow> None)"
| "hex4 _ = None"

text \<open>The second half of a surrogate pair.\<close>

fun low_surrogate :: "string \<Rightarrow> (nat \<times> string) option" where
  "low_surrogate (b # u # s) =
     (if b = CHR 0x5C \<and> u = CHR ''u'' then
        (case hex4 s of Some (r, s) \<Rightarrow> if 0xDC00 \<le> r \<and> r < 0xE000 then Some (r, s) else None | None \<Rightarrow> None)
      else None)"
| "low_surrogate _ = None"

definition escapes :: "char \<rightharpoonup> char" where
  "escapes = [CHR 0x22 \<mapsto> CHR 0x22, CHR 0x5C \<mapsto> CHR 0x5C, CHR ''/'' \<mapsto> CHR ''/'', CHR ''b'' \<mapsto> CHR 0x08,
     CHR ''f'' \<mapsto> CHR 0x0C, CHR ''n'' \<mapsto> CHR 0x0A, CHR ''r'' \<mapsto> CHR 0x0D, CHR ''t'' \<mapsto> CHR 0x09]"

definition json_escape :: "string \<Rightarrow> (string \<times> string) option" where
  "json_escape s = (case s of
     [] \<Rightarrow> None
   | e # s \<Rightarrow>
       (case escapes e of
          Some c \<Rightarrow> Some ([c], s)
        | None \<Rightarrow>
            if e \<noteq> CHR ''u'' then None
            else (case hex4 s of
              None \<Rightarrow> None
            | Some (r, s) \<Rightarrow>
                if 0xD800 \<le> r \<and> r < 0xE000 then
                  (case low_surrogate s of
                     Some (r2, s2) \<Rightarrow>
                       if r < 0xDC00 then Some (EncodeRune ((r - 0xD800) * 1024 + (r2 - 0xDC00) + 0x10000), s2)
                       else Some (EncodeRune ReplacementChar, s)
                   | None \<Rightarrow> Some (EncodeRune ReplacementChar, s))
                else Some (EncodeRune r, s))))"

text \<open>One character of a string: what it stands for, and what follows it.\<close>

definition json_char :: "char \<Rightarrow> string \<Rightarrow> (string \<times> string) option" where
  "json_char c s =
    (if c = CHR 0x5C then json_escape s
     else if byte c < 0x20 then None
     else if runeSize (c # s) = 0 then Some (EncodeRune ReplacementChar, s)
     else Some (take (runeSize (c # s)) (c # s), drop (runeSize (c # s)) (c # s)))"

lemma hex4_shorter: "hex4 s = Some (r, s') \<Longrightarrow> length s' < length s"
  by (cases s rule: hex4.cases) (auto split: option.split_asm)

lemma low_surrogate_shorter: "low_surrogate s = Some (r, s') \<Longrightarrow> length s' < length s"
  by (cases s rule: low_surrogate.cases) (auto split: option.split_asm if_split_asm dest!: hex4_shorter)

lemma json_escape_shorter: "json_escape s = Some (t, s') \<Longrightarrow> length s' < length s"
  unfolding json_escape_def
  by (auto split: list.split_asm option.split_asm if_split_asm dest!: hex4_shorter low_surrogate_shorter)

lemma json_char_shorter: "json_char c s = Some (t, s') \<Longrightarrow> length s' \<le> length s"
  unfolding json_char_def by (auto split: if_split_asm dest!: json_escape_shorter)

text \<open>The rest of a string literal, to the quote that ends it.\<close>

function unquote :: "string \<Rightarrow> (string \<times> string) option" where
  "unquote [] = None"
| "unquote (c # s) =
     (if c = CHR 0x22 then Some ([], s)
      else case json_char c s of
        None \<Rightarrow> None
      | Some (t, s) \<Rightarrow> (case unquote s of None \<Rightarrow> None | Some (u, s) \<Rightarrow> Some (t @ u, s)))"
  by pat_completeness auto
termination by (relation "measure length") (auto dest: json_char_shorter)

lemma unquote_shorter: "unquote s = Some (t, s') \<Longrightarrow> length s' < length s"
proof (induction s arbitrary: t s' rule: unquote.induct)
  case (2 c s)
  then show ?case
    by (auto split: if_split_asm option.split_asm dest!: json_char_shorter) fastforce
qed simp

subsection \<open>Objects\<close>

definition is_space :: "char \<Rightarrow> bool" where
  "is_space c \<longleftrightarrow> c = CHR '' '' \<or> c = CHR 0x09 \<or> c = CHR 0x0A \<or> c = CHR 0x0D"

definition skip_space :: "string \<Rightarrow> string" where "skip_space s = dropWhile is_space s"

text \<open>The members of an object, from the first one on; each takes two characters at least, so
  that the length of the text is fuel enough.\<close>

fun members :: "nat \<Rightarrow> (string \<Rightarrow> ('a \<times> string) option) \<Rightarrow> string \<Rightarrow> ((string \<times> 'a) list \<times> string) option" where
  "members 0 val s = None"
| "members (Suc n) val s =
     (case skip_space s of
        q # s \<Rightarrow>
          if q \<noteq> CHR 0x22 then None
          else (case unquote s of
            None \<Rightarrow> None
          | Some (k, s) \<Rightarrow>
              (case skip_space s of
                 c # s \<Rightarrow>
                   if c \<noteq> CHR '':'' then None
                   else (case val (skip_space s) of
                     None \<Rightarrow> None
                   | Some (v, s) \<Rightarrow>
                       (case skip_space s of
                          c # s \<Rightarrow>
                            if c = CHR 0x7D then Some ([(k, v)], s)
                            else if c = CHR '','' then
                              (case members n val s of None \<Rightarrow> None | Some (kvs, s) \<Rightarrow> Some ((k, v) # kvs, s))
                            else None
                        | [] \<Rightarrow> None))
               | [] \<Rightarrow> None))
      | [] \<Rightarrow> None)"

text \<open>The members are put in the map one after the other.\<close>

definition mapping_of :: "(string \<times> 'a) list \<Rightarrow> (string, 'a) mapping" where
  "mapping_of kvs = foldl (\<lambda>m (k, v). Mapping.update k v m) Mapping.empty kvs"

definition json_object :: "(string \<Rightarrow> ('a \<times> string) option) \<Rightarrow> string \<Rightarrow> ((string, 'a) mapping \<times> string) option" where
  "json_object val s =
    (case s of
       c # s \<Rightarrow>
         if c \<noteq> CHR 0x7B then None
         else (case skip_space s of
           d # r \<Rightarrow>
             if d = CHR 0x7D then Some (Mapping.empty, r)
             else (case members (length s) val s of
               None \<Rightarrow> None
             | Some (kvs, r) \<Rightarrow> Some (mapping_of kvs, r))
         | [] \<Rightarrow> None)
     | [] \<Rightarrow> None)"

text \<open>\<open>null\<close> leaves a value of the target type as it is made: empty.\<close>

definition or_null :: "'a \<Rightarrow> (string \<Rightarrow> ('a \<times> string) option) \<Rightarrow> string \<Rightarrow> ('a \<times> string) option" where
  "or_null zero val s = (if HasPrefix s ''null'' then Some (zero, drop 4 s) else val s)"

definition json_string :: "string \<Rightarrow> (string \<times> string) option" where
  "json_string s = (case s of c # s \<Rightarrow> if c = CHR 0x22 then unquote s else None | [] \<Rightarrow> None)"

definition UnmarshalStringMaps :: "string \<Rightarrow> (string, (string, string) mapping) mapping option" where
  "UnmarshalStringMaps s =
    (case or_null Mapping.empty
        (json_object (or_null Mapping.empty (json_object (or_null [] json_string)))) (skip_space s) of
       Some (m, r) \<Rightarrow> if skip_space r = [] then Some m else None
     | None \<Rightarrow> None)"

subsection \<open>The fuel of the members\<close>

lemma members_enough:
  assumes val: "\<And>s v r. val s = Some (v, r) \<Longrightarrow> length r \<le> length s"
  shows "length s \<le> n \<Longrightarrow> length s \<le> m \<Longrightarrow> members n val s = members m val s"
proof (induction n arbitrary: m s)
  case 0
  then show ?case by (cases m) (simp_all add: skip_space_def)
next
  case (Suc n)
  show ?case
  proof (cases m)
    case 0
    with Suc.prems show ?thesis by (simp add: skip_space_def)
  next
    case (Suc k)
    have skip: "length (skip_space t) \<le> length t" for t
      unfolding skip_space_def by (rule length_dropWhile_le)
    have rest: "members n val t = members k val t" if "length t < length s" for t
      using Suc.IH [of t k] Suc.prems that Suc by simp
    have "length s5 < length s" if "skip_space s = q # s1" "unquote s1 = Some (key, s2)" "skip_space s2 = c # s3"
      "val (skip_space s3) = Some (v, s4)" "skip_space s4 = d # s5" for q s1 key s2 c s3 v s4 d s5
      using that skip [of s] skip [of s2] skip [of s3] skip [of s4] unquote_shorter [OF that(2)] val [OF that(4)] by simp
    then show ?thesis
      using Suc by (auto simp: rest split: list.split option.split)
  qed
qed

subsection \<open>Printed headers are read back\<close>

text \<open>The reference printer: without white space, and with an escape for the quote, the backslash
  and control characters.\<close>

definition print_char :: "char \<Rightarrow> string" where
  "print_char c =
    (if c = CHR 0x22 \<or> c = CHR 0x5C then [CHR 0x5C, c]
     else if byte c < 0x20 then [CHR 0x5C, CHR ''u'', CHR ''0'', CHR ''0'', hextable ! (byte c div 16), hextable ! (byte c mod 16)]
     else [c])"

definition print_string :: "string \<Rightarrow> string" where
  "print_string s = CHR 0x22 # concat (map print_char s) @ [CHR 0x22]"

definition print_object :: "('a \<Rightarrow> string) \<Rightarrow> (string \<times> 'a) list \<Rightarrow> string" where
  "print_object print_value kvs =
     CHR 0x7B # Join (map (\<lambda>(k, v). print_string k @ CHR '':'' # print_value v) kvs) '','' @ [CHR 0x7D]"

text \<open>Texts that are UTF-8.\<close>

function utf8 :: "string \<Rightarrow> bool" where
  "utf8 s = (if s = [] then True else if runeSize s = 0 then False else utf8 (drop (runeSize s) s))"
  by auto
termination by (relation "measure length") auto

declare utf8.simps [simp del]

lemma runeSize_simps:
  "byte a < 0x80 \<Longrightarrow> runeSize (a # s) = 1"
  "0xC2 \<le> byte a \<Longrightarrow> byte a \<le> 0xDF \<Longrightarrow>
    runeSize (a # s) = (case s of b # _ \<Rightarrow> if continuation (byte b) then 2 else 0 | _ \<Rightarrow> 0)"
  "0xE0 \<le> byte a \<Longrightarrow> byte a \<le> 0xEF \<Longrightarrow> runeSize (a # s) = (case s of b # c # _ \<Rightarrow>
      if (if byte a = 0xE0 then 0xA0 else 0x80) \<le> byte b \<and> byte b \<le> (if byte a = 0xED then 0x9F else 0xBF) \<and>
        continuation (byte c) then 3 else 0 | _ \<Rightarrow> 0)"
  "0xF0 \<le> byte a \<Longrightarrow> byte a \<le> 0xF4 \<Longrightarrow> runeSize (a # s) = (case s of b # c # d # _ \<Rightarrow>
      if (if byte a = 0xF0 then 0x90 else 0x80) \<le> byte b \<and> byte b \<le> (if byte a = 0xF4 then 0x8F else 0xBF) \<and>
        continuation (byte c) \<and> continuation (byte d) then 4 else 0 | _ \<Rightarrow> 0)"
  by (simp_all add: runeSize_def split: list.split del: if_split cong: if_cong)

lemma runeSize_zero:
  "\<not> byte a < 0x80 \<Longrightarrow> \<not> (0xC2 \<le> byte a \<and> byte a \<le> 0xDF) \<Longrightarrow> \<not> (0xE0 \<le> byte a \<and> byte a \<le> 0xEF) \<Longrightarrow>
    \<not> (0xF0 \<le> byte a \<and> byte a \<le> 0xF4) \<Longrightarrow> runeSize (a # s) = 0"
  by (simp only: runeSize_def list.map list.case if_False)

text \<open>A rune is one ASCII character, or some bytes beyond ASCII which are a rune whatever follows.\<close>

lemma rune_cases:
  assumes "runeSize s \<noteq> 0"
  obtains (ascii) a t where "s = a # t" "byte a < 0x80"
    | (long) p t where "s = p @ t" "length p = runeSize s" "1 < length p" "\<forall>c\<in>set p. 0x80 \<le> byte c"
      "\<And>x. runeSize (p @ x) = length p"
proof (cases s)
  case Nil
  with assms show thesis by (simp add: runeSize_def)
next
  case (Cons a t)
  consider "byte a < 0x80" | (two) "0xC2 \<le> byte a" "byte a \<le> 0xDF" | (three) "0xE0 \<le> byte a" "byte a \<le> 0xEF"
    | (four) "0xF0 \<le> byte a" "byte a \<le> 0xF4"
    using assms runeSize_zero [of a t] unfolding Cons by metis
  then show thesis
  proof cases
    case 1
    with Cons show thesis by (rule ascii)
  next
    case two
    with assms Cons obtain b u where "t = b # u" "continuation (byte b)"
      by (auto simp: runeSize_simps split: list.split_asm if_split_asm)
    with two Cons show thesis
      by (intro long [of "[a, b]" u]) (auto simp: runeSize_simps continuation_def)
  next
    case three
    from assms obtain b c u where t: "t = b # c # u" and ok: "(if byte a = 0xE0 then 0xA0 else 0x80) \<le> byte b"
        "byte b \<le> (if byte a = 0xED then 0x9F else 0xBF)" "continuation (byte c)"
      unfolding Cons runeSize_simps(3) [OF three] by (auto split: list.split_asm if_split_asm)
    from ok(1) have "0x80 \<le> byte b" by (simp split: if_split_asm)
    moreover have "runeSize (a # b # c # x) = 3" for x unfolding runeSize_simps(3) [OF three] using ok by simp
    ultimately show thesis
      using three ok(3) Cons t by (intro long [of "[a, b, c]" u]) (auto simp: continuation_def)
  next
    case four
    from assms obtain b c d u where t: "t = b # c # d # u" and ok: "(if byte a = 0xF0 then 0x90 else 0x80) \<le> byte b"
        "byte b \<le> (if byte a = 0xF4 then 0x8F else 0xBF)" "continuation (byte c)" "continuation (byte d)"
      unfolding Cons runeSize_simps(4) [OF four] by (auto split: list.split_asm if_split_asm)
    from ok(1) have "0x80 \<le> byte b" by (simp split: if_split_asm)
    moreover have "runeSize (a # b # c # d # x) = 4" for x unfolding runeSize_simps(4) [OF four] using ok by simp
    ultimately show thesis
      using four ok(3,4) Cons t by (intro long [of "[a, b, c, d]" u]) (auto simp: continuation_def)
  qed
qed

lemma utf8_Nil [simp]: "utf8 []"
  by (simp add: utf8.simps)

lemma utf8_ascii: "byte a < 0x80 \<Longrightarrow> utf8 (a # t) = utf8 t"
  by (subst utf8.simps) (simp add: runeSize_simps(1))

lemma utf8_long: "1 < length p \<Longrightarrow> runeSize (p @ t) = length p \<Longrightarrow> utf8 (p @ t) = utf8 t"
  by (subst utf8.simps) auto

lemma utf8_induct [consumes 1, case_names empty ascii long]:
  assumes "utf8 s" and "P []"
    and "\<And>a t. byte a < 0x80 \<Longrightarrow> utf8 t \<Longrightarrow> P t \<Longrightarrow> P (a # t)"
    and "\<And>p t. 1 < length p \<Longrightarrow> \<forall>c\<in>set p. 0x80 \<le> byte c \<Longrightarrow> (\<And>x. runeSize (p @ x) = length p) \<Longrightarrow>
      utf8 t \<Longrightarrow> P t \<Longrightarrow> P (p @ t)"
  shows "P s"
  using assms(1)
proof (induction s rule: length_induct)
  case (1 s)
  show ?case
  proof (cases "s = []")
    case False
    with "1.prems" have "runeSize s \<noteq> 0" by (subst (asm) utf8.simps) (simp split: if_split_asm)
    then show ?thesis
    proof (cases rule: rune_cases)
      case (ascii a t)
      with "1.prems" have "utf8 t" by (simp add: utf8_ascii)
      with "1.IH" ascii have "P t" by simp
      with ascii \<open>utf8 t\<close> show ?thesis using assms(3) by simp
    next
      case (long p t)
      have "utf8 t" using "1.prems" utf8_long [of p t] long(1,3,5) by simp
      moreover from this "1.IH" long(1,3) have "P t" by (cases p) auto
      ultimately show ?thesis unfolding long(1) using assms(4) long(3-5) by blast
    qed
  qed (use assms(2) in simp)
qed

text \<open>The printed form of a character is read back as one.\<close>

lemma hex_value_hextable: "n < 16 \<Longrightarrow> hex_value (hextable ! n) = Some n"
proof -
  have "list_all (\<lambda>n. hex_value (hextable ! n) = Some n) [0..<16]" by code_simp
  then show "n < 16 \<Longrightarrow> hex_value (hextable ! n) = Some n" by (simp add: list_all_iff)
qed

lemma char_of_byte [simp]: "char_of (byte c) = c"
  by (simp add: byte_def)

lemma EncodeRune_ascii: "byte c < 0x80 \<Longrightarrow> EncodeRune (byte c) = [c]"
  by (simp add: EncodeRune_def)

lemma unquote_printed_ascii:
  assumes "byte a < 0x80"
  shows "unquote (print_char a @ x) = (case unquote x of None \<Rightarrow> None | Some (u, s) \<Rightarrow> Some (a # u, s))"
proof (cases "a = CHR 0x22 \<or> a = CHR 0x5C")
  case True
  then show ?thesis by (auto simp: print_char_def json_char_def json_escape_def escapes_def split: option.split)
next
  case plain: False
  show ?thesis
  proof (cases "byte a < 0x20")
    case True
    have "byte a = byte a div 16 * 16 + byte a mod 16" by simp
    moreover have "hex_value CHR ''0'' = Some 0" by (simp add: hex_value_def byte_def)
    ultimately have "hex4 (CHR ''0'' # CHR ''0'' # hextable ! (byte a div 16) # hextable ! (byte a mod 16) # x) = Some (byte a, x)"
      using True by (simp add: hex_value_hextable)
    then have "json_escape (CHR ''u'' # CHR ''0'' # CHR ''0'' # hextable ! (byte a div 16) # hextable ! (byte a mod 16) # x) =
        Some ([a], x)"
      using True assms by (simp add: json_escape_def escapes_def EncodeRune_ascii)
    with plain True show ?thesis by (simp add: print_char_def json_char_def split: option.split)
  next
    case False
    with plain assms show ?thesis by (simp add: print_char_def json_char_def runeSize_simps(1) split: option.split)
  qed
qed

lemma unquote_printed_long:
  assumes "1 < length p" "\<forall>c\<in>set p. 0x80 \<le> byte c" "\<And>x. runeSize (p @ x) = length p"
  shows "unquote (concat (map print_char p) @ x) = (case unquote x of None \<Rightarrow> None | Some (u, s) \<Rightarrow> Some (p @ u, s))"
proof -
  have special: "byte CHR 0x22 < 0x80" "byte CHR 0x5C < 0x80" by (simp_all add: byte_def)
  have "print_char c = [c]" if "c \<in> set p" for c
    using assms(2) that special by (fastforce simp: print_char_def)
  then have "concat (map print_char p) = p" by (induction p) simp_all
  moreover obtain c q where p: "p = c # q" using assms(1) by (cases p) auto
  moreover have "c \<noteq> CHR 0x22" "c \<noteq> CHR 0x5C" "\<not> byte c < 0x20" using assms(2) special by (auto simp: p)
  moreover have "runeSize (c # q @ x) = Suc (length q)" using assms(3) [of x] by (simp add: p)
  ultimately show ?thesis by (simp add: json_char_def split: option.split)
qed

lemma unquote_printed: "utf8 s \<Longrightarrow> unquote (concat (map print_char s) @ CHR 0x22 # r) = Some (s, r)"
proof (induction rule: utf8_induct)
  case (ascii a t)
  then show ?case by (simp add: unquote_printed_ascii)
next
  case (long p t)
  then show ?case by (simp add: unquote_printed_long)
qed simp

text \<open>A printer \<open>pv\<close> of values that \<open>val\<close> reads back.\<close>

definition reads_back :: "(string \<Rightarrow> ('a \<times> string) option) \<Rightarrow> ('b \<Rightarrow> string) \<Rightarrow> ('b \<Rightarrow> 'a) \<Rightarrow> 'b \<Rightarrow> bool" where
  "reads_back val pv g v \<longleftrightarrow> (\<forall>r. val (pv v @ r) = Some (g v, r)) \<and> pv v \<noteq> [] \<and> \<not> is_space (hd (pv v))"

lemma skip_space_Cons [simp]: "\<not> is_space c \<Longrightarrow> skip_space (c # s) = c # s"
  by (simp add: skip_space_def)

lemma not_spaces [simp]: "\<not> is_space CHR 0x22" "\<not> is_space CHR '':''" "\<not> is_space CHR '',''" "\<not> is_space CHR 0x7D"
  "\<not> is_space CHR 0x7B"
  by (simp_all add: is_space_def)

lemma skip_value: "reads_back val pv g v \<Longrightarrow> skip_space (pv v @ r) = pv v @ r"
  by (cases "pv v") (auto simp: reads_back_def)

lemma one_member:
  assumes "utf8 k" "reads_back val pv g v" "\<not> is_space d"
  shows "members (Suc n) val (print_string k @ CHR '':'' # pv v @ d # s) =
    (if d = CHR 0x7D then Some ([(k, g v)], s)
     else if d = CHR '','' then
       (case members n val s of None \<Rightarrow> None | Some (kvs, s) \<Rightarrow> Some ((k, g v) # kvs, s))
     else None)"
proof -
  have "unquote (concat (map print_char k) @ CHR 0x22 # CHR '':'' # pv v @ d # s) = Some (k, CHR '':'' # pv v @ d # s)"
    by (rule unquote_printed [OF assms(1)])
  moreover have "val (pv v @ d # s) = Some (g v, d # s)" using assms(2) by (simp add: reads_back_def)
  ultimately show ?thesis
    using assms(3) by (simp add: print_string_def skip_value [OF assms(2)])
qed

lemma members_printed:
  assumes "\<forall>(k, v)\<in>set kvs. utf8 k \<and> reads_back val pv g v"
  shows "kvs \<noteq> [] \<Longrightarrow> length kvs \<le> n \<Longrightarrow>
    members n val (Join (map (\<lambda>(k, v). print_string k @ CHR '':'' # pv v) kvs) '','' @ CHR 0x7D # r) =
      Some (map (\<lambda>(k, v). (k, g v)) kvs, r)"
  using assms
proof (induction kvs arbitrary: n)
  case (Cons x kvs)
  obtain k v where x: "x = (k, v)" by fastforce
  with Cons.prems have kv: "utf8 k" "reads_back val pv g v" by simp_all
  obtain m where n: "n = Suc m" "length kvs \<le> m" using Cons.prems(2) by (cases n) auto
  show ?case
  proof (cases kvs)
    case Nil
    then show ?thesis using one_member [OF kv, of "CHR 0x7D"] by (simp add: x n(1))
  next
    case (Cons y ys)
    then have "members m val (Join (map (\<lambda>(k, v). print_string k @ CHR '':'' # pv v) kvs) '','' @ CHR 0x7D # r) =
        Some (map (\<lambda>(k, v). (k, g v)) kvs, r)"
      using Cons.IH [OF _ n(2)] Cons.prems(3) by simp
    then show ?thesis
      using one_member [OF kv, of "CHR '',''"] by (simp add: x n(1) Cons)
  qed
qed simp

lemma length_Join: "\<forall>s\<in>set ss. s \<noteq> [] \<Longrightarrow> length ss \<le> length (Join ss sep)"
proof (induction ss sep rule: Join.induct)
  case (2 s sep)
  then show ?case by (cases s) auto
next
  case (3 s t ss sep)
  then show ?case by (cases s) auto
qed simp

lemma object_printed:
  assumes "\<forall>(k, v)\<in>set kvs. utf8 k \<and> reads_back val pv g v"
  shows "reads_back (or_null z (json_object val)) (print_object pv) (\<lambda>kvs. mapping_of (map (\<lambda>(k, v). (k, g v)) kvs)) kvs"
proof -
  have "json_object val (print_object pv kvs @ r) = Some (mapping_of (map (\<lambda>(k, v). (k, g v)) kvs), r)" for r
  proof (cases kvs)
    case Nil
    then show ?thesis by (simp add: print_object_def json_object_def mapping_of_def)
  next
    case (Cons x xs)
    let ?ms = "map (\<lambda>(k, v). print_string k @ CHR '':'' # pv v) kvs"
    let ?s = "Join ?ms '','' @ CHR 0x7D # r"
    have "length ?ms \<le> length (Join ?ms '','')" by (rule length_Join) (auto simp: print_string_def)
    then have "members (length ?s) val ?s = Some (map (\<lambda>(k, v). (k, g v)) kvs, r)"
      by (intro members_printed [OF assms]) (simp_all add: Cons)
    moreover obtain t where "?s = CHR 0x22 # t" by (cases x; cases xs) (auto simp: Cons print_string_def)
    ultimately show ?thesis by (simp add: json_object_def print_object_def)
  qed
  moreover have "\<not> HasPrefix (print_object pv kvs @ r) ''null''" for r by (simp add: print_object_def)
  ultimately show ?thesis by (simp add: reads_back_def or_null_def print_object_def)
qed

lemma string_printed: "utf8 v \<Longrightarrow> reads_back (or_null [] json_string) print_string (\<lambda>v. v) v"
  by (simp add: reads_back_def or_null_def json_string_def print_string_def unquote_printed)

text \<open>The headers as a list of lists, printed and as the map they make.\<close>

definition print_headers :: "(string \<times> (string \<times> string) list) list \<Rightarrow> string" where
  "print_headers hs = print_object (print_object print_string) hs"

definition headers_of :: "(string \<times> (string \<times> string) list) list \<Rightarrow> (string, (string, string) mapping) mapping" where
  "headers_of hs = mapping_of (map (\<lambda>(u, kvs). (u, mapping_of kvs)) hs)"

lemma UnmarshalStringMaps_printed:
  assumes "\<forall>(u, kvs)\<in>set hs. utf8 u \<and> (\<forall>(k, v)\<in>set kvs. utf8 k \<and> utf8 v)"
  shows "UnmarshalStringMaps (print_headers hs) = Some (headers_of hs)"
proof -
  have "reads_back (or_null Mapping.empty (json_object (or_null [] json_string))) (print_object print_string) mapping_of kvs"
    if "\<forall>(k, v)\<in>set kvs. utf8 k \<and> utf8 v" for kvs
    using object_printed [of kvs "or_null [] json_string" print_string "\<lambda>v. v" Mapping.empty] that string_printed
    by (auto simp: case_prod_beta reads_back_def)
  with assms have "\<forall>(u, kvs)\<in>set hs. utf8 u \<and>
      reads_back (or_null Mapping.empty (json_object (or_null [] json_string))) (print_object print_string) mapping_of kvs"
    by auto
  from object_printed [OF this, of Mapping.empty]
  have "reads_back (or_null Mapping.empty (json_object (or_null Mapping.empty (json_object (or_null [] json_string)))))
      (print_object (print_object print_string)) headers_of hs"
    by (simp add: reads_back_def headers_of_def)
  with skip_value [OF this, of "[]"] show ?thesis
    by (auto simp: UnmarshalStringMaps_def print_headers_def reads_back_def skip_space_def dest: spec [of _ "[]"])
qed

end
