(* ===== verification/AuthHeaders.thy ===== *)
theory AuthHeaders
  imports GoJson QualifierSet
begin

section \<open>Headers for downloads (pkg/fetch/auth_headers.go, getAuthHeaders)\<close>

text \<open>
  Qualifiers may carry HTTP headers, for all URIs of a request or for one of them by its index.
  They are collected in a map from URIs to headers, from which each download takes its own.
  Older clients send this map itself, as JSON; the wording of the errors of \<open>encoding/json\<close>
  is the argument \<open>jsonError\<close>.
\<close>

type_synonym AuthHeaders = "(string, (string, string) mapping) mapping"

record HttpRequest =
  RequestUri :: string
  RequestHeader :: "(string, string) mapping"

definition NewAuthHeadersFromQualifier :: "(string \<Rightarrow> error) \<Rightarrow> string \<Rightarrow> error + AuthHeaders" where
  "NewAuthHeadersFromQualifier jsonError value =
     (case UnmarshalStringMaps value of None \<Rightarrow> Inl (jsonError value) | Some ah \<Rightarrow> Inr ah)"

definition NewAuthHeaders :: AuthHeaders where
  "NewAuthHeaders = Mapping.empty"

definition AddHeader :: "AuthHeaders \<Rightarrow> string \<Rightarrow> string \<Rightarrow> string \<Rightarrow> AuthHeaders" where
  "AddHeader ah uri header value =
    (let ah = (case Mapping.lookup ah uri of
           None \<Rightarrow> Mapping.update uri Mapping.empty ah
         | Some _ \<Rightarrow> ah)
     in case Mapping.lookup ah uri of
          None \<Rightarrow> ah
        | Some headers \<Rightarrow> Mapping.update uri (Mapping.update header value headers) ah)"

text \<open>\<open>http.CanonicalHeaderKey\<close>: a name of token characters gets an upper case letter at
  its start and after each hyphen, and lower case ones elsewhere; any other stays as it is.\<close>

definition lower_case :: "char \<Rightarrow> bool" where "lower_case c \<longleftrightarrow> 0x61 \<le> byte c \<and> byte c \<le> 0x7A"

definition upper_case :: "char \<Rightarrow> bool" where "upper_case c \<longleftrightarrow> 0x41 \<le> byte c \<and> byte c \<le> 0x5A"

definition validHeaderFieldByte :: "char \<Rightarrow> bool" where
  "validHeaderFieldByte c \<longleftrightarrow> lower_case c \<or> upper_case c \<or> 0x30 \<le> byte c \<and> byte c \<le> 0x39 \<or>
     byte c \<in> {0x21, 0x23, 0x24, 0x25, 0x26, 0x27, 0x2A, 0x2B, 0x2D, 0x2E, 0x5E, 0x5F, 0x60, 0x7C, 0x7E}"

fun canonicalMIMEHeaderKey :: "bool \<Rightarrow> string \<Rightarrow> string" where
  "canonicalMIMEHeaderKey upper [] = []"
| "canonicalMIMEHeaderKey upper (c # s) =
     (if upper \<and> lower_case c then char_of (byte c - 32)
      else if \<not> upper \<and> upper_case c then char_of (byte c + 32) else c) #
     canonicalMIMEHeaderKey (c = CHR ''-'') s"

definition CanonicalHeaderKey :: "string \<Rightarrow> string" where
  "CanonicalHeaderKey s = (if list_all validHeaderFieldByte s then canonicalMIMEHeaderKey True s else s)"

text \<open>\<open>req.Header.Set\<close> stores under the canonical form of the name.\<close>

definition HeaderSet :: "HttpRequest \<Rightarrow> string \<Rightarrow> string \<Rightarrow> HttpRequest" where
  "HeaderSet req header val =
     req\<lparr>RequestHeader := Mapping.update (CanonicalHeaderKey header) val (RequestHeader req)\<rparr>"

definition ApplyHeaders ::
  "('i, 'f, 'd, 'b, 'w) ext \<Rightarrow> AuthHeaders \<Rightarrow> string \<Rightarrow> HttpRequest \<Rightarrow> HttpRequest" where
  "ApplyHeaders X ah uri req =
     (case Mapping.lookup ah uri of
        None \<Rightarrow> req
      | Some headers \<Rightarrow>
          foldl (\<lambda>req header. case Mapping.lookup headers header of
              None \<Rightarrow> req
            | Some val \<Rightarrow> HeaderSet req header val)
            req (RangeKeys X (Mapping.keys headers)))"

definition QualifierLegacyBazelHTTPHeaders :: string where
  "QualifierLegacyBazelHTTPHeaders = ''bazel.auth_headers''"

definition QualifierHTTPHeaderPrefix :: string where
  "QualifierHTTPHeaderPrefix = ''http_header:''"

definition QualifierHTTPHeaderURLPrefix :: string where
  "QualifierHTTPHeaderURLPrefix = ''http_header_url:''"

text \<open>The error that \<open>strconv\<close> gives, as \<open>%v\<close> prints it.\<close>

definition NumError :: "('i, 'f, 'd, 'b, 'w) ext \<Rightarrow> string \<Rightarrow> string \<Rightarrow> string" where
  "NumError X num err = ''strconv.ParseInt: parsing '' @ GoQuote X num @ '': '' @ err"

text \<open>The second loop: the headers for one URI each, in the order \<open>range\<close> gives.\<close>

fun perURLHeaders ::
  "('i, 'f, 'd, 'b, 'w) ext \<Rightarrow> string list \<Rightarrow> (string, string) mapping \<Rightarrow> string list \<Rightarrow> AuthHeaders \<Rightarrow>
     error + AuthHeaders" where
  "perURLHeaders X uris perURLQualifiers [] ah = Inr ah"
| "perURLHeaders X uris perURLQualifiers (k # ks) ah =
     (case Mapping.lookup perURLQualifiers k of
        None \<Rightarrow> perURLHeaders X uris perURLQualifiers ks ah
      | Some v \<Rightarrow>
          (case Split k CHR '':'' of
             [_, index, header] \<Rightarrow>
               (case ParseInt index of
                  Inl err \<Rightarrow> Inl (StatusError code_InvalidArgument
                    (''Invalid http_header_url qualifier: '' @ k @ '': Bad URL index: '' @ index @ '': '' @ NumError X index err))
                | Inr uriIdx \<Rightarrow>
                    if uriIdx < 0 \<or> uriIdx \<ge> int (length uris) then
                      Inl (StatusError code_InvalidArgument
                        (''Invalid http_header_url qualifier: '' @ k @ '': URL index out of range: '' @ Itoa uriIdx))
                    else perURLHeaders X uris perURLQualifiers ks (AddHeader ah (uris ! nat uriIdx) header v))
           | _ \<Rightarrow> Inl (StatusError code_InvalidArgument (''Invalid http_header_url qualifier: '' @ k))))"

text \<open>The first loop: headers for all URIs are added, those for one collected, and the form
  of older clients is returned at once.\<close>

fun collectHeaders ::
  "('i, 'f, 'd, 'b, 'w) ext \<Rightarrow> (string \<Rightarrow> error) \<Rightarrow> string list \<Rightarrow> Qualifier list \<Rightarrow> AuthHeaders \<Rightarrow>
     (string, string) mapping \<Rightarrow> error + AuthHeaders" where
  "collectHeaders X jsonError uris [] ah perURLQualifiers =
     perURLHeaders X uris perURLQualifiers (RangeKeys X (Mapping.keys perURLQualifiers)) ah"
| "collectHeaders X jsonError uris (q # qualifiers) ah perURLQualifiers =
     (if Name q = QualifierLegacyBazelHTTPHeaders then NewAuthHeadersFromQualifier jsonError (Value q)
      else
        let ah = (if HasPrefix (Name q) QualifierHTTPHeaderPrefix
              then foldl (\<lambda>ah uri. AddHeader ah uri (TrimPrefix (Name q) QualifierHTTPHeaderPrefix) (Value q)) ah uris
              else ah);
            perURLQualifiers = (if HasPrefix (Name q) QualifierHTTPHeaderURLPrefix
              then Mapping.update (Name q) (Value q) perURLQualifiers
              else perURLQualifiers)
        in collectHeaders X jsonError uris qualifiers ah perURLQualifiers)"

definition getAuthHeaders ::
  "('i, 'f, 'd, 'b, 'w) ext \<Rightarrow> (string \<Rightarrow> error) \<Rightarrow> string list \<Rightarrow> Qualifier list \<Rightarrow>
     error + AuthHeaders" where
  "getAuthHeaders X jsonError uris qualifiers =
     collectHeaders X jsonError uris qualifiers Mapping.empty Mapping.empty"

subsection \<open>Adding and looking up\<close>

definition header_for :: "AuthHeaders \<Rightarrow> string \<Rightarrow> string \<Rightarrow> string option" where
  "header_for ah uri header =
     (case Mapping.lookup ah uri of None \<Rightarrow> None | Some headers \<Rightarrow> Mapping.lookup headers header)"

lemma header_for_empty [simp]: "header_for Mapping.empty uri header = None"
  by (simp add: header_for_def lookup_empty)

lemma header_for_AddHeader [simp]:
  "header_for (AddHeader ah u h v) uri header =
     (if uri = u \<and> header = h then Some v else header_for ah uri header)"
  by (auto simp: header_for_def AddHeader_def Let_def lookup_update' lookup_empty split: option.split)

lemma header_for_foldl:
  "header_for (foldl (\<lambda>ah u. AddHeader ah u h v) ah us) uri header =
     (if uri \<in> set us \<and> header = h then Some v else header_for ah uri header)"
  by (induction us arbitrary: ah) auto

subsection \<open>Where headers come from\<close>

text \<open>\<open>names_header qs uris uri header v\<close>: a qualifier asks for this header, for all URIs or
  for the one at an index.\<close>

definition global_header :: "Qualifier list \<Rightarrow> string \<Rightarrow> string \<Rightarrow> bool" where
  "global_header qs header v \<longleftrightarrow> Qualifier (''http_header:'' @ header) v \<in> set qs"

definition url_header :: "Qualifier list \<Rightarrow> string list \<Rightarrow> string \<Rightarrow> string \<Rightarrow> string \<Rightarrow> bool" where
  "url_header qs uris uri header v \<longleftrightarrow>
     (\<exists>index i. Qualifier (''http_header_url:'' @ index @ '':'' @ header) v \<in> set qs \<and>
        ParseInt index = Inr (int i) \<and> i < length uris \<and> uris ! i = uri)"

text \<open>The names of the keys are those of qualifiers.\<close>

definition url_keys :: "Qualifier list \<Rightarrow> (string, string) mapping \<Rightarrow> bool" where
  "url_keys qs m \<longleftrightarrow>
     (\<forall>k v. Mapping.lookup m k = Some v \<longrightarrow> Qualifier k v \<in> set qs \<and> HasPrefix k ''http_header_url:'')"

lemma Split_url_header:
  assumes "HasPrefix k ''http_header_url:''" "Split k CHR '':'' = [p, index, header]"
  shows "k = ''http_header_url:'' @ index @ '':'' @ header"
proof -
  from assms(1) obtain r where k: "k = ''http_header_url'' @ CHR '':'' # r"
    by (auto simp: HasPrefix_iff)
  have "Split k CHR '':'' = ''http_header_url'' # Split r CHR '':''"
    unfolding k by (rule Split_second) simp
  with assms(2) have "Split r CHR '':'' = [index, header]" by simp
  with Join_Split [of r "CHR '':''"] k show ?thesis by simp
qed

lemma perURLHeaders_sound:
  assumes keys: "url_keys qs m"
  shows "perURLHeaders X uris m ks ah = Inr ah' \<Longrightarrow> header_for ah' uri header = Some v \<Longrightarrow>
    header_for ah uri header = Some v \<or> url_header qs uris uri header v"
proof (induction ks arbitrary: ah)
  case (Cons k ks)
  show ?case
  proof (cases "Mapping.lookup m k")
    case None
    with Cons show ?thesis by auto
  next
    case (Some val)
    with Cons.prems(1) obtain p index h i where parts: "Split k CHR '':'' = [p, index, h]"
      and i: "ParseInt index = Inr i" "\<not> (i < 0 \<or> i \<ge> int (length uris))"
      and rest: "perURLHeaders X uris m ks (AddHeader ah (uris ! nat i) h val) = Inr ah'"
      by (auto split: list.split_asm sum.split_asm if_split_asm)
    from keys Some have "Qualifier k val \<in> set qs" "HasPrefix k ''http_header_url:''"
      by (auto simp: url_keys_def)
    with Split_url_header [OF _ parts] i have "url_header qs uris (uris ! nat i) h val"
      unfolding url_header_def by (intro exI [of _ index] exI [of _ "nat i"]) auto
    with Cons.IH [OF rest Cons.prems(2)] show ?thesis by (auto split: if_split_asm)
  qed
qed simp

lemma collectHeaders_sound:
  assumes "set qs' \<subseteq> set qs" "url_keys qs m" "\<forall>q\<in>set qs'. Name q \<noteq> QualifierLegacyBazelHTTPHeaders"
    and "collectHeaders X jsonError uris qs' ah m = Inr ah'" "header_for ah' uri header = Some v"
  shows "header_for ah uri header = Some v \<or> global_header qs header v \<or> url_header qs uris uri header v"
  using assms
proof (induction qs' arbitrary: ah m)
  case Nil
  then show ?case using perURLHeaders_sound [of qs m X uris _ ah ah' uri header v] by auto
next
  case (Cons q qs')
  obtain n val where q: "q = Qualifier n val" by (cases q)
  let ?ah = "if HasPrefix n QualifierHTTPHeaderPrefix
    then foldl (\<lambda>ah uri. AddHeader ah uri (TrimPrefix n QualifierHTTPHeaderPrefix) val) ah uris else ah"
  let ?m = "if HasPrefix n QualifierHTTPHeaderURLPrefix then Mapping.update n val m else m"
  have "url_keys qs ?m"
    using Cons.prems(1,2) q by (auto simp: url_keys_def lookup_update' QualifierHTTPHeaderURLPrefix_def)
  moreover have "collectHeaders X jsonError uris qs' ?ah ?m = Inr ah'"
    using Cons.prems(3,4) by (simp add: q Let_def split del: if_split cong: if_cong)
  ultimately have "header_for ?ah uri header = Some v \<or> global_header qs header v \<or> url_header qs uris uri header v"
    using Cons.IH Cons.prems(1,3,5) by auto
  moreover have "header_for ah uri header = Some v \<or> global_header qs header v"
    if new: "header_for ?ah uri header = Some v"
  proof (cases "HasPrefix n QualifierHTTPHeaderPrefix")
    case True
    then have "n = ''http_header:'' @ TrimPrefix n QualifierHTTPHeaderPrefix"
      using HasPrefix_TrimPrefix [OF True] by (simp add: QualifierHTTPHeaderPrefix_def)
    with True new q Cons.prems(1) show ?thesis
      by (auto simp: header_for_foldl global_header_def split: if_split_asm)
  qed (use new in auto)
  ultimately show ?case by blast
qed

text \<open>Every header of every URI is one that a qualifier asks for: no header goes to another
  URI than its qualifier names.\<close>

lemma getAuthHeaders_sound:
  assumes "\<forall>q\<in>set qs. Name q \<noteq> ''bazel.auth_headers''" "getAuthHeaders X jsonError uris qs = Inr ah"
    and "header_for ah uri header = Some v"
  shows "global_header qs header v \<or> url_header qs uris uri header v"
  using collectHeaders_sound [of qs qs Mapping.empty X jsonError uris Mapping.empty ah uri header v] assms
  by (simp add: getAuthHeaders_def url_keys_def lookup_empty QualifierLegacyBazelHTTPHeaders_def)

subsection \<open>The form of older clients\<close>

text \<open>It replaces whatever was collected before.\<close>

lemma collectHeaders_legacy:
  "\<forall>q\<in>set before. Name q \<noteq> QualifierLegacyBazelHTTPHeaders \<Longrightarrow>
    collectHeaders X jsonError uris (before @ Qualifier QualifierLegacyBazelHTTPHeaders v # after) ah m =
      NewAuthHeadersFromQualifier jsonError v"
  by (induction before arbitrary: ah m) (auto simp: Let_def)

lemma getAuthHeaders_legacy:
  "\<forall>q\<in>set before. Name q \<noteq> ''bazel.auth_headers'' \<Longrightarrow>
    getAuthHeaders X jsonError uris (before @ Qualifier ''bazel.auth_headers'' v # after) = NewAuthHeadersFromQualifier jsonError v"
  using collectHeaders_legacy by (simp add: getAuthHeaders_def QualifierLegacyBazelHTTPHeaders_def)

lemma lookup_mapping_of: "Mapping.lookup (mapping_of kvs) = map_of (rev kvs)"
proof -
  have "Mapping.lookup (foldl (\<lambda>m (k, v). Mapping.update k v m) m kvs) = Mapping.lookup m ++ map_of (rev kvs)" for m
    by (induction kvs arbitrary: m) (auto simp: fun_eq_iff map_add_def lookup_update' split: option.split)
  moreover have "Mapping.lookup (Mapping.empty :: (string, 'a) mapping) = Map.empty"
    by (simp add: fun_eq_iff lookup_empty)
  ultimately show ?thesis by (simp add: mapping_of_def)
qed

lemma header_for_headers_of:
  "header_for (headers_of hs) uri h = (case map_of (rev hs) uri of None \<Rightarrow> None | Some kvs \<Rightarrow> map_of (rev kvs) h)"
proof -
  have "map_of (map (\<lambda>(u, kvs). (u, mapping_of kvs)) hs') uri = map_option mapping_of (map_of hs' uri)" for hs'
    by (induction hs') auto
  from this [of "rev hs"] show ?thesis
    by (simp add: header_for_def headers_of_def lookup_mapping_of rev_map split: option.split)
qed

subsection \<open>Every header arrives\<close>

lemma perURLHeaders_keeps:
  "perURLHeaders X uris m ks ah = Inr ah' \<Longrightarrow> header_for ah uri h \<noteq> None \<Longrightarrow> header_for ah' uri h \<noteq> None"
proof (induction ks arbitrary: ah)
  case (Cons k ks)
  then show ?case
    by (auto split: option.split_asm list.split_asm sum.split_asm if_split_asm)
qed simp

text \<open>\<open>addressed\<close>: the name of a qualifier holds an index into the URIs, and the URI there
  has its header, with a value that a qualifier gives for that header at that URI.\<close>

definition addressed :: "Qualifier list \<Rightarrow> string list \<Rightarrow> AuthHeaders \<Rightarrow> string \<Rightarrow> bool" where
  "addressed qs uris ah k \<longleftrightarrow>
     (\<exists>index header i v. k = ''http_header_url:'' @ index @ '':'' @ header \<and>
        ParseInt index = Inr (int i) \<and> i < length uris \<and> header_for ah (uris ! i) header = Some v \<and>
        url_header qs uris (uris ! i) header v)"

lemma perURLHeaders_replaces:
  assumes "url_keys qs m" "perURLHeaders X uris m ks ah = Inr ah'"
    and "header_for ah uri h = Some v" "url_header qs uris uri h v"
  shows "\<exists>v'. header_for ah' uri h = Some v' \<and> url_header qs uris uri h v'"
proof -
  obtain v' where v': "header_for ah' uri h = Some v'"
    using perURLHeaders_keeps [OF assms(2)] assms(3) by blast
  from perURLHeaders_sound [OF assms(1,2) v'] assms(3,4) v' show ?thesis by auto
qed

lemma perURLHeaders_complete:
  assumes keys: "url_keys qs m"
  shows "perURLHeaders X uris m ks ah = Inr ah' \<Longrightarrow> k \<in> set ks \<Longrightarrow> k \<in> Mapping.keys m \<Longrightarrow>
    addressed qs uris ah' k"
proof (induction ks arbitrary: ah)
  case (Cons k' ks)
  show ?case
  proof (cases "k = k'")
    case True
    with Cons.prems(3) obtain val where val: "Mapping.lookup m k' = Some val"
      by (auto simp: keys_dom_lookup)
    with Cons.prems(1) obtain p index h i where parts: "Split k' CHR '':'' = [p, index, h]"
      and i: "ParseInt index = Inr i" "\<not> (i < 0 \<or> i \<ge> int (length uris))"
      and rest: "perURLHeaders X uris m ks (AddHeader ah (uris ! nat i) h val) = Inr ah'"
      by (auto split: list.split_asm sum.split_asm if_split_asm)
    from keys val have q: "Qualifier k' val \<in> set qs" "HasPrefix k' ''http_header_url:''" by (auto simp: url_keys_def)
    from Split_url_header [OF q(2) parts] have k': "k' = ''http_header_url:'' @ index @ '':'' @ h" .
    have "url_header qs uris (uris ! nat i) h val"
      unfolding url_header_def using q(1) k' i by (intro exI [of _ index] exI [of _ "nat i"]) auto
    from perURLHeaders_replaces [OF keys rest _ this] obtain v where
      "header_for ah' (uris ! nat i) h = Some v" "url_header qs uris (uris ! nat i) h v" by auto
    then show ?thesis
      unfolding addressed_def True using i k'
      by - (rule exI [of _ index], rule exI [of _ h], rule exI [of _ "nat i"], rule exI [of _ v], auto)
  next
    case False
    with Cons show ?thesis
      by (auto split: option.split_asm list.split_asm sum.split_asm if_split_asm)
  qed
qed simp

lemma collectHeaders_complete:
  assumes "range_ok X" "url_keys qs m" "set qs' \<subseteq> set qs" "\<forall>q\<in>set qs'. Name q \<noteq> QualifierLegacyBazelHTTPHeaders"
    and "collectHeaders X jsonError uris qs' ah m = Inr ah'" "finite (Mapping.keys m)"
    and "k \<in> Mapping.keys m \<or> k \<in> Name ` set qs' \<and> HasPrefix k ''http_header_url:''"
  shows "addressed qs uris ah' k"
  using assms(2-)
proof (induction qs' arbitrary: ah m)
  case Nil
  then have "k \<in> set (RangeKeys X (Mapping.keys m))" "k \<in> Mapping.keys m"
    using assms(1) by (auto simp: range_ok_def)
  with Nil show ?case by (auto intro: perURLHeaders_complete)
next
  case (Cons q qs')
  obtain n val where q: "q = Qualifier n val" by (cases q)
  let ?ah = "if HasPrefix n QualifierHTTPHeaderPrefix
    then foldl (\<lambda>ah uri. AddHeader ah uri (TrimPrefix n QualifierHTTPHeaderPrefix) val) ah uris else ah"
  let ?m = "if HasPrefix n QualifierHTTPHeaderURLPrefix then Mapping.update n val m else m"
  have m: "url_keys qs ?m" "finite (Mapping.keys ?m)"
    using Cons.prems(1,2,5) q by (auto simp: url_keys_def lookup_update' QualifierHTTPHeaderURLPrefix_def)
  have rest: "collectHeaders X jsonError uris qs' ?ah ?m = Inr ah'"
    using Cons.prems(3,4) by (simp add: q Let_def split del: if_split cong: if_cong)
  have "k \<in> Mapping.keys ?m \<or> k \<in> Name ` set qs' \<and> HasPrefix k ''http_header_url:''"
    using Cons.prems(6) q by (auto simp: QualifierHTTPHeaderURLPrefix_def)
  then show ?case
    using Cons.IH [OF m(1) _ _ rest m(2)] Cons.prems(2,3) by auto
qed

lemma getAuthHeaders_complete:
  assumes "range_ok X" "\<forall>q\<in>set qs. Name q \<noteq> ''bazel.auth_headers''" "getAuthHeaders X jsonError uris qs = Inr ah"
    and "Qualifier k v \<in> set qs" "HasPrefix k ''http_header_url:''"
  shows "addressed qs uris ah k"
  by (rule collectHeaders_complete [of X qs Mapping.empty qs jsonError uris Mapping.empty ah k])
     (use assms in \<open>auto simp: getAuthHeaders_def url_keys_def lookup_empty QualifierLegacyBazelHTTPHeaders_def
        intro: rev_image_eqI\<close>)

text \<open>Headers for all URIs arrive too.\<close>

lemma collectHeaders_keeps:
  "collectHeaders X jsonError uris qs ah m = Inr ah' \<Longrightarrow> \<forall>q\<in>set qs. Name q \<noteq> QualifierLegacyBazelHTTPHeaders \<Longrightarrow>
     header_for ah uri h \<noteq> None \<Longrightarrow> header_for ah' uri h \<noteq> None"
proof (induction qs arbitrary: ah m)
  case Nil
  then show ?case using perURLHeaders_keeps by (metis collectHeaders.simps(1))
next
  case (Cons q qs)
  then show ?case
    by (auto simp: Let_def header_for_foldl split: if_split_asm)
qed

subsection \<open>Headers on a request\<close>

text \<open>The names of headers do not depend on the case of their letters.\<close>

definition fold_case :: "char \<Rightarrow> char" where
  "fold_case c = (if upper_case c then char_of (byte c + 32) else c)"

lemma byte_shift: "byte c < 0x80 \<Longrightarrow> byte (char_of (byte c + 32)) = byte c + 32" "32 \<le> byte c \<Longrightarrow> byte (char_of (byte c - 32)) = byte c - 32"
  using less_imp_diff_less [OF nat_of_char_less_256 [of c], of 32] by (simp_all add: byte_def of_char_of)

lemma byte_eq_iff: "c = d \<longleftrightarrow> byte c = byte d"
  by (simp add: byte_def)

lemma byte_hyphen [simp]: "byte CHR ''-'' = 45"
  by (simp add: byte_def)

lemma canonical_fold_case: "canonicalMIMEHeaderKey upper s = canonicalMIMEHeaderKey upper (map fold_case s)"
  by (induction s arbitrary: upper) (auto simp: fold_case_def lower_case_def upper_case_def byte_shift, simp_all add: byte_eq_iff byte_shift)

lemma fold_case_canonical: "map fold_case (canonicalMIMEHeaderKey upper s) = map fold_case s"
  by (induction s arbitrary: upper) (auto simp: fold_case_def lower_case_def upper_case_def byte_shift byte_eq_iff)

lemma CanonicalHeaderKey_iff:
  assumes "list_all validHeaderFieldByte h" "list_all validHeaderFieldByte h'"
  shows "CanonicalHeaderKey h = CanonicalHeaderKey h' \<longleftrightarrow> map fold_case h = map fold_case h'"
  using assms fold_case_canonical canonical_fold_case unfolding CanonicalHeaderKey_def by metis

lemma foldl_HeaderSet:
  "Mapping.lookup (RequestHeader (foldl (\<lambda>req header. case Mapping.lookup headers header of
       None \<Rightarrow> req | Some val \<Rightarrow> HeaderSet req header val) req hs)) k = Some v \<Longrightarrow>
     Mapping.lookup (RequestHeader req) k = Some v \<or> (\<exists>h. CanonicalHeaderKey h = k \<and> Mapping.lookup headers h = Some v)"
proof (induction hs arbitrary: req)
  case (Cons h hs)
  show ?case
  proof (cases "Mapping.lookup headers h")
    case None
    with Cons show ?thesis by simp
  next
    case (Some val)
    with Cons.prems Cons.IH [of "HeaderSet req h val"] show ?thesis
      by (auto simp: HeaderSet_def lookup_update' split: if_split_asm)
  qed
qed simp

lemma ApplyHeaders_sound:
  assumes "Mapping.lookup (RequestHeader (ApplyHeaders X ah uri req)) k = Some v"
  shows "Mapping.lookup (RequestHeader req) k = Some v \<or> (\<exists>h. CanonicalHeaderKey h = k \<and> header_for ah uri h = Some v)"
  using assms foldl_HeaderSet [where req = req and k = k and v = v]
  by (auto simp: ApplyHeaders_def header_for_def split: option.split_asm)

lemma ApplyHeaders_uri [simp]: "RequestUri (ApplyHeaders X ah uri req) = RequestUri req"
proof -
  have "RequestUri (foldl (\<lambda>req header. case Mapping.lookup headers header of
      None \<Rightarrow> req | Some val \<Rightarrow> HeaderSet req header val) req hs) = RequestUri req" for headers hs
    by (induction hs arbitrary: req) (auto simp: HeaderSet_def split: option.split)
  then show ?thesis by (simp add: ApplyHeaders_def split: option.split)
qed

end
