(* ===== verification/HTTPFetcher.thy ===== *)
theory HTTPFetcher
  imports Fetchers AuthHeaders
begin

section \<open>The HTTP fetcher (pkg/fetch/http_fetcher.go)\<close>

text \<open>
  Each URI is downloaded in turn until one succeeds. A download streams the body to a
  temporary file while computing its digest and, where a \<open>checksum.sri\<close> qualifier asks for
  it, its checksum; the file then becomes a buffer that is put in storage. Deferred calls run
  where the function returns: the temporary file is closed unless the buffer has taken it over,
  then the body unless it was closed.

  \<open>http_ext\<close> is the outside: HTTP requests and bodies (\<open>'o\<close>), the files of the operating
  system (\<open>'t\<close>), and the buffers bb-storage makes of an error or a file. Reading a body is a
  loop that carries fuel, since a body may go on for ever. \<open>WrapNoError\<close> is what
  \<open>util.StatusWrapWithCode\<close> of bb-storage does when given no error, which may be to panic.
\<close>

text \<open>How a \<open>Read\<close> ends: more may follow, \<open>io.EOF\<close>, or another error.\<close>

datatype read_end = MoreToRead | EndOfFile | ReadError error

record 'o HttpResponse =
  HttpStatusCode :: int
  HttpStatus :: string
  ContentLength :: int
  Body :: 'o

record ('o, 'w) HttpClient =
  HttpDo :: "HttpRequest \<Rightarrow> 'w \<Rightarrow> (error + 'o HttpResponse) \<times> 'w"

record ('f, 'd, 'b, 'o, 't, 'w) http_ext =
  JsonError :: "string \<Rightarrow> error"
  NewGetRequest :: "string \<Rightarrow> error + HttpRequest"
  BodyRead :: "'o \<Rightarrow> 'w \<Rightarrow> (bytes \<times> read_end) \<times> 'w"
  BodyClose :: "'o \<Rightarrow> 'w \<Rightarrow> error option \<times> 'w"
  CreateTemp :: "'w \<Rightarrow> (error + 't) \<times> 'w"
  TempName :: "'t \<Rightarrow> string"
  FileWrite :: "'t \<Rightarrow> bytes \<Rightarrow> 'w \<Rightarrow> error option \<times> 'w"
  FileClose :: "'t \<Rightarrow> 'w \<Rightarrow> error option \<times> 'w"
  OsRemove :: "string \<Rightarrow> 'w \<Rightarrow> error option \<times> 'w"
  IsNotExist :: "error \<Rightarrow> bool"
  ZeroFunction :: 'f
  DigestSizeBytes :: "'d \<Rightarrow> int"
  NewValidatedBufferFromReaderAt :: "'t \<Rightarrow> int \<Rightarrow> 'b"
  NewBufferFromError :: "error \<Rightarrow> 'b"
  BufferDiscard :: "'b \<Rightarrow> 'w \<Rightarrow> unit \<times> 'w"
  WrapNoError :: "Code \<Rightarrow> string \<Rightarrow> error run"

record ('d, 'b, 'o, 'w) httpFetcher =
  httpClient :: "('o, 'w) HttpClient"
  httpStorage :: "('d, 'b, 'w) BlobAccess"

subsection \<open>The checksum of a request\<close>

definition hashTypes :: "string \<rightharpoonup> DigestFunction_Value" where
  "hashTypes = [''sha256'' \<mapsto> DF_SHA256, ''sha1'' \<mapsto> DF_SHA1, ''md5'' \<mapsto> DF_MD5, ''sha384'' \<mapsto> DF_SHA384,
     ''sha512'' \<mapsto> DF_SHA512, ''sha256tree'' \<mapsto> DF_SHA256TREE]"

text \<open>The loop over the qualifiers. The function's variable \<open>digestFunctionEnum\<close> is
  shadowed where it should be assigned, so the check for a second checksum never holds.\<close>

fun checksumSri ::
  "('i, 'f, 'd, 'b, 'w) ext \<Rightarrow> 'f \<Rightarrow> DigestFunction_Value \<Rightarrow> Qualifier list \<Rightarrow> (error + (string \<times> 'f)) run" where
  "checksumSri X zero digestFunctionEnum [] = Done (Inr ([], zero))"
| "checksumSri X zero digestFunctionEnum (q # qualifiers) =
     (if Name q \<noteq> ''checksum.sri'' then checksumSri X zero digestFunctionEnum qualifiers
      else if digestFunctionEnum \<noteq> DF_UNKNOWN then
        Done (Inl (StatusError code_InvalidArgument ''Multiple checksum.sri provided''))
      else case Split2 (Value q) CHR ''-'' of
        [hashName, b64hash] \<Rightarrow>
          (case hashTypes hashName of
             None \<Rightarrow> Done (Inl (StatusError code_InvalidArgument (''Unsupported checksum algorithm '' @ hashName)))
           | Some digestFunctionEnum \<Rightarrow>
               (case DecodeString b64hash of
                  Inl err \<Rightarrow> Done (Inl (StatusError code_InvalidArgument
                    (''Failed to decode checksum as base64 encoded '' @ hashName @ '' sum: '' @ err)))
                | Inr decoded \<Rightarrow>
                    (let expectedDigest = HexEncodeToString decoded
                     in case NewInstanceName X [] of
                          Inl err \<Rightarrow> Panic ExplicitPanic
                        | Inr inst \<Rightarrow>
                            (case GetDigestFunction X inst digestFunctionEnum (int (length expectedDigest)) of
                               Inl err \<Rightarrow> Done (Inl (StatusError code_InvalidArgument
                                 (''Failed to get checksum function for checksum.sri: '' @ ErrorText X err)))
                             | Inr checksumFunction \<Rightarrow> Done (Inr (expectedDigest, checksumFunction))))))
      | _ \<Rightarrow> Done (Inl (StatusError code_InvalidArgument (''Bad checksum.sri hash expression: '' @ Value q))))"

definition getChecksumSri ::
  "('i, 'f, 'd, 'b, 'w) ext \<Rightarrow> ('f, 'd, 'b, 'o, 't, 'w) http_ext \<Rightarrow> Qualifier list \<Rightarrow> (error + (string \<times> 'f)) run" where
  "getChecksumSri X H qualifiers = checksumSri X (ZeroFunction H) DF_UNKNOWN qualifiers"

subsection \<open>Temporary files\<close>

definition temporaryFile_Close :: "('f, 'd, 'b, 'o, 't, 'w) http_ext \<Rightarrow> 't \<Rightarrow> ('w, error option) comp" where
  "temporaryFile_Close H f =
     bindM (call (FileClose H f)) (\<lambda>closeErr.
     bindM (call (OsRemove H (TempName H f))) (\<lambda>removeErr.
     ret (case closeErr of
            Some err \<Rightarrow> Some err
          | None \<Rightarrow> (case removeErr of
              Some err \<Rightarrow> if IsNotExist H err then None else Some err
            | None \<Rightarrow> None))))"

subsection \<open>A download\<close>

text \<open>What the code passes to a download, beside the URI.\<close>

record ('f) download =
  digestFunction :: 'f
  checksumFunction :: 'f
  expectedDigest :: string

text \<open>A write to \<open>io.MultiWriter\<close>: the file, the digest, and the checksum where there is
  one. \<open>chunks\<close> is what the generators have been given.\<close>

definition writeAll ::
  "('i, 'f, 'd, 'b, 'w) ext \<Rightarrow> ('f, 'd, 'b, 'o, 't, 'w) http_ext \<Rightarrow> 'f download \<Rightarrow> int \<Rightarrow> 't \<Rightarrow> bytes list \<Rightarrow>
     bytes \<Rightarrow> ('w, error + bytes list) comp" where
  "writeAll X H dl clen f chunks p =
     checkM (call (FileWrite H f p)) (
     checkM (ret (WriteGenerator X (digestFunction dl) clen chunks p)) (
     checkM (ret (if expectedDigest dl \<noteq> [] then WriteGenerator X (checksumFunction dl) clen chunks p else None)) (
     ret (Inr (chunks @ [p])))))"

text \<open>\<open>io.Copy\<close>: read and write until the end of the body or an error.\<close>

primrec copyBody ::
  "('i, 'f, 'd, 'b, 'w) ext \<Rightarrow> ('f, 'd, 'b, 'o, 't, 'w) http_ext \<Rightarrow> 'f download \<Rightarrow> int \<Rightarrow> 't \<Rightarrow> 'o \<Rightarrow> nat \<Rightarrow>
     bytes list \<Rightarrow> ('w, error + bytes list) comp" where
  "copyBody X H dl clen f body 0 chunks = lift Unfinished"
| "copyBody X H dl clen f body (Suc n) chunks =
     bindM (call (BodyRead H body)) (\<lambda>(p, er).
     tryM (if p = [] then ret (Inr chunks) else writeAll X H dl clen f chunks p) (\<lambda>chunks.
     case er of
       MoreToRead \<Rightarrow> copyBody X H dl clen f body n chunks
     | EndOfFile \<Rightarrow> ret (Inr chunks)
     | ReadError err \<Rightarrow> ret (Inl err)))"

definition failed_download ::
  "('i, 'f, 'd, 'b, 'w) ext \<Rightarrow> ('f, 'd, 'b, 'o, 't, 'w) http_ext \<Rightarrow> error \<Rightarrow> 'b \<times> 'd \<times> string" where
  "failed_download X H err = (NewBufferFromError H err, BadDigest X, [])"

text \<open>The part after the temporary file exists: beside the result, whether the body
  (\<open>resp.Body != nil\<close>) and the file (\<open>shouldCloseTempFile\<close>) are left to the deferred
  calls.\<close>

definition storeBody ::
  "('i, 'f, 'd, 'b, 'w) ext \<Rightarrow> ('f, 'd, 'b, 'o, 't, 'w) http_ext \<Rightarrow> nat \<Rightarrow> 'f download \<Rightarrow> 'o HttpResponse \<Rightarrow> 't \<Rightarrow>
     ('w, ('b \<times> 'd \<times> string) \<times> bool \<times> bool) comp" where
  "storeBody X H n dl resp f =
     bindM (copyBody X H dl (ContentLength resp) f (Body resp) n []) (\<lambda>r.
     case r of
       Inl err \<Rightarrow> ret (failed_download X H (StatusWrapWithCode X err code_Internal ''Failed to read response body''),
         True, True)
     | Inr chunks \<Rightarrow>
         bindM (call (BodyClose H (Body resp))) (\<lambda>e.
         case e of
           Some err \<Rightarrow> ret (failed_download X H
             (StatusWrapWithCode X err code_Internal ''Failed to close response body''), True, True)
         | None \<Rightarrow>
             let digest = SumGenerator X (digestFunction dl) (ContentLength resp) chunks;
                 checksum = (if expectedDigest dl \<noteq> []
                   then Hash (GetProto X (SumGenerator X (checksumFunction dl) (ContentLength resp) chunks)) else [])
             in ret ((NewValidatedBufferFromReaderAt H f (DigestSizeBytes H digest), digest, checksum), False, False)))"

text \<open>The part after a response with status 200, with the deferred close of the file; the
  flag that is left tells of the body.\<close>

definition downloadBody ::
  "('i, 'f, 'd, 'b, 'w) ext \<Rightarrow> ('f, 'd, 'b, 'o, 't, 'w) http_ext \<Rightarrow> nat \<Rightarrow> 'f download \<Rightarrow> 'o HttpResponse \<Rightarrow>
     ('w, ('b \<times> 'd \<times> string) \<times> bool) comp" where
  "downloadBody X H n dl resp =
     bindM (call (CreateTemp H)) (\<lambda>r.
     case r of
       Inl err \<Rightarrow> ret (failed_download X H
         (StatusWrapWithCode X err code_Internal ''Failed to create temporary file''), True)
     | Inr f \<Rightarrow>
         bindM (storeBody X H n dl resp f) (\<lambda>(result, bodyOpen, shouldCloseTempFile).
         if shouldCloseTempFile then
           bindM (temporaryFile_Close H f) (\<lambda>e.
           case e of
             Some err \<Rightarrow> bindM (call (LogPrintf X (LogTempClose (TempName H f) err))) (\<lambda>_. ret (result, bodyOpen))
           | None \<Rightarrow> ret (result, bodyOpen))
         else ret (result, bodyOpen)))"

definition downloadBlob ::
  "('i, 'f, 'd, 'b, 'w) ext \<Rightarrow> ('f, 'd, 'b, 'o, 't, 'w) http_ext \<Rightarrow> ('d, 'b, 'o, 'w) httpFetcher \<Rightarrow> nat \<Rightarrow>
     'f download \<Rightarrow> AuthHeaders \<Rightarrow> string \<Rightarrow> ('w, 'b \<times> 'd \<times> string) comp" where
  "downloadBlob X H hf n dl auth uri =
    (case NewGetRequest H uri of
       Inl err \<Rightarrow> ret (failed_download X H (StatusWrapWithCode X err code_Internal ''Failed to create HTTP request''))
     | Inr req \<Rightarrow>
         bindM (call (HttpDo (httpClient hf) (ApplyHeaders X auth uri req))) (\<lambda>r.
         case r of
           Inl err \<Rightarrow>
             bindM (call (LogPrintf X (LogDownloadError uri err))) (\<lambda>_.
             ret (failed_download X H (StatusWrapWithCode X err code_Internal ''HTTP request failed'')))
         | Inr resp \<Rightarrow>
             if HttpStatusCode resp \<noteq> 200 then
               bindM (call (LogPrintf X (LogDownloadStatus uri (HttpStatusCode resp)))) (\<lambda>_.
               ret (failed_download X H (StatusError code_Internal
                 (''HTTP request failed with status '' @ GoQuote X (HttpStatus resp)))))
             else
               bindM (downloadBody X H n dl resp) (\<lambda>(result, bodyOpen).
               if bodyOpen then bindM (call (BodyClose H (Body resp))) (\<lambda>_. ret result)
               else ret result)))"

subsection \<open>Fetching\<close>

text \<open>The loop over the URIs; \<open>err\<close> is the error of the last download.\<close>

fun httpFetchUris ::
  "('i, 'f, 'd, 'b, 'w) ext \<Rightarrow> ('f, 'd, 'b, 'o, 't, 'w) http_ext \<Rightarrow> ('d, 'b, 'o, 'w) httpFetcher \<Rightarrow> nat \<Rightarrow>
     'f download \<Rightarrow> AuthHeaders \<Rightarrow> Qualifier list \<Rightarrow> error option \<Rightarrow> string list \<Rightarrow>
     ('w, error + FetchBlobResponse) comp" where
  "httpFetchUris X H hf n dl auth qualifiers err [] =
     (case err of
        None \<Rightarrow> bindM (lift (WrapNoError H code_NotFound ''Unable to download blob from any provided URI''))
          (\<lambda>err. ret (Inl err))
      | Some err \<Rightarrow> ret (Inl (StatusWrapWithCode X err code_NotFound ''Unable to download blob from any provided URI'')))"
| "httpFetchUris X H hf n dl auth qualifiers err (uri # uris) =
     bindM (downloadBlob X H hf n dl auth uri) (\<lambda>(buffer, digest, checksum).
     case GetSizeBytes X buffer of
       Inl err \<Rightarrow>
         bindM (call (LogPrintf X (LogDownloadError uri err))) (\<lambda>_.
         httpFetchUris X H hf n dl auth qualifiers (Some err) uris)
     | Inr _ \<Rightarrow>
         if expectedDigest dl \<noteq> [] \<and> checksum \<noteq> expectedDigest dl then
           bindM (call (BufferDiscard H buffer)) (\<lambda>_.
           ret (Inl (StatusError code_Internal (''Fetched content did not match checksum.sri qualifier: Expected '' @
             expectedDigest dl @ '', Got '' @ checksum))))
         else
           bindM (call (BlobPut (httpStorage hf) digest buffer)) (\<lambda>e.
           case e of
             Some err \<Rightarrow>
               bindM (call (LogPrintf X (LogDownloadError uri err))) (\<lambda>_.
               ret (Inl (StatusWrapWithCode X err code_Internal ''Failed to place blob into CAS'')))
           | None \<Rightarrow>
               ret (Inr \<lparr>ResponseStatus = Some \<lparr>status_Code = code_OK, status_Message = ''Blob fetched successfully!''\<rparr>,
                 ResponseUri = uri, ResponseQualifiers = qualifiers, ResponseDigest = Some (GetProto X digest)\<rparr>)))"

definition httpFetcher_FetchBlob ::
  "('i, 'f, 'd, 'b, 'w) ext \<Rightarrow> ('f, 'd, 'b, 'o, 't, 'w) http_ext \<Rightarrow> ('d, 'b, 'o, 'w) httpFetcher \<Rightarrow> nat \<Rightarrow>
     FetchBlobRequest \<Rightarrow> ('w, FetchBlobResponse reply) comp" where
  "httpFetcher_FetchBlob X H hf n req =
     replyM (
       tryM (ret (getDigestFunction X (DigestFunction req) (InstanceName req))) (\<lambda>digestFunction.
       tryM (lift (getChecksumSri X H (Qualifiers req))) (\<lambda>(expectedDigest, checksumFunction).
       tryM (ret (getAuthHeaders X (JsonError H) (Uris req) (Qualifiers req))) (\<lambda>auth.
       httpFetchUris X H hf n \<lparr>digestFunction = digestFunction, checksumFunction = checksumFunction,
         expectedDigest = expectedDigest\<rparr> auth (Qualifiers req) None (Uris req)))))"

definition httpFetcher_FetchDirectory :: "FetchDirectoryRequest \<Rightarrow> ('w, FetchDirectoryResponse reply) comp" where
  "httpFetcher_FetchDirectory req =
     ret (None, Some (StatusError code_PermissionDenied ''HTTP Fetching of directories is not supported!''))"

definition httpFetcher_CheckQualifiers :: "('i, 'f, 'd, 'b, 'w) ext \<Rightarrow> Set \<Rightarrow> Set" where
  "httpFetcher_CheckQualifiers X qualifiers =
    (let toRemove = NewSet [''checksum.sri'', QualifierLegacyBazelHTTPHeaders, ''bazel.canonical_id''];
         toRemove = foldl (\<lambda>toRemove name.
           if HasPrefix name QualifierHTTPHeaderPrefix \<or> HasPrefix name QualifierHTTPHeaderURLPrefix
           then Add toRemove name else toRemove) toRemove (RangeKeys X (Mapping.keys qualifiers))
     in Difference qualifiers toRemove)"

definition NewHTTPFetcher ::
  "('i, 'f, 'd, 'b, 'w) ext \<Rightarrow> ('f, 'd, 'b, 'o, 't, 'w) http_ext \<Rightarrow> nat \<Rightarrow> ('o, 'w) HttpClient \<Rightarrow>
     ('d, 'b, 'w) BlobAccess \<Rightarrow> 'w Fetcher" where
  "NewHTTPFetcher X H n client cas =
    (let hf = \<lparr>httpClient = client, httpStorage = cas\<rparr>
     in \<lparr>FetchBlob = httpFetcher_FetchBlob X H hf n, FetchDirectory = httpFetcher_FetchDirectory,
         CheckQualifiers = httpFetcher_CheckQualifiers X\<rparr>)"

end
