(* ===== verification/RemoteExecutionFetcher.thy ===== *)
theory RemoteExecutionFetcher
  imports Fetchers QualifierTranslator
begin

section \<open>The remote execution fetcher (pkg/fetch/remote_execution_fetcher.go)\<close>

text \<open>
  For each URI the qualifiers' command is made into an action, uploaded and run by the
  execution service; the first one whose exit code is zero is the answer. The service is
  outside the repository: \<open>Execute\<close> opens a stream, \<open>Recv\<close> takes its next
  operation. Waiting for an operation that is done is a loop that carries fuel, since a stream
  may go on for ever. The getters of Go accept nil: a response without a result counts as one
  with exit code zero and no outputs.
\<close>

text \<open>An operation: whether it is done, and what unmarshalling its response gives (the
  result of the \<open>ExecuteResponse\<close>, which may be nil).\<close>

record Operation =
  OperationDone :: bool
  OperationResponse :: "error + ActionResult option"

record ('s, 'w) ExecutionClient =
  Execute :: "string \<Rightarrow> Digest \<Rightarrow> 'w \<Rightarrow> (error + 's) \<times> 'w"
  Recv :: "'s \<Rightarrow> 'w \<Rightarrow> (error + Operation) \<times> 'w"

record ('d, 'b, 's, 'w) remoteExecutionFetcher =
  executionStorage :: "('d, 'b, 'w) BlobAccess"
  executionClient :: "('s, 'w) ExecutionClient"
  executionMessageSize :: int

text \<open>\<open>for { operation, err := stream.Recv(); ... }\<close>\<close>

primrec receiveDone ::
  "('s, 'w) ExecutionClient \<Rightarrow> nat \<Rightarrow> 's \<Rightarrow> ('w, error + ActionResult option) comp" where
  "receiveDone client 0 stream = lift Unfinished"
| "receiveDone client (Suc n) stream =
     tryM (call (Recv client stream)) (\<lambda>operation.
     if OperationDone operation then ret (OperationResponse operation)
     else receiveDone client n stream)"

definition GetExitCode :: "ActionResult option \<Rightarrow> int" where
  "GetExitCode r = (case r of None \<Rightarrow> 0 | Some r \<Rightarrow> ExitCode r)"

definition GetOutputFiles :: "ActionResult option \<Rightarrow> OutputFile list" where
  "GetOutputFiles r = (case r of None \<Rightarrow> [] | Some r \<Rightarrow> OutputFiles r)"

definition GetOutputDirectories :: "ActionResult option \<Rightarrow> OutputDirectory list" where
  "GetOutputDirectories r = (case r of None \<Rightarrow> [] | Some r \<Rightarrow> OutputDirectories r)"

definition GetSize :: "Digest option \<Rightarrow> int" where
  "GetSize d = (case d of None \<Rightarrow> 0 | Some d \<Rightarrow> SizeBytes d)"

fun fetchUris ::
  "('i, 'f, 'd, 'b, 'w) ext \<Rightarrow> ('d, 'b, 's, 'w) remoteExecutionFetcher \<Rightarrow> nat \<Rightarrow> string \<Rightarrow>
     (string \<Rightarrow> Command run) \<Rightarrow> 'f \<Rightarrow> string list \<Rightarrow>
     ('w, error + (ActionResult option \<times> string \<times> string)) comp" where
  "fetchUris X rf n instanceName commandGenerator digestFunction [] =
     ret (Inl (StatusError code_NotFound ''Unable to download blob from any of the provided URIs''))"
| "fetchUris X rf n instanceName commandGenerator digestFunction (uri # uris) =
     bindM (lift (commandGenerator uri)) (\<lambda>command.
     tryM (ret (ProtoSerialise X (MCommand command) digestFunction)) (\<lambda>(commandPb, commandDigest).
     let action = \<lparr>CommandDigest = GetProto X commandDigest,
           InputRootDigest = GetProto X (EmptyDigest X digestFunction), ActionPlatform = None\<rparr>
     in tryM (ret (ProtoSerialise X (MAction action) digestFunction)) (\<lambda>(actionPb, actionDigest).
     checkM (call (BlobPut (executionStorage rf) actionDigest actionPb)) (
     checkM (call (BlobPut (executionStorage rf) commandDigest commandPb)) (
     tryM (call (Execute (executionClient rf) instanceName (GetProto X actionDigest))) (\<lambda>stream.
     tryM (receiveDone (executionClient rf) n stream) (\<lambda>actionResult.
     if GetExitCode actionResult \<noteq> 0 then
       bindM (call (LogPrintf X (LogUnsuccessful uri))) (\<lambda>_.
       fetchUris X rf n instanceName commandGenerator digestFunction uris)
     else
       (case OutputPaths command of
          [] \<Rightarrow> panicM IndexOutOfRange
        | outputPath # _ \<Rightarrow> ret (Inr (actionResult, uri, outputPath))))))))))"

definition fetchCommon ::
  "('i, 'f, 'd, 'b, 'w) ext \<Rightarrow> ('d, 'b, 's, 'w) remoteExecutionFetcher \<Rightarrow> nat \<Rightarrow> FetchBlobRequest \<Rightarrow> 'f \<Rightarrow>
     ('w, error + (ActionResult option \<times> string \<times> string)) comp" where
  "fetchCommon X rf n req digestFunction =
     tryM (ret (QualifiersToCommand (Qualifiers req))) (\<lambda>commandGenerator.
     fetchUris X rf n (InstanceName req) commandGenerator digestFunction (Uris req))"

definition remoteExecutionFetcher_FetchBlob ::
  "('i, 'f, 'd, 'b, 'w) ext \<Rightarrow> ('d, 'b, 's, 'w) remoteExecutionFetcher \<Rightarrow> nat \<Rightarrow> FetchBlobRequest \<Rightarrow>
     ('w, FetchBlobResponse reply) comp" where
  "remoteExecutionFetcher_FetchBlob X rf n req =
    (case getDigestFunction X (DigestFunction req) (InstanceName req) of
       Inl err \<Rightarrow> ret (None, Some err)
     | Inr digestFunction \<Rightarrow>
     bindM (fetchCommon X rf n req digestFunction) (\<lambda>r.
     case r of
       Inl err \<Rightarrow> ret (None, Some err)
     | Inr (actionResult, uri, outputPath) \<Rightarrow>
         let digest = foldl (\<lambda>digest file. if OutFilePath file = outputPath then OutFileDigest file else digest)
               (Some (GetProto X (EmptyDigest X digestFunction))) (GetOutputFiles actionResult)
         in if GetSize digest = 0 then
           (case find (\<lambda>directory. OutDirPath directory = outputPath) (GetOutputDirectories actionResult) of
              Some _ \<Rightarrow>
                ret (Some \<lparr>ResponseStatus = Some \<lparr>status_Code = code_Aborted,
                       status_Message = ''Expected blob but downloaded directory''\<rparr>,
                     ResponseUri = uri, ResponseQualifiers = Qualifiers req, ResponseDigest = None\<rparr>,
                   ErrorProto X \<lparr>status_Code = code_Aborted,
                     status_Message = ''Expected blob but downloaded directory''\<rparr>)
            | None \<Rightarrow> ret (None, Some (StatusError code_NotFound
                ''Unable to fetch blob from any of the URIs specified'')))
         else
           ret (Some \<lparr>ResponseStatus = Some \<lparr>status_Code = code_OK,
                  status_Message = ''Blob fetched successfully!''\<rparr>,
                ResponseUri = uri, ResponseQualifiers = Qualifiers req, ResponseDigest = digest\<rparr>, None)))"

definition remoteExecutionFetcher_FetchDirectory ::
  "('i, 'f, 'd, 'b, 'w) ext \<Rightarrow> ('d, 'b, 's, 'w) remoteExecutionFetcher \<Rightarrow> nat \<Rightarrow> FetchDirectoryRequest \<Rightarrow>
     ('w, FetchDirectoryResponse reply) comp" where
  "remoteExecutionFetcher_FetchDirectory X rf n req =
    (case getDigestFunction X (DigestFunction req) (InstanceName req) of
       Inl err \<Rightarrow> ret (None, Some err)
     | Inr digestFunction \<Rightarrow>
     let blobReq = \<lparr>InstanceName = InstanceName req, OldestContentAccepted = None, Uris = Uris req,
           Qualifiers = Qualifiers req, DigestFunction = DF_UNKNOWN\<rparr>
     in bindM (fetchCommon X rf n blobReq digestFunction) (\<lambda>r.
     case r of
       Inl err \<Rightarrow> ret (None, Some err)
     | Inr (actionResult, uri, outputPath) \<Rightarrow>
         let digest = foldl (\<lambda>digest directory. if OutDirPath directory = outputPath then TreeDigest directory else digest)
               (Some (GetProto X (EmptyDigest X digestFunction))) (GetOutputDirectories actionResult)
         in if GetSize digest = 0 then
           (case find (\<lambda>file. OutFilePath file = outputPath) (GetOutputFiles actionResult) of
              Some _ \<Rightarrow>
                ret (Some \<lparr>ResponseStatus = Some \<lparr>status_Code = code_Aborted,
                       status_Message = ''Expected directory but downloaded file''\<rparr>,
                     ResponseUri = uri, ResponseQualifiers = Qualifiers req, ResponseDigest = None\<rparr>,
                   ErrorProto X \<lparr>status_Code = code_Aborted,
                     status_Message = ''Expected directory but downloaded file''\<rparr>)
            | None \<Rightarrow> ret (None, Some (StatusError code_NotFound
                ''Unable to fetch directory from any of the URIs specified'')))
         else
           replyM (
             tryM (ret (NewDigestFromProto X digestFunction digest)) (\<lambda>treeDigest.
             bindM (call (BlobGet (executionStorage rf) treeDigest)) (\<lambda>buf.
             case ToProto X buf KTree (executionMessageSize rf) of
               Inl err \<Rightarrow> ret (Inl err)
             | Inr (MTree tree) \<Rightarrow>
                 tryM (ret (ProtoSerialise X (MDirectory (Root tree)) digestFunction)) (\<lambda>(rootPb, rootDigest).
                 checkM (call (BlobPut (executionStorage rf) rootDigest rootPb)) (
                 tryM (forM (Children tree) (\<lambda>child.
                   tryM (ret (ProtoSerialise X (MDirectory child) digestFunction)) (\<lambda>(childPb, childDigest).
                   checkM (call (BlobPut (executionStorage rf) childDigest childPb)) (ret (Inr ()))))) (\<lambda>_.
                 ret (Inr \<lparr>ResponseStatus = Some \<lparr>status_Code = code_OK,
                        status_Message = ''Directory fetched successfully!''\<rparr>,
                      ResponseUri = uri, ResponseQualifiers = Qualifiers req,
                      ResponseDigest = Some (GetProto X rootDigest)\<rparr>))))
             | Inr _ \<Rightarrow> panicM TypeAssertion)))))"

definition remoteExecutionFetcher_CheckQualifiers :: "Set \<Rightarrow> Set" where
  "remoteExecutionFetcher_CheckQualifiers qualifiers =
     Difference qualifiers (NewSet [''resource_type'', ''vcs.branch'', ''vcs.commit'',
       ''auth.basic.username'', ''auth.basic.password'', ''checksum.sri''])"

definition NewRemoteExecutionFetcher ::
  "('i, 'f, 'd, 'b, 'w) ext \<Rightarrow> nat \<Rightarrow> ('d, 'b, 'w) BlobAccess \<Rightarrow> ('s, 'w) ExecutionClient \<Rightarrow> int \<Rightarrow> 'w Fetcher" where
  "NewRemoteExecutionFetcher X n cas client max_bytes =
    (let rf = \<lparr>executionStorage = cas, executionClient = client, executionMessageSize = max_bytes\<rparr>
     in \<lparr>FetchBlob = remoteExecutionFetcher_FetchBlob X rf n,
         FetchDirectory = remoteExecutionFetcher_FetchDirectory X rf n,
         CheckQualifiers = remoteExecutionFetcher_CheckQualifiers\<rparr>)"

subsection \<open>Waiting ends where streams do\<close>

text \<open>\<open>rank\<close> bounds how many operations that are not done a stream has left.\<close>

definition ranked_streams :: "('s, 'w) ExecutionClient \<Rightarrow> ('s \<Rightarrow> 'w \<Rightarrow> nat) \<Rightarrow> bool" where
  "ranked_streams client rank \<longleftrightarrow>
     (\<forall>s w op w'. Recv client s w = (Inr op, w') \<longrightarrow> \<not> OperationDone op \<longrightarrow> rank s w' < rank s w)"

lemma receiveDone_finishes:
  assumes "ranked_streams client rank"
  shows "rank s w < n \<Longrightarrow> fst (receiveDone client n s w) \<noteq> Unfinished"
proof (induction n arbitrary: w)
  case (Suc n)
  obtain r w' where recv: "Recv client s w = (r, w')" by fastforce
  show ?case
  proof (cases r)
    case (Inl e)
    with recv show ?thesis by (simp add: tryM_def)
  next
    case (Inr op)
    have "\<not> OperationDone op \<Longrightarrow> rank s w' < rank s w"
      using assms recv Inr unfolding ranked_streams_def by blast
    with recv Inr Suc show ?thesis by (auto simp: tryM_def)
  qed
qed simp

lemma fetchUris_never_unfinished:
  assumes "ranked_streams (executionClient rf) rank" "\<And>s w. rank s w < n" "\<And>uri. gen uri \<noteq> Unfinished"
  shows "never_unfinished (fetchUris X rf n inst gen df uris)"
proof (induction uris)
  case (Cons uri uris)
  have receive: "never_unfinished (receiveDone (executionClient rf) n s)" for s
    using receiveDone_finishes [OF assms(1,2)] by (simp add: never_unfinished_def)
  show ?case
    unfolding fetchUris.simps Let_def
    by (auto intro!: finish_rules receive Cons.IH assms(3) split: list.split
        simp del: ret_run lift_run panicM_run bindM_call checkM_call)
qed (simp add: never_unfinished_ret del: ret_run)

lemma generated_not_Unfinished:
  "QualifiersToCommand qs = Inr gen \<Longrightarrow> gen uri \<noteq> Unfinished"
  by (auto simp: QualifiersToCommand_Inr gitCommand_def octetStreamCommand_def Let_def
      split: option.splits run.splits)

lemma fetchCommon_never_unfinished:
  assumes "ranked_streams (executionClient rf) rank" "\<And>s w. rank s w < n"
  shows "never_unfinished (fetchCommon X rf n req df)"
proof (cases "QualifiersToCommand (Qualifiers req)")
  case (Inr gen)
  then show ?thesis
    using fetchUris_never_unfinished [OF assms generated_not_Unfinished [OF Inr]]
    by (simp add: fetchCommon_def del: ret_run)
qed (simp add: fetchCommon_def never_unfinished_ret del: ret_run)

subsection \<open>What a fetch that succeeded ran\<close>

definition client_keeps :: "('s, 'w) ExecutionClient \<Rightarrow> ('w \<Rightarrow> 'v) \<Rightarrow> bool" where
  "client_keeps client view \<longleftrightarrow>
     (\<forall>i d w. view (snd (Execute client i d w)) = view w) \<and> (\<forall>s w. view (snd (Recv client s w)) = view w)"

lemma receiveDone_keeps:
  "client_keeps client view \<Longrightarrow> preserves (\<lambda>w. view w = v) (receiveDone client n s)"
  by (induction n) (auto intro!: frame_rules preserves_call simp: client_keeps_def simp del: lift_run ret_run)

lemma receiveDone_answer:
  "receiveDone client n s w = (Done (Inr ar), w') \<Longrightarrow>
     \<exists>op w1 w2. Recv client s w1 = (Inr op, w2) \<and> OperationDone op \<and> OperationResponse op = Inr ar"
proof (induction n arbitrary: w)
  case (Suc n)
  from Suc.prems obtain op w1 where recv: "Recv client s w = (Inr op, w1)"
    and rest: "(if OperationDone op then ret (OperationResponse op) else receiveDone client n s) w1
      = (Done (Inr ar), w')"
    by (auto simp del: ret_run elim!: tryM_InrE)
  show ?case
  proof (cases "OperationDone op")
    case False
    with rest have "receiveDone client n s w1 = (Done (Inr ar), w')" by simp
    then show ?thesis by (rule Suc.IH)
  qed (use recv rest in auto)
qed simp

text \<open>\<open>ran\<close>: the execution service was asked, for an instance, to run the action of a
  command, when action and command were in storage, and its stream gave a result.\<close>

definition ran ::
  "('i, 'f, 'd, 'b, 'w) ext \<Rightarrow> ('s, 'w) ExecutionClient \<Rightarrow> ('w \<Rightarrow> 'd \<rightharpoonup> 'b) \<Rightarrow> 'f \<Rightarrow> string \<Rightarrow> Command \<Rightarrow>
     ActionResult option \<Rightarrow> bool" where
  "ran X client contents df inst command ar \<longleftrightarrow>
     (\<exists>cd ad w stream w' op w1 w2. message_digest X df (MCommand command) = Some cd \<and>
        message_digest X df (MAction \<lparr>CommandDigest = GetProto X cd,
          InputRootDigest = GetProto X (EmptyDigest X df), ActionPlatform = None\<rparr>) = Some ad \<and>
        {cd, ad} \<subseteq> dom (contents w) \<and> Execute client inst (GetProto X ad) w = (Inr stream, w') \<and>
        Recv client stream w1 = (Inr op, w2) \<and> OperationDone op \<and> OperationResponse op = Inr ar)"

text \<open>\<open>attempted\<close>: the command of a URI was run, and gave this result.\<close>

definition attempted ::
  "('i, 'f, 'd, 'b, 'w) ext \<Rightarrow> ('s, 'w) ExecutionClient \<Rightarrow> ('w \<Rightarrow> 'd \<rightharpoonup> 'b) \<Rightarrow> 'f \<Rightarrow> string \<Rightarrow>
     (string \<Rightarrow> Command run) \<Rightarrow> string \<Rightarrow> ActionResult option \<Rightarrow> bool" where
  "attempted X client contents df inst gen uri ar \<longleftrightarrow>
     (\<exists>command. gen uri = Done command \<and> ran X client contents df inst command ar)"

definition first_success ::
  "(string \<Rightarrow> ActionResult option \<Rightarrow> bool) \<Rightarrow> string list \<Rightarrow> string \<Rightarrow> ActionResult option \<Rightarrow> bool" where
  "first_success tried uris uri ar \<longleftrightarrow>
     (\<exists>before after. uris = before @ uri # after \<and> tried uri ar \<and> GetExitCode ar = 0 \<and>
        (\<forall>u\<in>set before. \<exists>ar'. tried u ar' \<and> GetExitCode ar' \<noteq> 0))"

lemma first_success_here: "tried u ar \<Longrightarrow> GetExitCode ar = 0 \<Longrightarrow> first_success tried (u # us) u ar"
  unfolding first_success_def by (metis append_Nil empty_iff empty_set)

lemma first_success_later:
  assumes "tried v ar'" "GetExitCode ar' \<noteq> 0" "first_success tried us u ar"
  shows "first_success tried (v # us) u ar"
proof -
  from assms(3) obtain before rest where us: "us = before @ u # rest" and u: "tried u ar" "GetExitCode ar = 0"
    and failed: "\<forall>u\<in>set before. \<exists>ar'. tried u ar' \<and> GetExitCode ar' \<noteq> 0"
    unfolding first_success_def by blast
  have "v # us = (v # before) @ u # rest" by (simp add: us)
  moreover have "\<forall>u\<in>set (v # before). \<exists>ar'. tried u ar' \<and> GetExitCode ar' \<noteq> 0"
    using assms(1,2) failed by auto
  ultimately show ?thesis using u unfolding first_success_def by blast
qed

lemma fetchUris_success:
  assumes keeps: "keeps_blobs X (executionStorage rf) contents"
    and run: "fetchUris X rf n inst gen df uris w = (Done (Inr (ar, uri, path)), w')"
  shows "first_success (attempted X (executionClient rf) contents df inst gen) uris uri ar \<and>
    (\<exists>command rest. gen uri = Done command \<and> OutputPaths command = path # rest)"
  using run
proof (induction uris arbitrary: w)
  case (Cons u uris)
  from Cons.prems obtain command cpb cd apb ad w1 w2 stream w3 ar0 w4 where
    command: "gen u = Done command"
    and cd: "ProtoSerialise X (MCommand command) df = Inr (cpb, cd)"
    and ad: "ProtoSerialise X (MAction \<lparr>CommandDigest = GetProto X cd,
        InputRootDigest = GetProto X (EmptyDigest X df), ActionPlatform = None\<rparr>) df = Inr (apb, ad)"
    and put1: "BlobPut (executionStorage rf) ad apb w = (None, w1)"
    and put2: "BlobPut (executionStorage rf) cd cpb w1 = (None, w2)"
    and exec: "Execute (executionClient rf) inst (GetProto X ad) w2 = (Inr stream, w3)"
    and receive: "receiveDone (executionClient rf) n stream w3 = (Done (Inr ar0), w4)"
    and rest: "(if GetExitCode ar0 \<noteq> 0 then
         bindM (call (LogPrintf X (LogUnsuccessful u))) (\<lambda>_. fetchUris X rf n inst gen df uris)
       else
         (case OutputPaths command of
            [] \<Rightarrow> panicM IndexOutOfRange
          | outputPath # _ \<Rightarrow> ret (Inr (ar0, u, outputPath)))) w4 = (Done (Inr (ar, uri, path)), w')"
    by (auto simp: Let_def elim!: bindM_DoneE tryM_InrE checkM_InrE split: prod.split_asm
        simp del: checkM_call bindM_call)
  have "{cd, ad} \<subseteq> dom (contents w2)"
    using keeps_blobs_Put [OF keeps put1] keeps_blobs_Put [OF keeps put2] by auto
  moreover have "message_digest X df (MCommand command) = Some cd"
    "message_digest X df (MAction \<lparr>CommandDigest = GetProto X cd,
        InputRootDigest = GetProto X (EmptyDigest X df), ActionPlatform = None\<rparr>) = Some ad"
    by (simp_all add: message_digest_def cd ad)
  ultimately have ran: "ran X (executionClient rf) contents df inst command ar0"
    using exec receiveDone_answer [OF receive] unfolding ran_def by blast
  with command have tried: "attempted X (executionClient rf) contents df inst gen u ar0"
    by (auto simp: attempted_def)
  show ?case
  proof (cases "GetExitCode ar0 = 0")
    case True
    with command rest tried show ?thesis by (auto intro: first_success_here split: list.split_asm)
  next
    case False
    with rest obtain w5 where "fetchUris X rf n inst gen df uris w5 = (Done (Inr (ar, uri, path)), w')"
      by (auto elim!: bindM_DoneE)
    from Cons.IH [OF this] first_success_later [where tried = "attempted X (executionClient rf) contents df inst gen",
        OF tried False]
    show ?thesis by blast
  qed
qed simp

lemma foldl_last_match:
  "foldl (\<lambda>d x. if P x then g x else d) d0 xs = (case find P (rev xs) of None \<Rightarrow> d0 | Some x \<Rightarrow> g x)"
  by (induction xs rule: rev_induct) auto

lemma find_SomeD: "find P xs = Some x \<Longrightarrow> x \<in> set xs \<and> P x"
  by (induction xs) (auto split: if_splits)

text \<open>What the outputs of a result say of a path: the last of them wins.\<close>

lemma output_found:
  assumes "GetSize d0 = 0" "GetSize (foldl (\<lambda>d x. if P x then g x else d) d0 xs) \<noteq> 0"
  obtains x where "x \<in> set xs" "P x" "foldl (\<lambda>d x. if P x then g x else d) d0 xs = g x"
proof (cases "find P (rev xs)")
  case None
  with assms show thesis by (simp add: foldl_last_match)
next
  case (Some x)
  then have "x \<in> set xs" "P x" by (auto dest: find_SomeD)
  with Some that show thesis by (simp add: foldl_last_match)
qed

text \<open>\<open>answers\<close>: a URI of a request is the first whose command, as the qualifiers
  generate it, ran with exit code zero, and this is its result.\<close>

definition answers ::
  "('i, 'f, 'd, 'b, 'w) ext \<Rightarrow> ('s, 'w) ExecutionClient \<Rightarrow> ('w \<Rightarrow> 'd \<rightharpoonup> 'b) \<Rightarrow> 'f \<Rightarrow> FetchRequest \<Rightarrow> string \<Rightarrow>
     ActionResult option \<Rightarrow> bool" where
  "answers X client contents df req uri ar \<longleftrightarrow>
     (\<exists>gen. QualifiersToCommand (Qualifiers req) = Inr gen \<and>
        first_success (attempted X client contents df (InstanceName req) gen) (Uris req) uri ar)"

lemma fetchCommon_success:
  assumes "keeps_blobs X (executionStorage rf) contents"
    and "fetchCommon X rf n req df w = (Done (Inr (ar, uri, path)), w')"
  shows "answers X (executionClient rf) contents df req uri ar \<and> path = ''out''"
proof -
  from assms(2) obtain gen where gen: "QualifiersToCommand (Qualifiers req) = Inr gen"
    and run: "fetchUris X rf n (InstanceName req) gen df (Uris req) w = (Done (Inr (ar, uri, path)), w')"
    by (auto simp: fetchCommon_def tryM_Inr_iff)
  from fetchUris_success [OF assms(1) run] gen show ?thesis
    unfolding answers_def by (auto dest: generated_command(1))
qed

subsection \<open>Fetching\<close>

lemma FetchBlob_never_unfinished:
  assumes "ranked_streams (executionClient rf) rank" "\<And>s w. rank s w < n"
  shows "never_unfinished (remoteExecutionFetcher_FetchBlob X rf n req)"
  unfolding remoteExecutionFetcher_FetchBlob_def Let_def
  using fetchCommon_never_unfinished [OF assms]
  by (auto intro!: finish_rules split: sum.split option.split simp del: ret_run)

lemma FetchDirectory_never_unfinished:
  assumes "ranked_streams (executionClient rf) rank" "\<And>s w. rank s w < n"
  shows "never_unfinished (remoteExecutionFetcher_FetchDirectory X rf n req)"
  unfolding remoteExecutionFetcher_FetchDirectory_def Let_def
  using fetchCommon_never_unfinished [OF assms]
  by (auto intro!: finish_rules
      split: sum.split option.split message.split
      simp del: ret_run lift_run panicM_run bindM_call checkM_call)

lemma ErrorProto_aborted:
  "statuses_ok X \<Longrightarrow>
     ErrorProto X \<lparr>status_Code = code_Aborted, status_Message = m\<rparr> = Some (StatusError code_Aborted m)"
  by (simp add: statuses_ok_def)

lemma FetchBlob_remote_success:
  assumes keeps: "keeps_blobs X (executionStorage rf) contents" and "statuses_ok X"
    and df: "getDigestFunction X (DigestFunction req) (InstanceName req) = Inr df"
    and empty: "SizeBytes (GetProto X (EmptyDigest X df)) = 0"
    and run: "remoteExecutionFetcher_FetchBlob X rf n req w = (Done (Some resp, None), w')"
  obtains ar out where "answers X (executionClient rf) contents df req (ResponseUri resp) ar"
    "out \<in> set (GetOutputFiles ar)" "OutFilePath out = ''out''"
    "ResponseDigest resp = OutFileDigest out" "GetSize (OutFileDigest out) \<noteq> 0"
proof -
  let ?digest = "\<lambda>ar path. foldl (\<lambda>digest file. if OutFilePath file = path then OutFileDigest file else digest)
    (Some (GetProto X (EmptyDigest X df))) (GetOutputFiles ar)"
  from run df obtain r w1 where common: "fetchCommon X rf n req df w = (Done r, w1)"
    and rest: "(case r of Inl err \<Rightarrow> ret (None, Some err)
       | Inr (actionResult, uri, outputPath) \<Rightarrow>
         let digest = ?digest actionResult outputPath
         in if GetSize digest = 0 then
           (case find (\<lambda>directory. OutDirPath directory = outputPath) (GetOutputDirectories actionResult) of
              Some _ \<Rightarrow>
                ret (Some \<lparr>ResponseStatus = Some \<lparr>status_Code = code_Aborted,
                       status_Message = ''Expected blob but downloaded directory''\<rparr>,
                     ResponseUri = uri, ResponseQualifiers = Qualifiers req, ResponseDigest = None\<rparr>,
                   ErrorProto X \<lparr>status_Code = code_Aborted,
                     status_Message = ''Expected blob but downloaded directory''\<rparr>)
            | None \<Rightarrow> ret (None, Some (StatusError code_NotFound
                ''Unable to fetch blob from any of the URIs specified'')))
         else
           ret (Some \<lparr>ResponseStatus = Some \<lparr>status_Code = code_OK,
                  status_Message = ''Blob fetched successfully!''\<rparr>,
                ResponseUri = uri, ResponseQualifiers = Qualifiers req, ResponseDigest = digest\<rparr>, None)) w1
      = (Done (Some resp, None), w')"
    by (auto simp: remoteExecutionFetcher_FetchBlob_def elim!: bindM_DoneE)
  from rest assms(2) obtain ar where r: "r = Inr (ar, ResponseUri resp, ''out'')" and
    "ResponseDigest resp = ?digest ar ''out''" "GetSize (?digest ar ''out'') \<noteq> 0"
    using common fetchCommon_success [OF keeps]
    by (auto simp: Let_def ErrorProto_aborted split: sum.split_asm if_split_asm option.split_asm)
  moreover have "answers X (executionClient rf) contents df req (ResponseUri resp) ar"
    using fetchCommon_success [OF keeps] common r by blast
  moreover have "GetSize (Some (GetProto X (EmptyDigest X df))) = 0"
    using empty by (simp add: GetSize_def)
  from output_found [OF this calculation(3)] obtain out where "out \<in> set (GetOutputFiles ar)"
    "OutFilePath out = ''out''" "?digest ar ''out'' = OutFileDigest out" by auto
  ultimately show thesis using that by simp
qed

text \<open>The message of a directory is in storage, under the digest of that message.\<close>

definition directory_stored ::
  "('i, 'f, 'd, 'b, 'w) ext \<Rightarrow> ('w \<Rightarrow> 'd \<rightharpoonup> 'b) \<Rightarrow> 'f \<Rightarrow> 'w \<Rightarrow> Directory \<Rightarrow> bool" where
  "directory_stored X contents df w dir \<longleftrightarrow>
     (\<exists>d. message_digest X df (MDirectory dir) = Some d \<and> d \<in> dom (contents w))"

lemma put_directory_stored:
  assumes keeps: "keeps_blobs X cas contents"
    and run: "tryM (ret (ProtoSerialise X (MDirectory child) df)) (\<lambda>(buf, d).
      checkM (call (BlobPut cas d buf)) (ret (Inr ()))) w1 = (Done (Inr ()), w2)"
  shows "directory_stored X contents df w2 child"
    and "directory_stored X contents df w1 dir \<Longrightarrow> directory_stored X contents df w2 dir"
proof -
  from run obtain buf d where ser: "ProtoSerialise X (MDirectory child) df = Inr (buf, d)"
    and put: "BlobPut cas d buf w1 = (None, w2)"
    by (auto simp: tryM_Inr_iff checkM_Inr_iff split: prod.split_asm simp del: checkM_call)
  from keeps_blobs_Put [OF keeps put]
  show "directory_stored X contents df w2 child"
    and "directory_stored X contents df w1 dir \<Longrightarrow> directory_stored X contents df w2 dir"
    by (auto simp: directory_stored_def message_digest_def ser)
qed

text \<open>The second half of a directory fetch: the tree's directories go into storage.\<close>

lemma put_tree_stored:
  assumes keeps: "keeps_blobs X cas contents"
    and run: "tryM (ret (ProtoSerialise X (MDirectory (Root tree)) df)) (\<lambda>(rootPb, rootDigest).
       checkM (call (BlobPut cas rootDigest rootPb)) (
       tryM (forM (Children tree) (\<lambda>child.
         tryM (ret (ProtoSerialise X (MDirectory child) df)) (\<lambda>(childPb, childDigest).
         checkM (call (BlobPut cas childDigest childPb)) (ret (Inr ()))))) (\<lambda>_.
       ret (Inr (f rootDigest))))) w = (Done (Inr r), w')"
  obtains d where "message_digest X df (MDirectory (Root tree)) = Some d" "r = f d"
    "list_all (directory_stored X contents df w') (Root tree # Children tree)"
proof -
  let ?put = "\<lambda>child. tryM (ret (ProtoSerialise X (MDirectory child) df)) (\<lambda>(childPb, childDigest).
     checkM (call (BlobPut cas childDigest childPb)) (ret (Inr ())))"
  from run obtain pb d w1 where ser: "ProtoSerialise X (MDirectory (Root tree)) df = Inr (pb, d)"
    and put: "BlobPut cas d pb w = (None, w1)" and loop: "forM (Children tree) ?put w1 = (Done (Inr ()), w')"
    and r: "r = f d"
    by (auto simp: tryM_Inr_iff checkM_Inr_iff split: prod.split_asm simp del: checkM_call)
  have "?put (Root tree) w = (Done (Inr ()), w1)" by (simp add: ser put)
  note root = put_directory_stored(1) [OF keeps this]
  have "directory_stored X contents df w' dir" if "dir \<in> set (Root tree # Children tree)" for dir
    by (rule forM_establishes [OF loop, where Q = "\<lambda>dir w. directory_stored X contents df w dir"])
       (use that root put_directory_stored [OF keeps] in auto)
  moreover have "message_digest X df (MDirectory (Root tree)) = Some d"
    by (simp add: message_digest_def ser)
  ultimately show thesis using r that unfolding list_all_iff by blast
qed

text \<open>The tree of a result, as it was read from storage.\<close>

definition tree_read ::
  "('i, 'f, 'd, 'b, 'w) ext \<Rightarrow> ('d, 'b, 'w) BlobAccess \<Rightarrow> int \<Rightarrow> 'f \<Rightarrow> Digest option \<Rightarrow> Tree \<Rightarrow> bool" where
  "tree_read X cas lim df td tree \<longleftrightarrow>
     (\<exists>d w. NewDigestFromProto X df td = Inr d \<and> ToProto X (fst (BlobGet cas d w)) KTree lim = Inr (MTree tree))"

lemma FetchDirectory_remote_success:
  assumes keeps: "keeps_blobs X (executionStorage rf) contents" and ok: "statuses_ok X"
    and df: "getDigestFunction X (DigestFunction req) (InstanceName req) = Inr df"
    and empty: "SizeBytes (GetProto X (EmptyDigest X df)) = 0"
    and run: "remoteExecutionFetcher_FetchDirectory X rf n req w = (Done (Some resp, None), w')"
  obtains ar out tree d where "answers X (executionClient rf) contents df req (ResponseUri resp) ar"
    "out \<in> set (GetOutputDirectories ar)" "OutDirPath out = ''out''"
    "tree_read X (executionStorage rf) (executionMessageSize rf) df (TreeDigest out) tree"
    "message_digest X df (MDirectory (Root tree)) = Some d" "ResponseDigest resp = Some (GetProto X d)"
    "list_all (directory_stored X contents df w') (Root tree # Children tree)"
proof -
  let ?req = "\<lparr>InstanceName = InstanceName req, OldestContentAccepted = None, Uris = Uris req,
    Qualifiers = Qualifiers req, DigestFunction = DF_UNKNOWN\<rparr>"
  let ?digest = "\<lambda>ar path. foldl (\<lambda>digest directory. if OutDirPath directory = path then TreeDigest directory else digest)
    (Some (GetProto X (EmptyDigest X df))) (GetOutputDirectories ar)"
  let ?cas = "executionStorage rf"
  let ?resp = "\<lambda>uri d. \<lparr>ResponseStatus = Some \<lparr>status_Code = code_OK, status_Message = ''Directory fetched successfully!''\<rparr>,
    ResponseUri = uri, ResponseQualifiers = Qualifiers req, ResponseDigest = Some (GetProto X d)\<rparr>"
  from run df obtain ar uri path w1 where common: "fetchCommon X rf n ?req df w = (Done (Inr (ar, uri, path)), w1)"
    and size: "GetSize (?digest ar path) \<noteq> 0"
    and rest: "tryM (ret (NewDigestFromProto X df (?digest ar path))) (\<lambda>treeDigest.
       bindM (call (BlobGet ?cas treeDigest)) (\<lambda>buf.
       case ToProto X buf KTree (executionMessageSize rf) of
         Inl err \<Rightarrow> ret (Inl err)
       | Inr (MTree tree) \<Rightarrow>
           tryM (ret (ProtoSerialise X (MDirectory (Root tree)) df)) (\<lambda>(rootPb, rootDigest).
           checkM (call (BlobPut ?cas rootDigest rootPb)) (
           tryM (forM (Children tree) (\<lambda>child.
             tryM (ret (ProtoSerialise X (MDirectory child) df)) (\<lambda>(childPb, childDigest).
             checkM (call (BlobPut ?cas childDigest childPb)) (ret (Inr ()))))) (\<lambda>_.
           ret (Inr (?resp uri rootDigest)))))
       | Inr _ \<Rightarrow> panicM TypeAssertion)) w1 = (Done (Inr resp), w')"
    by (auto simp: remoteExecutionFetcher_FetchDirectory_def Let_def replyM_success ErrorProto_aborted [OF ok]
        elim!: bindM_DoneE split: sum.split_asm option.split_asm if_split_asm
        simp del: bindM_call checkM_call)
  from fetchCommon_success [OF keeps common]
  have ans: "answers X (executionClient rf) contents df req uri ar" and path: "path = ''out''"
    by (auto simp: answers_def)
  from size path empty obtain out where out: "out \<in> set (GetOutputDirectories ar)"
    "OutDirPath out = ''out''" "?digest ar path = TreeDigest out"
    using output_found [where ?d0.0 = "Some (GetProto X (EmptyDigest X df))" and g = TreeDigest
        and P = "\<lambda>x. OutDirPath x = path" and xs = "GetOutputDirectories ar"]
    by (auto simp: GetSize_def)
  from rest obtain td where td: "NewDigestFromProto X df (TreeDigest out) = Inr td"
    and rest: "bindM (call (BlobGet ?cas td)) (\<lambda>buf.
       case ToProto X buf KTree (executionMessageSize rf) of
         Inl err \<Rightarrow> ret (Inl err)
       | Inr (MTree tree) \<Rightarrow>
           tryM (ret (ProtoSerialise X (MDirectory (Root tree)) df)) (\<lambda>(rootPb, rootDigest).
           checkM (call (BlobPut ?cas rootDigest rootPb)) (
           tryM (forM (Children tree) (\<lambda>child.
             tryM (ret (ProtoSerialise X (MDirectory child) df)) (\<lambda>(childPb, childDigest).
             checkM (call (BlobPut ?cas childDigest childPb)) (ret (Inr ()))))) (\<lambda>_.
           ret (Inr (?resp uri rootDigest)))))
       | Inr _ \<Rightarrow> panicM TypeAssertion) w1 = (Done (Inr resp), w')"
    unfolding out(3) by (rule tryM_InrE) auto
  obtain buf w3 where get: "BlobGet ?cas td w1 = (buf, w3)" by fastforce
  from rest obtain tree where tree: "ToProto X buf KTree (executionMessageSize rf) = Inr (MTree tree)"
    and put: "tryM (ret (ProtoSerialise X (MDirectory (Root tree)) df)) (\<lambda>(rootPb, rootDigest).
           checkM (call (BlobPut ?cas rootDigest rootPb)) (
           tryM (forM (Children tree) (\<lambda>child.
             tryM (ret (ProtoSerialise X (MDirectory child) df)) (\<lambda>(childPb, childDigest).
             checkM (call (BlobPut ?cas childDigest childPb)) (ret (Inr ()))))) (\<lambda>_.
           ret (Inr (?resp uri rootDigest))))) w3 = (Done (Inr resp), w')"
    by (simp add: get bindM_call split: sum.split_asm message.split_asm del: checkM_call)
  have "tree_read X ?cas (executionMessageSize rf) df (TreeDigest out) tree"
    unfolding tree_read_def using td get tree by (metis fst_conv)
  with put_tree_stored [OF keeps put] ans out(1,2) that show thesis
    by (metis FetchResponse.select_convs(2,4))
qed

end
