(* ===== verification/Configuration.thy ===== *)
theory Configuration
  imports PushServer CachingFetcher ActionCacheContract GateFetchers ObserverFetchers HTTPFetcher
    RemoteExecutionFetcher
begin

section \<open>Building the service (pkg/configuration, cmd/bb_remote_asset/main.go)\<close>

text \<open>
  How the parts are put together: the asset store behind its authorizer, the fetcher behind
  the cache, the validation, the log, the metrics and the authorizer, and the push server
  behind its metrics. What bb-storage and the other libraries build from configuration
  messages (\<open>'g\<close> storage, \<open>'h\<close> HTTP client, \<open>'r\<close> gRPC client) is a field of
  \<open>factories\<close>; the fuel \<open>n\<close> is the bound of the loops that carry one. The last section proves that an asset pushed to the service is what a
  fetch through all the layers returns.
\<close>

datatype 'g AssetCacheBackend = BackendBlobAccess 'g | BackendActionCache 'g | BackendUnset

record 'g AssetCacheConfiguration =
  CacheBackend :: "'g AssetCacheBackend"
  ActionCachePlatform :: "Platform option"

datatype ('h, 'r) FetcherConfiguration =
  BackendHttp 'h | BackendError Status | BackendRemoteExecution 'r | BackendNone

text \<open>\<open>HttpLibrary\<close> is the code outside that the HTTP fetcher uses.\<close>

record ('g, 'h, 'r, 'f, 'd, 'b, 'o, 't, 's, 'w) factories =
  NewAssetBlobAccess :: "'g \<Rightarrow> error + ('d, 'b, 'w) BlobAccess"
  NewACBlobAccess :: "'g \<Rightarrow> error + ('d, 'b, 'w) BlobAccess"
  HttpLibrary :: "('f, 'd, 'b, 'o, 't, 'w) http_ext"
  NewHttpClient :: "'h \<Rightarrow> error + ('o, 'w) HttpClient"
  NewExecutionClient :: "'r \<Rightarrow> error + ('s, 'w) ExecutionClient"

definition NewAssetStoreFromConfiguration ::
  "('i, 'f, 'd, 'b, 'w) ext \<Rightarrow> ('g, 'h, 'r, 'f, 'd, 'b, 'o, 't, 's, 'w) factories \<Rightarrow> nat \<Rightarrow> 'g AssetCacheConfiguration \<Rightarrow>
     ('d, 'b, 'w) BlobAccess \<Rightarrow> int \<Rightarrow> ('i, 'w) Authorizer \<Rightarrow> ('i, 'w) Authorizer \<Rightarrow>
     error + ('f, 'w) AssetStore" where
  "NewAssetStoreFromConfiguration X env n configuration cas max_bytes fetchAuth pushAuth =
    (case (case CacheBackend configuration of
             BackendBlobAccess g \<Rightarrow>
               (case NewAssetBlobAccess env g of
                  Inl err \<Rightarrow> Inl err
                | Inr assetBlobAccess \<Rightarrow> Inr (NewBlobAccessAssetStore X assetBlobAccess max_bytes))
           | BackendActionCache g \<Rightarrow>
               (case NewACBlobAccess env g of
                  Inl err \<Rightarrow> Inl err
                | Inr ac \<Rightarrow> Inr (NewActionCacheAssetStore X n ac cas max_bytes
                    (ActionCachePlatform configuration)))
           | BackendUnset \<Rightarrow> Inl (StatusError code_InvalidArgument
               ''Asset Cache configuration is invalid as no supported Asset Cache is defined.'')) of
       Inl err \<Rightarrow> Inl err
     | Inr st \<Rightarrow> Inr (NewAuthorizingAssetStore X st fetchAuth pushAuth))"

definition NewFetcherFromConfiguration ::
  "('i, 'f, 'd, 'b, 'w) ext \<Rightarrow> ('g, 'h, 'r, 'f, 'd, 'b, 'o, 't, 's, 'w) factories \<Rightarrow> nat \<Rightarrow>
     ('h, 'r) FetcherConfiguration option \<Rightarrow> ('f, 'w) AssetStore option \<Rightarrow> ('d, 'b, 'w) BlobAccess \<Rightarrow> int \<Rightarrow>
     ('i, 'w) Authorizer \<Rightarrow> error + 'w Fetcher" where
  "NewFetcherFromConfiguration X env n configuration st cas max_bytes auth =
    (case (case configuration of
             None \<Rightarrow> Inr (DefaultFetcher X)
           | Some (BackendHttp h) \<Rightarrow>
               (case NewHttpClient env h of
                  Inl err \<Rightarrow> Inl err
                | Inr client \<Rightarrow> Inr (NewHTTPFetcher X (HttpLibrary env) n client cas))
           | Some (BackendError err) \<Rightarrow> Inr (NewErrorFetcher X err)
           | Some (BackendRemoteExecution r) \<Rightarrow>
               (case NewExecutionClient env r of
                  Inl err \<Rightarrow> Inl err
                | Inr client \<Rightarrow> Inr (NewRemoteExecutionFetcher X n cas client max_bytes))
           | Some BackendNone \<Rightarrow> Inl (StatusError code_InvalidArgument
               ''Fetcher configuration is invalid as no supported Fetchers are defined.'')) of
       Inl err \<Rightarrow> Inl err
     | Inr fetcher \<Rightarrow>
         (let fetcher = (case st of Some st \<Rightarrow> NewCachingFetcher X fetcher st | None \<Rightarrow> fetcher)
          in Inr (NewAuthorizingFetcher X
               (NewMetricsFetcher X (NewLoggingFetcher X (NewValidatingFetcher X fetcher))) auth)))"

text \<open>The instance names that may be pushed to.\<close>

fun allowUpdates ::
  "('i, 'f, 'd, 'b, 'w) ext \<Rightarrow> string list \<Rightarrow> ('i \<rightharpoonup> bool) \<Rightarrow> error + ('i \<rightharpoonup> bool)" where
  "allowUpdates X [] allowed = Inr allowed"
| "allowUpdates X (inst # insts) allowed =
     (case NewInstanceName X inst of
        Inl err \<Rightarrow> Inl (StatusWrapf X err (''Invalid instance name '' @ GoQuote X inst))
      | Inr instanceName \<Rightarrow> allowUpdates X insts (allowed(instanceName \<mapsto> True)))"

record ('g, 'h, 'r) ApplicationConfiguration =
  AssetCache :: "'g AssetCacheConfiguration option"
  AllowUpdatesForInstances :: "string list"
  FetcherConf :: "('h, 'r) FetcherConfiguration option"
  MaximumMessageSizeBytes :: int

text \<open>The part of \<open>main\<close> that builds the two servers.\<close>

definition newServers ::
  "('i, 'f, 'd, 'b, 'w) ext \<Rightarrow> ('g, 'h, 'r, 'f, 'd, 'b, 'o, 't, 's, 'w) factories \<Rightarrow> nat \<Rightarrow>
     ('g, 'h, 'r) ApplicationConfiguration \<Rightarrow> ('d, 'b, 'w) BlobAccess \<Rightarrow> ('i, 'w) Authorizer \<Rightarrow>
     ('i, 'w) Authorizer \<Rightarrow> error + ('w Fetcher \<times> 'w PushServer)" where
  "newServers X env n config cas fetchAuth pushAuth =
    (case (case AssetCache config of
             None \<Rightarrow> Inr None
           | Some cache \<Rightarrow>
               (case NewAssetStoreFromConfiguration X env n cache cas (MaximumMessageSizeBytes config)
                  fetchAuth pushAuth of
                  Inl err \<Rightarrow> Inl (StatusWrapf X err ''Failed to create asset store'')
                | Inr st \<Rightarrow> Inr (Some st))) of
       Inl err \<Rightarrow> Inl err
     | Inr st \<Rightarrow>
    (case allowUpdates X (AllowUpdatesForInstances config) Map.empty of
       Inl err \<Rightarrow> Inl err
     | Inr allow \<Rightarrow>
    (case NewFetcherFromConfiguration X env n (FetcherConf config) st cas (MaximumMessageSizeBytes config)
        fetchAuth of
       Inl err \<Rightarrow> Inl (StatusWrapf X err ''Failed to initialize fetch server from configuration'')
     | Inr fetchServer \<Rightarrow>
         Inr (fetchServer,
           case st of
             Some st \<Rightarrow> NewMetricsAssetPushServer X (NewAssetPushServer X st allow)
           | None \<Rightarrow> NewErrorPushServer X \<lparr>status_Code = code_FailedPrecondition,
               status_Message = ''Server is not configured to allow pushing assets''\<rparr>))))"

subsection \<open>The layers of the service\<close>

definition fetch_layers ::
  "('i, 'f, 'd, 'b, 'w) ext \<Rightarrow> ('i, 'w) Authorizer \<Rightarrow> 'w Fetcher \<Rightarrow> 'w Fetcher" where
  "fetch_layers X auth f = NewAuthorizingFetcher X
     (NewMetricsFetcher X (NewLoggingFetcher X (NewValidatingFetcher X f))) auth"

lemma allowUpdates_Inr:
  "allowUpdates X insts m = Inr m' \<longleftrightarrow>
     (\<forall>s\<in>set insts. \<not> isl (NewInstanceName X s)) \<and>
     m' = (\<lambda>i. if \<exists>s\<in>set insts. NewInstanceName X s = Inr i then Some True else m i)"
proof (induction insts arbitrary: m)
  case (Cons s insts)
  then show ?case by (cases "NewInstanceName X s") (auto simp: fun_eq_iff)
qed auto

text \<open>Every server that is built has these layers.\<close>

lemma newServers_Inr:
  assumes "newServers X env n config cas fa pa = Inr (fs, ps)"
  obtains (cached) cache st allow f where "AssetCache config = Some cache"
      "NewAssetStoreFromConfiguration X env n cache cas (MaximumMessageSizeBytes config) fa pa = Inr st"
      "allowUpdates X (AllowUpdatesForInstances config) Map.empty = Inr allow"
      "fs = fetch_layers X fa (NewCachingFetcher X f st)"
      "ps = NewMetricsAssetPushServer X (NewAssetPushServer X st allow)"
    | (uncached) f where "AssetCache config = None" "fs = fetch_layers X fa f"
      "ps = NewErrorPushServer X \<lparr>status_Code = code_FailedPrecondition,
         status_Message = ''Server is not configured to allow pushing assets''\<rparr>"
  using assms
  by (auto simp: newServers_def NewFetcherFromConfiguration_def fetch_layers_def Let_def
      split: option.split_asm sum.split_asm)

text \<open>The fetch server over HTTP, with the assets in a blob access.\<close>

lemma newServers_http:
  assumes "newServers X env n config cas fa pa = Inr (fs, ps)"
    and "AssetCache config = Some cache" "CacheBackend cache = BackendBlobAccess g" "NewAssetBlobAccess env g = Inr ba"
    and "FetcherConf config = Some (BackendHttp h)" "NewHttpClient env h = Inr client"
  shows "fs = fetch_layers X fa (NewCachingFetcher X (NewHTTPFetcher X (HttpLibrary env) n client cas)
    (NewAuthorizingAssetStore X (NewBlobAccessAssetStore X ba (MaximumMessageSizeBytes config)) fa pa))"
  using assms
  by (auto simp: newServers_def NewFetcherFromConfiguration_def NewAssetStoreFromConfiguration_def fetch_layers_def
      Let_def split: sum.split_asm)

lemma CheckQualifiers_caching [simp]:
  "CheckQualifiers (NewCachingFetcher X f st) = CheckQualifiers f"
  by (simp add: NewCachingFetcher_def cachingFetcher_CheckQualifiers_def fun_eq_iff Let_def)

lemma CheckQualifiers_layers [simp]: "CheckQualifiers (fetch_layers X A f) = CheckQualifiers f"
  by (simp add: fetch_layers_def NewAuthorizingFetcher_def NewMetricsFetcher_def NewLoggingFetcher_def
      NewValidatingFetcher_def metricsFetcher_CheckQualifiers_def loggingFetcher_CheckQualifiers_def
      validatingFetcher_CheckQualifiers_def Let_def fun_eq_iff)

text \<open>What the fetcher inside answers passes the gates and the log, in some later world whose
  view is that of the first.\<close>

lemma layers_logged:
  assumes "clock_keeps X view" "log_keeps X view" "auth_keeps A view"
    and "NewInstanceName X (InstanceName req) = Inr i"
    and allowed: "\<And>w. fst (AuthorizeSingleInstanceName A i w) = None"
    and "Uris req \<noteq> []" "IsEmpty (CheckQualifiers f (QualifiersToSet (Qualifiers req)))"
    and inner: "\<And>w1. view w1 = view w \<Longrightarrow> \<exists>w2. FetchBlob f req w1 = (Done (Some r, None), w2)"
  obtains w1 w2 where
    "FetchBlob (fetch_layers X A f) req w =
      FetchBlob (NewMetricsFetcher X (NewLoggingFetcher X (NewValidatingFetcher X f))) req w1"
    "FetchBlob (NewLoggingFetcher X (NewValidatingFetcher X f)) req (metrics_before X False req w1) =
      (Done (Some r, None), w2)"
proof -
  obtain w1 where w1: "AuthorizeSingleInstanceName A i w = (None, w1)"
    using allowed by (metis prod.collapse)
  with assms(3) have v1: "view w1 = view w" by (auto dest: auth_keepsD)
  let ?v = "NewValidatingFetcher X f" and ?l = "NewLoggingFetcher X (NewValidatingFetcher X f)"
  define w2 where "w2 = metrics_before X False req w1"
  define w3 where "w3 = logging_before X False req w2"
  have "metrics_quiet X view" using assms(1,2) by (simp add: metrics_quiet_def)
  then have "view w2 = view w1" unfolding w2_def by (rule mf.before_quiet)
  moreover have "view w3 = view w2" unfolding w3_def using assms(2) by (rule lf.before_quiet)
  ultimately have "view w3 = view w" using v1 by simp
  then obtain w4 where "FetchBlob f req w3 = (Done (Some r, None), w4)" using inner by blast
  moreover have "validation X False f req w3 = (Done None, w3)"
    using assms(6,7) by (simp add: validation_admits)
  ultimately have "FetchBlob ?v req w3 = (Done (Some r, None), w4)" by (simp add: vf.gate_admits(1))
  from lf.observes_blob [OF this [unfolded w3_def] TrueI]
  obtain w5 where logged: "FetchBlob ?l req w2 = (Done (Some r, None), w5)" by blast
  have "authorization (X, A) False (NewMetricsFetcher X ?l) req w = (Done None, w1)"
    using w1 assms(4) by simp
  then have "FetchBlob (authorized_fetcher (X, A) (NewMetricsFetcher X ?l)) req w = FetchBlob (NewMetricsFetcher X ?l) req w1"
    by (rule af.gate_admits(1))
  with logged that show thesis by (simp add: fetch_layers_def w2_def)
qed

text \<open>The metrics read it: a response with status and digest passes, one without a digest makes
  the service panic.\<close>

lemma layers_blob_response:
  assumes "clock_keeps X view" "log_keeps X view" "auth_keeps A view"
    and "NewInstanceName X (InstanceName req) = Inr i"
    and "\<And>w. fst (AuthorizeSingleInstanceName A i w) = None"
    and "Uris req \<noteq> []" "IsEmpty (CheckQualifiers f (QualifiersToSet (Qualifiers req)))"
    and "\<And>w1. view w1 = view w \<Longrightarrow> \<exists>w2. FetchBlob f req w1 = (Done (Some r, None), w2)"
    and plain: "metrics_plain False r"
  shows "\<exists>w'. FetchBlob (fetch_layers X A f) req w = (Done (Some r, None), w')"
  using assms(1-8)
proof (rule layers_logged)
  fix w1 w2
  assume "FetchBlob (fetch_layers X A f) req w =
      FetchBlob (NewMetricsFetcher X (NewLoggingFetcher X (NewValidatingFetcher X f))) req w1"
    "FetchBlob (NewLoggingFetcher X (NewValidatingFetcher X f)) req (metrics_before X False req w1) =
      (Done (Some r, None), w2)"
  with mf.observes_blob [OF this(2) plain] show ?thesis by auto
qed

lemma layers_blob_nil_digest:
  assumes "clock_keeps X view" "log_keeps X view" "auth_keeps A view"
    and "NewInstanceName X (InstanceName req) = Inr i"
    and "\<And>w. fst (AuthorizeSingleInstanceName A i w) = None"
    and "Uris req \<noteq> []" "IsEmpty (CheckQualifiers f (QualifiersToSet (Qualifiers req)))"
    and "\<And>w1. view w1 = view w \<Longrightarrow> \<exists>w2. FetchBlob f req w1 = (Done (Some r, None), w2)"
    and nil: "ResponseStatus r = Some st" "ResponseDigest r = None"
  shows "fst (FetchBlob (fetch_layers X A f) req w) = Panic NilPointer"
  using assms(1-8)
proof (rule layers_logged)
  fix w1 w2
  assume "FetchBlob (fetch_layers X A f) req w =
      FetchBlob (NewMetricsFetcher X (NewLoggingFetcher X (NewValidatingFetcher X f))) req w1"
    "FetchBlob (NewLoggingFetcher X (NewValidatingFetcher X f)) req (metrics_before X False req w1) =
      (Done (Some r, None), w2)"
  with metrics_nil_digest [OF this(2) nil] show ?thesis by simp
qed

text \<open>And a response means that the gates let the request pass, and that the fetcher inside
  gave it.\<close>

lemma layers_unwrap:
  assumes "FetchBlob (fetch_layers X A f) req w = (Done (Some r, e), w')"
  obtains i w1 w2 where "NewInstanceName X (InstanceName req) = Inr i" "AuthorizeSingleInstanceName A i w = (None, w1)"
    "Uris req \<noteq> []" "IsEmpty (CheckQualifiers f (QualifiersToSet (Qualifiers req)))"
    "FetchBlob f req (logging_before X False req (metrics_before X False req w1)) = (Done (Some r, None), w2)"
proof -
  let ?v = "NewValidatingFetcher X f"
  let ?m = "NewMetricsFetcher X (NewLoggingFetcher X ?v)"
  have "FetchBlob (authorized_fetcher (X, A) ?m) req w = (Done (Some r, e), w')"
    using assms by (simp add: fetch_layers_def)
  then obtain w1 where auth: "authorization (X, A) False ?m req w = (Done None, w1)"
    and run: "FetchBlob ?m req w1 = (Done (Some r, e), w')" by (rule af.gate_response)
  from run obtain w2 where
    "FetchBlob ?v req (logging_before X False req (metrics_before X False req w1)) = (Done (Some r, None), w2)"
    by (auto simp: metrics_defs logging_defs elim!: bindM_DoneE dest!: logCompleted_same
        split: prod.split_asm if_split_asm)
  then show thesis
    using that auth by (auto simp: validation_admits vf.wrap_blob gated_def bindM_Done_iff split: option.splits sum.split_asm)
qed

lemma layers_response:
  assumes "FetchBlob (fetch_layers X A f) req w = (Done (Some r, e), w')"
  shows "Uris req \<noteq> [] \<and> IsEmpty (CheckQualifiers f (QualifiersToSet (Qualifiers req))) \<and>
    (\<exists>i w1. NewInstanceName X (InstanceName req) = Inr i \<and> AuthorizeSingleInstanceName A i w = (None, w1))"
  using assms by (rule layers_unwrap) blast

lemma layers_directory_response:
  assumes "FetchDirectory (fetch_layers X A f) req w = (Done (Some r, e), w')"
  shows "Uris req \<noteq> [] \<and> IsEmpty (CheckQualifiers f (QualifiersToSet (Qualifiers req))) \<and>
    (\<exists>i w1. NewInstanceName X (InstanceName req) = Inr i \<and> AuthorizeSingleInstanceName A i w = (None, w1))"
proof -
  let ?v = "NewValidatingFetcher X f"
  let ?m = "NewMetricsFetcher X (NewLoggingFetcher X ?v)"
  have "FetchDirectory (authorized_fetcher (X, A) ?m) req w = (Done (Some r, e), w')"
    using assms by (simp add: fetch_layers_def)
  then obtain w1 where auth: "authorization (X, A) True ?m req w = (Done None, w1)"
    and run: "FetchDirectory ?m req w1 = (Done (Some r, e), w')" by (rule af.gate_directory_response)
  from run obtain w2 where
    "FetchDirectory ?v req (logging_before X True req (metrics_before X True req w1)) = (Done (Some r, None), w2)"
    by (auto simp: metrics_defs logging_defs elim!: bindM_DoneE dest!: logCompleted_same
        split: prod.split_asm if_split_asm)
  then show ?thesis
    using auth by (auto simp: validation_admits vf.wrap_directory gated_def bindM_Done_iff split: option.splits sum.split_asm)
qed

lemma layers_response_inner:
  assumes "FetchBlob (fetch_layers X A f) req w = (Done (Some r, e), w')"
    and "clock_keeps X view" "log_keeps X view" "auth_keeps A view"
  obtains w1 w2 where "FetchBlob f req w1 = (Done (Some r, None), w2)" "view w1 = view w"
  using assms(1)
proof (rule layers_unwrap)
  fix i w1 w2
  assume auth: "AuthorizeSingleInstanceName A i w = (None, w1)"
    and run: "FetchBlob f req (logging_before X False req (metrics_before X False req w1)) = (Done (Some r, None), w2)"
  have "view (logging_before X False req (metrics_before X False req w1)) = view w"
    using assms(2-4) auth by (auto simp: clock_keeps_def log_keeps_def dest: auth_keepsD)
  with run show thesis by (rule that)
qed

subsection \<open>What is pushed is what is fetched\<close>

text \<open>A push that succeeded through the metrics did so inside them.\<close>

lemma metrics_push_success:
  assumes "PushBlob (NewMetricsAssetPushServer X ps) req w = (Done (Some u, None), w')"
    and "clock_keeps X view" "log_keeps X view"
  obtains w1 w2 where "PushBlob ps req w1 = (Done (Some u, None), w2)" "view w1 = view w" "view w' = view w2"
proof -
  let ?w1 = "snd (TimeNow X (case PushDigest req of
      Some d \<Rightarrow> snd (Observe X ''pushBlobBlobSizeBytes'' None (resourceTypeLabel (PushQualifiers req)) (SizeBytes d) w)
    | None \<Rightarrow> w))"
  from assms(1) obtain r req' w2
    where run: "ServeBlob ps req ?w1 = (Done (r, req'), w2)"
      and rest: "bindM (push_updateDurationSeconds X ''pushBlobDurationSeconds'' (StatusCode X (snd r))
         (fst (TimeNow X (case PushDigest req of
            Some d \<Rightarrow> snd (Observe X ''pushBlobBlobSizeBytes'' None (resourceTypeLabel (PushQualifiers req)) (SizeBytes d) w)
          | None \<Rightarrow> w))) (PushQualifiers req')) (\<lambda>_. ret r) w2 = (Done (Some u, None), w')"
    by (cases "PushDigest req")
       (auto simp: NewMetricsAssetPushServer_run push_updateBlobSizeBytes_def
         Let_def case_prod_beta bindM_Done elim!: bindM_DoneE)
  from rest have "r = (Some u, None)" "view w' = view w2"
    using assms(2,3) by (auto simp: push_updateDurationSeconds_def Let_def bindM_assoc clock_keeps_def log_keeps_def)
  moreover have "view ?w1 = view w"
    using assms(2,3) by (cases "PushDigest req") (simp_all add: clock_keeps_def log_keeps_def)
  ultimately show thesis using that PushBlob_served [OF run] by blast
qed

lemma metrics_push_inner:
  assumes "PushBlob (NewMetricsAssetPushServer X ps) req w = (Done (Some u, e), w') \<or>
    PushDirectory (NewMetricsAssetPushServer X ps) req w = (Done (Some u, e), w')"
  obtains w1 w2 where "PushBlob ps req w1 = (Done (Some u, e), w2) \<or> PushDirectory ps req w1 = (Done (Some u, e), w2)"
proof -
  have "\<exists>req' w1 w2. ServeBlob ps req w1 = (Done ((Some u, e), req'), w2) \<or>
      ServeDirectory ps req w1 = (Done ((Some u, e), req'), w2)"
    using assms
    by (cases "PushDigest req")
       (auto simp: NewMetricsAssetPushServer_run push_updateBlobSizeBytes_def push_updateDurationSeconds_def
         Let_def case_prod_beta bindM_assoc elim!: bindM_DoneE; metis prod.collapse)+
  then show thesis using that PushBlob_served PushDirectory_served by metis
qed

context asset_store
begin

text \<open>The store serves a URI: to a fetch with the given qualifiers, whatever else happens.\<close>

lemma layers_serve_blob:
  assumes "ok c" "clock_keeps X (view c)" "log_keeps X (view c)" "auth_keeps A (view c)"
    and "NewInstanceName X (InstanceName req) = Inr i"
    and "\<And>w. fst (AuthorizeSingleInstanceName A i w) = None"
    and "Uris req = u # us" "IsEmpty (CheckQualifiers f (QualifiersToSet (Qualifiers req)))"
    and "getDigestFunction X (DigestFunction req) (InstanceName req) = Inr df"
    and "oldest_accepted X False req = Inr oldest" "\<And>w. admits c df w"
    and held: "view c w df (cache_ref (Qualifiers req) u) = Some a"
    and "everlasting X a" "\<not> too_old X oldest a" "AssetDigest a \<noteq> None"
  shows "\<exists>w'. FetchBlob (fetch_layers X A (NewCachingFetcher X f (store c))) req w
    = (Done (Some (cached_response False req u a), None), w')"
proof (rule layers_blob_response [OF assms(2-6)])
  show "\<exists>w2. FetchBlob (NewCachingFetcher X f (store c)) req w1 =
      (Done (Some (cached_response False req u a), None), w2)" if "view c w1 = view c w" for w1
    unfolding FetchBlob_caching
    using caching_hit [OF assms(1) assms(11) _ assms(13,14) assms(9,10,7)] held that by metis
qed (use assms(7,8,15) in \<open>simp_all add: cached_response_def\<close>)

text \<open>A response through all layers is the backend's or an asset that was stored under a URI of
  the request.\<close>

lemma layers_response_source:
  assumes c: "ok c" "clock_keeps X (view c)" "log_keeps X (view c)" "auth_keeps A (view c)"
    and "FetchBlob (fetch_layers X A (NewCachingFetcher X f (store c))) req w = (Done (Some r, e), w')"
  shows "(\<exists>w1 w2. FetchBlob f req w1 = (Done (Some r, None), w2)) \<or>
    (\<exists>u df a. u \<in> set (Uris req) \<and> r = cached_response False req u a \<and>
       view c w df (cache_ref (Qualifiers req) u) = Some a)"
proof -
  from layers_response_inner [OF assms(5) c(2-4)] obtain w1 w2 where
    run: "FetchBlob (NewCachingFetcher X f (store c)) req w1 = (Done (Some r, None), w2)"
    and same: "view c w1 = view c w" by blast
  from run show ?thesis
    unfolding FetchBlob_caching
  proof (cases rule: caching_with_cases)
    case (hit df oldest u a)
    with checkCache_sound [OF c(1,2) hit(4)] same show ?thesis by auto
  qed blast
qed

text \<open>After a push, the store holds what was pushed under each of the URIs, and the caching
  fetcher answers with it in every world whose store is the same.\<close>

lemma pushed_is_cached:
  assumes c: "ok c" "clock_keeps X (view c)" "log_keeps X (view c)"
    and fits: "\<And>a. pushed_asset preq BLOB a \<Longrightarrow> fits c a \<and> everlasting X (image c a)"
    and push: "PushBlob (NewMetricsAssetPushServer X (NewAssetPushServer X (store c) allow)) preq w
          = (Done (Some v, None), w1)"
    and df: "push_getDigestFunction X (PushDigestFunction preq) (PushInstanceName preq) (PushDigest preq) = Inr df"
      "getDigestFunction X (DigestFunction req) (InstanceName req) = Inr df"
    and req: "Uris req = u # us" "u \<in> set (PushUris preq)" "OldestContentAccepted req = None"
      "mset (filter (\<lambda>q. \<not> volatile q) (Qualifiers req)) = mset (PushQualifiers preq)"
    and "\<And>w. admits c df w"
  obtains r where "\<And>v f. view c v = view c w1 \<Longrightarrow>
      \<exists>v'. FetchBlob (NewCachingFetcher X f (store c)) req v = (Done (Some r, None), v')"
    "ResponseDigest r = PushDigest preq" "ResponseUri r = u" "ResponseStatus r \<noteq> None"
proof -
  from metrics_push_success [OF push c(2,3)] obtain v1 v2
    where inner: "PushBlob (NewAssetPushServer X (store c) allow) preq v1 = (Done (Some v, None), v2)"
      and same: "view c w1 = view c v2" by blast
  let ?ref = "NewAssetReference [u] (PushQualifiers preq)"
  have "push_with X \<lparr>assetStore = store c, allowUpdatesForInstances = allow\<rparr> BLOB
      ''PushBlob requires at least one URI'' ''This service does not accept Blobs for instance '' preq v1
      = (Done (Inr v), v2)"
    using inner by (simp add: NewAssetPushServer_run Let_def replyM_success PushBlob_push_with)
  from push_with_held [OF c(1) _ c(2) this df(1) pushed_refs_single [OF req(2)]] fits
  obtain a where a: "view c v2 df ?ref = Some (image c a)" and pushed: "pushed_asset preq BLOB a"
    unfolding held_def by blast
  have "cache_ref (Qualifiers req) u = ?ref"
    using req(4) by (simp add: cache_ref_def NewAssetReference_eq_iff)
  with a same have held: "view c w1 df (cache_ref (Qualifiers req) u) = Some (image c a)" by simp
  have oldest: "oldest_accepted X False req = Inr Unix_0_0" using req(3) by (simp add: oldest_accepted_def)
  have young: "\<not> too_old X Unix_0_0 (image c a)" by (simp add: too_old_def)
  show thesis
  proof (rule that)
    fix v f
    assume "view c v = view c w1"
    with held have "view c v df (cache_ref (Qualifiers req) u) = Some (image c a)" by simp
    from caching_hit [OF c(1) assms(12) this _ young df(2) oldest req(1)] fits [OF pushed]
    show "\<exists>v'. FetchBlob (NewCachingFetcher X f (store c)) req v =
        (Done (Some (cached_response False req u (image c a)), None), v')"
      by (simp add: FetchBlob_caching)
  qed (use pushed in \<open>simp_all add: cached_response_def image_digest pushed_asset_def\<close>)
qed

text \<open>So a fetch of one of its URIs through the service finds the digest that was pushed, and
  panics if there is none.\<close>

lemma push_then_fetch:
  assumes c: "ok c" "clock_keeps X (view c)" "log_keeps X (view c)" "auth_keeps A (view c)"
    and fits: "\<And>a. pushed_asset preq BLOB a \<Longrightarrow> fits c a \<and> everlasting X (image c a)"
    and push: "PushBlob (NewMetricsAssetPushServer X (NewAssetPushServer X (store c) allow)) preq w
          = (Done (Some v, None), w1)"
    and df: "push_getDigestFunction X (PushDigestFunction preq) (PushInstanceName preq) (PushDigest preq) = Inr df"
      "getDigestFunction X (DigestFunction req) (InstanceName req) = Inr df"
    and inst: "NewInstanceName X (InstanceName req) = Inr i"
      "\<And>w. fst (AuthorizeSingleInstanceName A i w) = None"
    and req: "Uris req = u # us" "u \<in> set (PushUris preq)" "OldestContentAccepted req = None"
      "mset (filter (\<lambda>q. \<not> volatile q) (Qualifiers req)) = mset (PushQualifiers preq)"
      "IsEmpty (CheckQualifiers f (QualifiersToSet (Qualifiers req)))"
    and admitted: "\<And>w. admits c df w" and same: "view c w2 = view c w1"
  shows "if PushDigest preq = None
    then fst (FetchBlob (fetch_layers X A (NewCachingFetcher X f (store c))) req w2) = Panic NilPointer
    else \<exists>r w3. FetchBlob (fetch_layers X A (NewCachingFetcher X f (store c))) req w2 = (Done (Some r, None), w3) \<and>
      ResponseDigest r = PushDigest preq \<and> ResponseUri r = u"
  using c(1-3) fits push df req(1-4) admitted
proof (rule pushed_is_cached)
  fix r
  assume cached: "\<And>v f. view c v = view c w1 \<Longrightarrow>
      \<exists>v'. FetchBlob (NewCachingFetcher X f (store c)) req v = (Done (Some r, None), v')"
    and r: "ResponseDigest r = PushDigest preq" "ResponseUri r = u" "ResponseStatus r \<noteq> None"
  let ?f = "NewCachingFetcher X f (store c)"
  have inner: "\<exists>v'. FetchBlob ?f req v = (Done (Some r, None), v')" if "view c v = view c w2" for v
    using cached that same by simp
  have gates: "Uris req \<noteq> []" "IsEmpty (CheckQualifiers ?f (QualifiersToSet (Qualifiers req)))"
    using req(1,5) by simp_all
  show ?thesis
  proof (cases "PushDigest preq")
    case None
    with layers_blob_nil_digest [OF c(2-4) inst gates, of w2, OF inner] r show ?thesis by auto
  next
    case (Some d)
    with r have "metrics_plain False r" by simp
    from layers_blob_response [OF c(2-4) inst gates, of w2, OF inner this] r Some show ?thesis by auto
  qed
qed

end

end
