(* ===== verification/ExampleWorld.thy ===== *)
theory ExampleWorld
  imports Configuration
begin

section \<open>A concrete environment\<close>

text \<open>
  The code outside the repository, instantiated: digests carry the bytes they are computed
  from, buffers the message they were made from, and the world is two maps from digests to
  buffers, a clock that only runs forward, the number of lines logged, and whether storage
  is read-only. Every named hypothesis of
  \<open>Messages\<close> holds of it, so the theorems that assume them are about something; the
  witnesses of the properties run the code's definitions in it.
\<close>

datatype blob = Blob message | NoBlob | FileBlob nat int | ErrorBlob error

record world =
  stored :: "Digest \<Rightarrow> blob option"
  objects :: "Digest \<Rightarrow> blob option"
  ticks :: nat
  logged :: nat
  readonly :: bool
  temp_files :: "nat list"
  open_bodies :: "nat list"
  reads :: nat

type_synonym world_ext = "(string, string \<times> DigestFunction_Value, Digest, blob, world) ext"

subsection \<open>Bytes and digests\<close>

definition text_bytes :: "string \<Rightarrow> bytes" where
  "text_bytes s = map (\<lambda>c. of_char c) s @ [0]"

definition qualifier_bytes :: "Qualifier \<Rightarrow> bytes" where
  "qualifier_bytes q = text_bytes (Name q) @ text_bytes (Value q)"

definition digest_bytes :: "Digest option \<Rightarrow> bytes" where
  "digest_bytes d = (case d of None \<Rightarrow> [0] | Some d \<Rightarrow> 1 # text_bytes (Hash d))"

fun message_bytes :: "message \<Rightarrow> bytes" where
  "message_bytes (MAssetReference r) =
     1 # concat (map text_bytes (RefUris r)) @ [1] @ concat (map qualifier_bytes (RefQualifiers r))"
| "message_bytes (MAsset a) = 2 # digest_bytes (AssetDigest a)"
| "message_bytes (MCommand c) = 3 # concat (map text_bytes (Arguments c))"
| "message_bytes (MAction a) =
     4 # digest_bytes (Some (CommandDigest a)) @ digest_bytes (Some (InputRootDigest a))"
| "message_bytes (MDirectory d) =
     5 # concat (map (\<lambda>f. text_bytes (FileName f) @ digest_bytes (FileDigest f)) (Files d)) @ [1] @
     concat (map (\<lambda>n. text_bytes (DirName n) @ digest_bytes (DirDigest n)) (Directories d))"
| "message_bytes (MTree t) = [6, of_nat (length (Children t))]"
| "message_bytes (MActionResult r) = [7, of_int (ExitCode r)]"

definition digest_of :: "bytes \<Rightarrow> Digest" where
  "digest_of bs = \<lparr>Hash = CHR ''h'' # map (\<lambda>b. char_of (unat b)) bs, SizeBytes = int (length bs)\<rparr>"

subsection \<open>The parameters\<close>

definition quoted :: "string \<Rightarrow> string" where
  "quoted s = [CHR 0x22] @ s @ [CHR 0x22]"

fun error_code :: "error option \<Rightarrow> Code" where
  "error_code None = code_OK"
| "error_code (Some (StatusError c m)) = c"
| "error_code (Some (PlainError m)) = 2"

fun error_message :: "error \<Rightarrow> string" where
  "error_message (StatusError c m) = m"
| "error_message (PlainError m) = m"

definition world_X :: world_ext where
  "world_X = \<lparr>
     NewInstanceName = (\<lambda>s. if s = ''bad name'' then Inl (PlainError s) else Inr s),
     GetDigestFunction = (\<lambda>i f n. if f = DF_UNKNOWN \<and> n = 0
       then Inl (StatusError code_InvalidArgument ''Unknown digest function'')
       else Inr (i, if f = DF_UNKNOWN then DF_SHA256 else f)),
     GetInstanceName = fst,
     NewDigestFromProto = (\<lambda>f d. case d of
       None \<Rightarrow> Inl (StatusError code_InvalidArgument ''No digest provided'') | Some d \<Rightarrow> Inr d),
     GetProto = id,
     BadDigest = \<lparr>Hash = [], SizeBytes = 0\<rparr>,
     WriteGenerator = (\<lambda>f n chunks b. None),
     SumGenerator = (\<lambda>f n chunks. digest_of (concat chunks)),
     NewProtoBufferFromProto = Blob,
     GetSizeBytes = (\<lambda>b. case b of
       Blob m \<Rightarrow> Inr (int (length (message_bytes m))) | NoBlob \<Rightarrow> Inl (StatusError code_NotFound ''Object not found'')
     | FileBlob f n \<Rightarrow> Inr n | ErrorBlob e \<Rightarrow> Inl e),
     ToByteSlice = (\<lambda>b n. case b of
       Blob m \<Rightarrow> Inr (message_bytes m) | NoBlob \<Rightarrow> Inl (StatusError code_NotFound ''Object not found'')
     | FileBlob f n \<Rightarrow> Inl (PlainError ''not in memory'') | ErrorBlob e \<Rightarrow> Inl e),
     ToProto = (\<lambda>b k lim. case b of
       Blob m \<Rightarrow> if has_kind k m then Inr m else Inl (PlainError ''cannot parse'')
     | NoBlob \<Rightarrow> Inl (StatusError code_NotFound ''Object not found'')
     | FileBlob f n \<Rightarrow> Inl (PlainError ''cannot parse'') | ErrorBlob e \<Rightarrow> Inl e),
     StatusWrapf = (\<lambda>e s. StatusError (error_code (Some e)) (s @ '': '' @ error_message e)),
     StatusWrapWithCode = (\<lambda>e c s. StatusError c (s @ '': '' @ error_message e)),
     StatusCode = error_code,
     StatusMessage = error_message,
     ErrorText = error_message,
     ErrorProto = (\<lambda>s. if status_Code s = code_OK then None
       else Some (StatusError (status_Code s) (status_Message s))),
     WithDetails = (\<lambda>s vs. Inr (StatusError (status_Code s) (status_Message s))),
     GoQuote = quoted,
     TimeText = (\<lambda>t. Itoa (instant t)),
     AsTime = (\<lambda>ts. case ts of
       None \<Rightarrow> \<lparr>instant = 0, location = UTC\<rparr>
     | Some ts \<Rightarrow> \<lparr>instant = Seconds ts * 1000000000 + Nanos ts, location = UTC\<rparr>),
     CheckValid = (\<lambda>ts. if 0 \<le> Nanos ts \<and> Nanos ts < 1000000000 then None
       else Some (PlainError ''out-of-range nanos'')),
     TimestampNew = (\<lambda>t. \<lparr>Seconds = instant t div 1000000000, Nanos = instant t mod 1000000000\<rparr>),
     TimeNow = (\<lambda>w. (\<lparr>instant = 1000 + int (ticks w), location = Local\<rparr>, w\<lparr>ticks := Suc (ticks w)\<rparr>)),
     LogPrintf = (\<lambda>l w. ((), w\<lparr>logged := Suc (logged w)\<rparr>)),
     Observe = (\<lambda>v c r n w. ((), w\<lparr>logged := Suc (logged w)\<rparr>)),
     RangeKeys = sorted_list_of_set\<rparr>"

text \<open>Storage for assets and for objects; a world that is read-only refuses to store.\<close>

definition find_blob :: "blob option \<Rightarrow> blob" where
  "find_blob b = (case b of None \<Rightarrow> NoBlob | Some b \<Rightarrow> b)"

definition refused :: error where
  "refused = StatusError code_PermissionDenied ''Storage is read-only''"

definition stored_ba :: "(Digest, blob, world) BlobAccess" where
  "stored_ba = \<lparr>BlobGet = (\<lambda>d w. (find_blob (stored w d), w)),
     BlobPut = (\<lambda>d b w. if readonly w then (Some refused, w)
       else (None, w\<lparr>stored := (stored w)(d \<mapsto> b)\<rparr>))\<rparr>"

definition objects_ba :: "(Digest, blob, world) BlobAccess" where
  "objects_ba = \<lparr>BlobGet = (\<lambda>d w. (find_blob (objects w d), w)),
     BlobPut = (\<lambda>d b w. if readonly w then (Some refused, w)
       else (None, w\<lparr>objects := (objects w)(d \<mapsto> b)\<rparr>))\<rparr>"

text \<open>An authorizer that refuses one instance name.\<close>

definition refusing :: "string \<Rightarrow> (string, world) Authorizer" where
  "refusing s = \<lparr>AuthorizeSingleInstanceName = (\<lambda>i w.
     (if i = s then Some (StatusError code_PermissionDenied ''Permission denied'') else None, w))\<rparr>"

definition world0 :: world where
  "world0 = \<lparr>stored = Map.empty, objects = Map.empty, ticks = 0, logged = 0, readonly = False,
     temp_files = [], open_bodies = [], reads = 0\<rparr>"

subsection \<open>The hypotheses hold\<close>

lemma world_X_simps [simp]:
  "NewInstanceName world_X s = (if s = ''bad name'' then Inl (PlainError s) else Inr s)"
  "GetDigestFunction world_X i f n = (if f = DF_UNKNOWN \<and> n = 0
       then Inl (StatusError code_InvalidArgument ''Unknown digest function'')
       else Inr (i, if f = DF_UNKNOWN then DF_SHA256 else f))"
  "GetInstanceName world_X = fst"
  "NewDigestFromProto world_X g (Some d) = Inr d"
  "GetProto world_X d = d"
  "WriteGenerator world_X g k chunks b = None"
  "SumGenerator world_X g k chunks = digest_of (concat chunks)"
  "NewProtoBufferFromProto world_X = Blob"
  "GetSizeBytes world_X (Blob m) = Inr (int (length (message_bytes m)))"
  "ToByteSlice world_X (Blob m) k = Inr (message_bytes m)"
  "ToProto world_X (Blob m) kind lim = (if has_kind kind m then Inr m else Inl (PlainError ''cannot parse''))"
  "ToProto world_X NoBlob kind lim = Inl (StatusError code_NotFound ''Object not found'')"
  "ToProto world_X (FileBlob h k) kind lim = Inl (PlainError ''cannot parse'')"
  "ToProto world_X (ErrorBlob e) kind lim = Inl e"
  "TimeNow world_X w = (\<lparr>instant = 1000 + int (ticks w), location = Local\<rparr>, w\<lparr>ticks := Suc (ticks w)\<rparr>)"
  "LogPrintf world_X l w = ((), w\<lparr>logged := Suc (logged w)\<rparr>)"
  "Observe world_X v c r k w = ((), w\<lparr>logged := Suc (logged w)\<rparr>)"
  "StatusCode world_X = error_code"
  "StatusMessage world_X = error_message"
  "ErrorProto world_X st = (if status_Code st = code_OK then None
       else Some (StatusError (status_Code st) (status_Message st)))"
  "GoQuote world_X = quoted"
  "RangeKeys world_X = sorted_list_of_set"
  by (simp_all add: world_X_def)

lemma AsTime_world [simp]:
  "AsTime world_X None = \<lparr>instant = 0, location = UTC\<rparr>"
  "AsTime world_X (Some ts) = \<lparr>instant = Seconds ts * 1000000000 + Nanos ts, location = UTC\<rparr>"
  by (simp_all add: world_X_def)

lemma TimestampNew_world [simp]:
  "TimestampNew world_X t = \<lparr>Seconds = instant t div 1000000000, Nanos = instant t mod 1000000000\<rparr>"
  by (simp add: world_X_def)

lemma find_blob_simps [simp]: "find_blob None = NoBlob" "find_blob (Some b) = b"
  by (simp_all add: find_blob_def)

lemma refusing_run [simp]:
  "AuthorizeSingleInstanceName (refusing s) i w =
     (if i = s then Some (StatusError code_PermissionDenied ''Permission denied'') else None, w)"
  by (simp add: refusing_def)

lemma stored_ba_simps [simp]:
  "BlobGet stored_ba d w = (find_blob (stored w d), w)"
  "BlobPut stored_ba d b w = (if readonly w then (Some refused, w)
     else (None, w\<lparr>stored := (stored w)(d \<mapsto> b)\<rparr>))"
  by (simp_all add: stored_ba_def)

lemma objects_ba_simps [simp]:
  "BlobGet objects_ba d w = (find_blob (objects w d), w)"
  "BlobPut objects_ba d b w = (if readonly w then (Some refused, w)
     else (None, w\<lparr>objects := (objects w)(d \<mapsto> b)\<rparr>))"
  by (simp_all add: objects_ba_def)

lemma world_buffers [simp]: "buffers_roundtrip world_X lim m" "typed_buffers world_X"
  by (auto simp: buffers_roundtrip_def typed_buffers_def world_X_def split: blob.splits if_splits)

lemma world_keeps [simp]:
  "keeps_blobs world_X stored_ba stored" "keeps_blobs world_X objects_ba objects"
  by (auto simp: keeps_blobs_def split: if_splits)

lemma world_separate [simp]: "separate objects_ba stored" "separate stored_ba objects"
  by (auto simp: separate_def)

lemma world_effects [simp]:
  "clock_keeps world_X stored" "clock_keeps world_X objects"
  "log_keeps world_X stored" "log_keeps world_X objects"
  "auth_keeps (refusing s) view"
  by (auto simp: clock_keeps_def log_keeps_def auth_keeps_def)

lemma world_times [simp]: "timestamps_ok world_X" "statuses_ok world_X" "range_ok world_X"
  by (auto simp: timestamps_ok_def statuses_ok_def range_ok_def world_X_def split: option.splits)

lemma world_clock [simp]: "t \<le> 1000 \<Longrightarrow> clock_after world_X t"
  by (simp add: clock_after_def)

lemma Hash_digest_of [simp]: "Hash (digest_of bs) \<noteq> []"
  by (simp add: digest_of_def)

lemma ProtoSerialise_world [simp]:
  "ProtoSerialise world_X m df = Inr (Blob m, digest_of (message_bytes m))"
  by (simp add: ProtoSerialise_def Let_def)

lemma Put_stored [simp]:
  "\<not> readonly w \<Longrightarrow>
     Put (NewBlobAccessAssetStore world_X stored_ba lim) ref a df w =
       (Done (Inr ()), w\<lparr>stored := (stored w)(digest_of (message_bytes (MAssetReference ref)) \<mapsto> Blob (MAsset a))\<rparr>)"
  by (simp add: NewBlobAccessAssetStore_Put del: message_bytes.simps)

lemma Get_stored [simp]:
  "Get (NewBlobAccessAssetStore world_X stored_ba lim) ref df w =
     (case find_blob (stored w (digest_of (message_bytes (MAssetReference ref)))) of
        Blob (MAsset a) \<Rightarrow> Done (Inr a)
      | Blob m \<Rightarrow> Done (Inl (PlainError ''cannot parse''))
      | FileBlob f n \<Rightarrow> Done (Inl (PlainError ''cannot parse''))
      | ErrorBlob e \<Rightarrow> Done (Inl e)
      | NoBlob \<Rightarrow> Done (Inl (StatusError code_NotFound ''Object not found'')), w)"
  by (auto simp: NewBlobAccessAssetStore_Get split: blob.split message.split simp del: message_bytes.simps)

lemma put_objects_world:
  "\<not> readonly w \<Longrightarrow>
   \<exists>w'. forM objs (\<lambda>obj. tryM (ret (ProtoSerialise world_X obj df)) (\<lambda>(buf, digest).
     checkM (call (BlobPut objects_ba digest buf)) (ret (Inr ())))) w = (Done (Inr ()), w') \<and> \<not> readonly w'"
proof (induction objs arbitrary: w)
  case (Cons obj objs)
  then show ?case
    using Cons.IH [of "w\<lparr>objects := (objects w)(digest_of (message_bytes obj) \<mapsto> Blob obj)\<rparr>"]
    by (simp add: tryM_Inr del: message_bytes.simps)
qed simp

lemma Put_action_world:
  assumes "\<not> readonly w" "AssetTypeOf a = BLOB" "assetReferenceToAction world_X rs ref df = Done (Inr (action, objs))"
    and "rs = \<lparr>actionCache = stored_ba, contentAddressableStorage = objects_ba, maximumMessageSize = lim, platform = plat\<rparr>"
  shows "\<exists>w'. Put (NewActionCacheAssetStore world_X n stored_ba objects_ba lim plat) ref a df w = (Done (Inr ()), w')"
proof -
  have "Put (NewActionCacheAssetStore world_X n stored_ba objects_ba lim plat) ref a df = actionCacheAssetStore_Put world_X rs n ref a df"
    by (simp add: NewActionCacheAssetStore_def assms(4) Let_def)
  moreover have "\<exists>w'. actionCacheAssetStore_Put world_X rs n ref a df w = (Done (Inr ()), w')"
    using put_objects_world [of "w\<lparr>objects := (objects w)(digest_of (message_bytes (MAction action)) \<mapsto> Blob (MAction action))\<rparr>" objs df] assms
    by (auto simp: actionCacheAssetStore_Put_def tryM_Inr
        assetToActionResult_BLOB [where td = None] simp del: message_bytes.simps)
  ultimately show ?thesis by simp
qed

text \<open>An asset, a request for it and its push.\<close>

definition asset0 :: Asset where
  "asset0 = \<lparr>AssetDigest = Some \<lparr>Hash = ''abc'', SizeBytes = 3\<rparr>, ExpireAt = None,
     LastUpdated = None, AssetTypeOf = BLOB\<rparr>"

definition request0 :: FetchRequest where
  "request0 = \<lparr>InstanceName = ''inst'', OldestContentAccepted = None, Uris = [''u''],
     Qualifiers = [], DigestFunction = DF_SHA256\<rparr>"

definition push0 :: PushRequest where
  "push0 = \<lparr>PushInstanceName = ''inst'', PushUris = [''u''], PushQualifiers = [],
     PushExpireAt = None, PushDigest = Some \<lparr>Hash = ''abc'', SizeBytes = 3\<rparr>,
     PushDigestFunction = DF_SHA256\<rparr>"

lemma world0_fields [simp]:
  "stored world0 = Map.empty" "objects world0 = Map.empty" "\<not> readonly world0" "ticks world0 = 0"
  by (simp_all add: world0_def)

lemma asset0_fields [simp]:
  "AssetTypeOf asset0 = BLOB" "ExpireAt asset0 = None"
  "AssetDigest asset0 = Some \<lparr>Hash = ''abc'', SizeBytes = 3\<rparr>"
  by (simp_all add: asset0_def)

lemma request0_fields [simp]:
  "InstanceName request0 = ''inst''" "OldestContentAccepted request0 = None" "Uris request0 = [''u'']"
  "Qualifiers request0 = []" "DigestFunction request0 = DF_SHA256"
  by (simp_all add: request0_def)

lemma push0_fields [simp]:
  "PushInstanceName push0 = ''inst''" "PushUris push0 = [''u'']" "PushQualifiers push0 = []"
  "PushExpireAt push0 = None" "PushDigest push0 = Some \<lparr>Hash = ''abc'', SizeBytes = 3\<rparr>"
  "PushDigestFunction push0 = DF_SHA256"
  by (simp_all add: push0_def)

lemma example_action_put:
  assumes "\<not> readonly w" "AssetTypeOf a = BLOB"
  shows "\<exists>w'. Put (NewActionCacheAssetStore world_X n stored_ba objects_ba lim None) (NewAssetReference [''u''] []) a df w =
    (Done (Inr ()), w')"
proof -
  let ?rs = "\<lparr>actionCache = stored_ba, contentAddressableStorage = objects_ba, maximumMessageSize = lim, platform = None\<rparr>"
  obtain action objs where "assetReferenceToAction world_X ?rs (NewAssetReference [''u''] []) df = Done (Inr (action, objs))"
    by (simp add: assetReferenceToAction_def QualifiersToCommand_def SortQualifiers_def Let_def del: message_bytes.simps)
  then show ?thesis by (rule Put_action_world [OF assms _ refl])
qed

lemma action_put_witness:
  "\<exists>w'. Put (NewActionCacheAssetStore world_X 3 stored_ba objects_ba 100 None)
      (NewAssetReference [''u''] []) asset0 (''i'', DF_SHA1) world0 = (Done (Inr ()), w')"
  by (rule example_action_put) simp_all

text \<open>A directory with one subdirectory, which the storage holds.\<close>

definition leaf0 :: Directory where
  "leaf0 = \<lparr>Files = [\<lparr>FileName = ''f'', FileDigest = None\<rparr>], Directories = [], Symlinks = []\<rparr>"

definition parent0 :: Directory where
  "parent0 = \<lparr>Files = [], Directories = [\<lparr>DirName = ''d'', DirDigest = Some \<lparr>Hash = ''l'', SizeBytes = 1\<rparr>\<rparr>],
     Symlinks = []\<rparr>"

definition world1 :: world where
  "world1 = world0\<lparr>objects := [\<lparr>Hash = ''l'', SizeBytes = 1\<rparr> \<mapsto> Blob (MDirectory leaf0)]\<rparr>"

definition example_rs :: "(Digest, blob, world) actionCacheAssetStore" where
  "example_rs = \<lparr>actionCache = stored_ba, contentAddressableStorage = objects_ba,
     maximumMessageSize = 100, platform = None\<rparr>"

lemma Put_action_readonly:
  assumes "readonly w"
  shows "fst (Put (NewActionCacheAssetStore world_X n ac objects_ba lim plat) ref a df w) \<noteq> Done (Inr ())"
proof
  let ?rs = "\<lparr>actionCache = ac, contentAddressableStorage = objects_ba, maximumMessageSize = lim, platform = plat\<rparr>"
  assume "fst (Put (NewActionCacheAssetStore world_X n ac objects_ba lim plat) ref a df w) = Done (Inr ())"
  then obtain w' where "actionCacheAssetStore_Put world_X ?rs n ref a df w = (Done (Inr ()), w')"
    by (simp add: NewActionCacheAssetStore_def Let_def) (metis prod.collapse)
  then obtain d b w1 where "BlobPut objects_ba d b w = (None, w1)"
    by (rule ac_Put_success) simp
  with assms show False by simp
qed

text \<open>An authorizer that refuses nobody, and a push it lets through.\<close>

definition always :: "(string, world) Authorizer" where
  "always = \<lparr>AuthorizeSingleInstanceName = \<lambda>i w. (None, w)\<rparr>"

lemma always_run [simp]: "AuthorizeSingleInstanceName always i w = (None, w)"
  by (simp add: always_def)

lemma always_keeps [simp]: "auth_keeps always view"
  by (simp add: auth_keeps_def)

abbreviation example_store :: "(string \<times> DigestFunction_Value, world) AssetStore" where
  "example_store \<equiv> NewAuthorizingAssetStore world_X (NewBlobAccessAssetStore world_X stored_ba 100) always always"

lemma push0_succeeds:
  "\<exists>w'. PushBlob (NewAssetPushServer world_X example_store [''inst'' \<mapsto> True]) push0 world0 =
     (Done (Some (), None), w')"
  by (simp add: NewAssetPushServer_run Let_def replyM_success PushBlob_push_with push_with_success
      push_getDigestFunction_def may_update_def pushed_refs_def push_one_def NewAsset_def
      Put_authorizing tryM_Inr tryM_bindM bindM_assoc)

text \<open>A world that holds the asset under the URI of the request, and a fetch in it.\<close>

definition world2 :: world where
  "world2 = world0\<lparr>stored := [digest_of (message_bytes (MAssetReference (NewAssetReference [''u''] []))) \<mapsto> Blob (MAsset asset0)]\<rparr>"

lemma world2_holds:
  "blob_view (world_X, stored_ba, lim, stored) world2 df (cache_ref [] ''u'') = Some asset0"
  by (simp add: blob_config_simps(3) message_digest_def cache_ref_def world2_def del: message_bytes.simps)

lemma world2_fetch:
  "\<exists>w'. FetchBlob (NewCachingFetcher world_X f (NewBlobAccessAssetStore world_X stored_ba 100)) request0 world2 =
    (Done (Some (cached_response False request0 ''u'' asset0), None), w')"
  using bs.caching_hit [where c = "(world_X, stored_ba, 100, stored)" and df = "(''inst'', DF_SHA256)"
      and w = world2 and req = request0 and u = "''u''" and a = asset0 and X = world_X and oldest = Unix_0_0
      and d = False and us = "[]" and backend = "FetchBlob f request0"]
  by (simp add: FetchBlob_caching blob_config_simps(1,2) oldest_accepted_def too_old_def world2_holds
      everlasting_None getDigestFunction_def)

text \<open>A backend with one answer, a failed and a successful response, and a world whose asset
  has expired.\<close>

definition giving :: "FetchResponse \<Rightarrow> world Fetcher" where
  "giving r = \<lparr>FetchBlob = \<lambda>req. ret (Some r, None), FetchDirectory = \<lambda>req. ret (Some r, None),
     CheckQualifiers = \<lambda>qs. Mapping.empty\<rparr>"

lemma giving_fields [simp]:
  "FetchBlob (giving r) req w = (Done (Some r, None), w)"
  "FetchDirectory (giving r) req w = (Done (Some r, None), w)"
  "IsEmpty (CheckQualifiers (giving r) qs)"
  by (simp_all add: giving_def IsEmpty_iff)

definition failed0 :: FetchResponse where
  "failed0 = \<lparr>ResponseStatus = Some \<lparr>status_Code = code_NotFound, status_Message = ''gone''\<rparr>,
     ResponseUri = ''u'', ResponseQualifiers = [], ResponseDigest = None\<rparr>"

definition fetched0 :: FetchResponse where
  "fetched0 = \<lparr>ResponseStatus = Some \<lparr>status_Code = code_OK, status_Message = ''fetched''\<rparr>,
     ResponseUri = ''u'', ResponseQualifiers = [], ResponseDigest = Some \<lparr>Hash = ''abc'', SizeBytes = 3\<rparr>\<rparr>"

definition world3 :: world where
  "world3 = world0\<lparr>stored := [digest_of (message_bytes (MAssetReference (NewAssetReference [''u''] []))) \<mapsto>
     Blob (MAsset (asset0\<lparr>ExpireAt := Some \<lparr>Seconds = 0, Nanos = 5\<rparr>\<rparr>))]\<rparr>"

lemma view_empty [simp]:
  "stored w = Map.empty \<Longrightarrow> blob_view (world_X, stored_ba, lim, stored) w df ref = None"
  by (simp add: blob_config_simps(3) split: option.split)

lemma fetch_run:
  assumes "stored w = Map.empty \<or> w = world3"
  shows "\<exists>w'. FetchBlob (NewCachingFetcher world_X (giving failed0) (NewBlobAccessAssetStore world_X stored_ba 100))
      request0 w = (Done (Some failed0, None), w')"
  using assms
  by (auto simp: FetchBlob_caching caching_with_def oldest_accepted_def getDigestFunction_def getAndCheckAsset_run
      too_old_def expired_def world3_def after_fetch_def failed0_def bindM_Done bindM_def
      simp del: message_bytes.simps)

lemma fetch_store_run:
  assumes "stored w = Map.empty" "\<not> readonly w"
  shows "\<exists>w'. FetchBlob (NewCachingFetcher world_X (giving fetched0) (NewBlobAccessAssetStore world_X stored_ba 100))
      request0 w = (Done (Some fetched0, None), w')"
  using assms
  by (simp add: FetchBlob_caching caching_with_def oldest_accepted_def getDigestFunction_def getAndCheckAsset_run
      after_fetch_def store_response_def cache_refs_def tryM_def fetched0_def bindM_def NewAsset_def call_run
      del: message_bytes.simps)

lemma fetch_directory_run:
  assumes "stored w = Map.empty" "\<not> readonly w"
  shows "\<exists>w'. FetchDirectory (NewCachingFetcher world_X (giving failed0) (NewBlobAccessAssetStore world_X stored_ba 100))
      request0 w = (Done (Some failed0, None), w')"
  using assms
  by (simp add: FetchDirectory_caching caching_with_def oldest_accepted_def getDigestFunction_def
      getAndCheckAsset_run after_fetch_def store_response_def cache_refs_def tryM_def failed0_def bindM_def
      NewAsset_def call_run del: message_bytes.simps)

end
