(* ===== verification/AbstractStore.thy ===== *)
theory AbstractStore
  imports ActionCacheContract
begin

section \<open>An asset store is a map\<close>

text \<open>
  The abstract specification of \<open>AssetStore\<close>: a table from references to assets. A \<open>Get\<close>
  gives the entry of its reference, or fails where there is none, and changes nothing. A \<open>Put\<close> that
  succeeds makes its asset, or what the store keeps of it (\<open>kept\<close>), the entry of its reference;
  other references with the same key (\<open>same\<close>) may get it as well, no other entry changes. Either
  may be refused, for reasons outside the store, which the caller of the specification names: a
  refused \<open>Get\<close> changes nothing, and a refused \<open>Put\<close> changes nothing or stores its asset all the
  same. Where no refusal is due, nothing else may fail: a store that does not answer with what
  it holds is none of these.
\<close>

datatype 'f store_call = GetCall AssetReference 'f | PutCall AssetReference Asset 'f

datatype store_answer = Found Asset | Missing | Stored | Refused

type_synonym 'f table = "'f \<Rightarrow> AssetReference \<Rightarrow> Asset option"

text \<open>The store: a call and its answer. A call that gives no result was refused, if \<open>refuses\<close>
  says so of the world in which it came.\<close>

fun perform :: "('f store_call \<Rightarrow> 'w \<Rightarrow> bool) \<Rightarrow> ('f, 'w) AssetStore \<Rightarrow> 'f store_call \<Rightarrow> 'w \<Rightarrow> store_answer \<times> 'w" where
  "perform refuses st (GetCall ref df) w = (case Get st ref df w of
     (Done (Inr a), w') \<Rightarrow> (Found a, w')
   | (_, w') \<Rightarrow> (if refuses (GetCall ref df) w then Refused else Missing, w'))"
| "perform refuses st (PutCall ref a df) w = (case Put st ref a df w of
     (Done (Inr u), w') \<Rightarrow> (Stored, w')
   | (_, w') \<Rightarrow> (if refuses (PutCall ref a df) w then Refused else Missing, w'))"

fun performs ::
  "('f store_call \<Rightarrow> 'w \<Rightarrow> bool) \<Rightarrow> ('f, 'w) AssetStore \<Rightarrow> 'f store_call list \<Rightarrow> 'w \<Rightarrow> store_answer list \<times> 'w" where
  "performs refuses st [] w = ([], w)"
| "performs refuses st (x # xs) w =
     (let (answer, w) = perform refuses st x w; (answers, w) = performs refuses st xs w in (answer # answers, w))"

text \<open>The specification.\<close>

inductive table_step :: "('f \<Rightarrow> AssetReference \<Rightarrow> 'f \<Rightarrow> AssetReference \<Rightarrow> bool) \<Rightarrow> (Asset \<Rightarrow> Asset) \<Rightarrow>
    'f store_call \<Rightarrow> store_answer \<Rightarrow> 'f table \<Rightarrow> 'f table \<Rightarrow> bool"
  for same :: "'f \<Rightarrow> AssetReference \<Rightarrow> 'f \<Rightarrow> AssetReference \<Rightarrow> bool" and kept :: "Asset \<Rightarrow> Asset" where
  found: "t df ref = Some a \<Longrightarrow> table_step same kept (GetCall ref df) (Found a) t t"
| missing: "t df ref = None \<Longrightarrow> table_step same kept (GetCall ref df) Missing t t"
| get_refused: "table_step same kept (GetCall ref df) Refused t t"
| stored: "t' df ref = Some (kept a) \<Longrightarrow>
    (\<forall>df' ref'. t' df' ref' = t df' ref' \<or> same df ref df' ref' \<and> t' df' ref' = Some (kept a)) \<Longrightarrow>
    table_step same kept (PutCall ref a df) Stored t t'"
| put_refused: "(\<forall>df' ref'. t' df' ref' = t df' ref' \<or> same df ref df' ref' \<and> t' df' ref' = Some (kept a)) \<Longrightarrow>
    table_step same kept (PutCall ref a df) Refused t t'"

inductive table_run :: "('f \<Rightarrow> AssetReference \<Rightarrow> 'f \<Rightarrow> AssetReference \<Rightarrow> bool) \<Rightarrow> (Asset \<Rightarrow> Asset) \<Rightarrow>
    'f store_call list \<Rightarrow> store_answer list \<Rightarrow> 'f table \<Rightarrow> 'f table \<Rightarrow> bool"
  for same :: "'f \<Rightarrow> AssetReference \<Rightarrow> 'f \<Rightarrow> AssetReference \<Rightarrow> bool" and kept :: "Asset \<Rightarrow> Asset" where
  done_run: "table_run same kept [] [] t t"
| step_run: "table_step same kept x answer t t1 \<Longrightarrow> table_run same kept xs answers t1 t' \<Longrightarrow>
    table_run same kept (x # xs) (answer # answers) t t'"

inductive_cases table_step_GetE: "table_step same kept (GetCall ref df) answer t t'"
inductive_cases table_step_PutE: "table_step same kept (PutCall ref a df) answer t t'"
inductive_cases table_run_NilE: "table_run same kept [] answers t t'"
inductive_cases table_run_ConsE: "table_run same kept (x # xs) answers t t'"

text \<open>What the specification promises a client: a \<open>Get\<close> right after a \<open>Put\<close> that
  succeeded is refused or finds that asset, and no other.\<close>

lemma table_put_get:
  assumes "table_run same kept [PutCall ref a df, GetCall ref df] [Stored, answer] t t'"
  shows "answer = Refused \<or> answer = Found (kept a)"
  using assms by (auto elim!: table_run_NilE table_run_ConsE table_step_GetE table_step_PutE)

context keyed_asset_store
begin

text \<open>Refusals are due where reading is not allowed, and wherever a \<open>Put\<close> may fail.\<close>

definition excuses where
  "excuses c refuses \<longleftrightarrow>
     (\<forall>ref df w. \<not> refuses (GetCall ref df) w \<longrightarrow> admits c df w) \<and>
     (\<forall>ref a df w. \<not> refuses (PutCall ref a df) w \<longrightarrow> (\<exists>u w'. Put (store c) ref a df w = (Done (Inr u), w')))"

lemma perform_refines:
  assumes c: "ok c" "settled c" "excuses c refuses" and fit: "\<And>ref a df. x = PutCall ref a df \<Longrightarrow> fits c a"
    and run: "perform refuses (store c) x w = (answer, w')"
  shows "table_step (same_key c) (image c) x answer (view c w) (view c w')"
proof (cases x)
  case (GetCall ref df)
  obtain r w1 where get: "Get (store c) ref df w = (r, w1)" by fastforce
  have same: "view c w1 = view c w" by (rule Get_frame [OF c(1) get])
  show ?thesis
  proof (cases "\<exists>a. r = Done (Inr a)")
    case True
    then obtain a where r: "r = Done (Inr a)" by blast
    with get Get_sound [OF c(1)] have "view c w df ref = Some a" by blast
    with run get r same show ?thesis by (auto simp: GetCall intro: found)
  next
    case False
    with run get have answer: "answer = (if refuses (GetCall ref df) w then Refused else Missing)" "w' = w1"
      by (auto simp: GetCall split: run.split_asm sum.split_asm)
    have "\<not> refuses (GetCall ref df) w \<Longrightarrow> view c w df ref = None"
      using Get_hit [OF c(1)] c(3) get False unfolding excuses_def by (metis not_None_eq prod.inject)
    with answer same show ?thesis by (auto simp: GetCall intro: missing get_refused)
  qed
next
  case (PutCall ref a df)
  obtain r w1 where put: "Put (store c) ref a df w = (r, w1)" by fastforce
  have touched: "view c w1 df' ref' = view c w df' ref' \<or> same_key c df ref df' ref' \<and> view c w1 df' ref' = Some (image c a)"
    for df' ref' using Put_touches [OF c(1,2) fit [OF PutCall] put] .
  show ?thesis
  proof (cases "\<exists>u. r = Done (Inr u)")
    case True
    then obtain u where r: "r = Done (Inr u)" by blast
    note put = put [unfolded r]
    from run put touched Put_stores [OF c(1) fit [OF PutCall] put] show ?thesis by (auto simp: PutCall intro: stored)
  next
    case False
    with c(3) put have "refuses (PutCall ref a df) w" unfolding excuses_def by (metis prod.inject)
    with run put False have "answer = Refused" "w' = w1"
      by (auto simp: PutCall split: run.split_asm sum.split_asm)
    with touched show ?thesis unfolding PutCall by (auto intro: put_refused)
  qed
qed

lemma performs_refine:
  assumes c: "ok c" "settled c" "excuses c refuses"
  shows "\<forall>ref a df. PutCall ref a df \<in> set xs \<longrightarrow> fits c a \<Longrightarrow> performs refuses (store c) xs w = (answers, w') \<Longrightarrow>
    table_run (same_key c) (image c) xs answers (view c w) (view c w')"
proof (induction xs arbitrary: w answers)
  case (Cons x xs)
  obtain answer w1 ys where first: "perform refuses (store c) x w = (answer, w1)"
    and rest: "performs refuses (store c) xs w1 = (ys, w')" and answers: "answers = answer # ys"
    using Cons.prems(2) by (auto split: prod.split_asm)
  have "table_step (same_key c) (image c) x answer (view c w) (view c w1)"
    by (rule perform_refines [OF c _ first]) (use Cons.prems(1) in auto)
  with Cons.IH [OF _ rest] Cons.prems(1) show ?case unfolding answers by (auto intro: step_run)
qed (simp add: done_run)

end

text \<open>What excuses the blob store behind its authorizers: the authorizer for fetches refuses a
  \<open>Get\<close>; the one for pushes refuses a \<open>Put\<close>, or its reference has no digest, or the blob access
  does not accept the blob.\<close>

fun blob_refuses ::
  "('i, 'f, 'd, 'b, 'w) ext \<Rightarrow> ('d, 'b, 'w) BlobAccess \<Rightarrow> ('i, 'w) Authorizer \<Rightarrow> ('i, 'w) Authorizer \<Rightarrow>
     'f store_call \<Rightarrow> 'w \<Rightarrow> bool" where
  "blob_refuses X ba fa pa (GetCall ref df) w \<longleftrightarrow> fst (AuthorizeSingleInstanceName fa (GetInstanceName X df) w) \<noteq> None"
| "blob_refuses X ba fa pa (PutCall ref a df) w \<longleftrightarrow>
     (case AuthorizeSingleInstanceName pa (GetInstanceName X df) w of
        (Some err, w1) \<Rightarrow> True
      | (None, w1) \<Rightarrow>
          (case message_digest X df (MAssetReference ref) of
             None \<Rightarrow> True
           | Some d \<Rightarrow> fst (BlobPut ba d (NewProtoBufferFromProto X (MAsset a)) w1) \<noteq> None))"

lemma blob_excuses: "kaas.excuses (X, (X, ba, lim, contents), fa, pa) (blob_refuses X ba fa pa)"
  unfolding kaas.excuses_def
  by (auto simp: blob_config_simps(1) Put_authorizing NewBlobAccessAssetStore_Put message_digest_Some
      split: prod.splits option.splits)

text \<open>What excuses the action cache store: the same for a \<open>Get\<close>; a \<open>Put\<close>, which needs many objects,
  may fail at any time.\<close>

fun ac_refuses :: "('i, 'f, 'd, 'b, 'w) ext \<Rightarrow> ('i, 'w) Authorizer \<Rightarrow> 'f store_call \<Rightarrow> 'w \<Rightarrow> bool" where
  "ac_refuses X fa (GetCall ref df) w \<longleftrightarrow> fst (AuthorizeSingleInstanceName fa (GetInstanceName X df) w) \<noteq> None"
| "ac_refuses X fa (PutCall ref a df) w \<longleftrightarrow> True"

lemma ac_excuses: "kaacs.excuses (X, (X, rs, n, contents), fa, pa) (ac_refuses X fa)"
  unfolding kaacs.excuses_def by (auto split: prod.splits option.splits)

end
