(* ===== verification/StoreProperties.thy ===== *)
theory StoreProperties
  imports ExampleWorld AbstractStore
begin

section \<open>Properties of qualifiers, stores and pushes\<close>

text \<open>Each property is followed by a witness that applies it in the concrete environment
  of \<open>ExampleWorld\<close>.\<close>

subsection \<open>Qualifiers and references\<close>

text \<open>The qualifiers a fetcher does not support are those of the request whose name it
  does not list, and the request passes the check when there are none.\<close>

theorem unsupported_qualifiers:
  "(Contains (Difference (QualifiersToSet qs) (NewSet supported)) n \<longleftrightarrow>
      n \<in> Name ` set qs \<and> n \<notin> set supported) \<and>
   (IsEmpty (Difference (QualifiersToSet qs) (NewSet supported)) \<longleftrightarrow> Name ` set qs \<subseteq> set supported)"
  by (simp add: IsEmpty_Difference_NewSet)

text \<open>Whatever swaps \<open>sort.Sort\<close> makes, if no neighbours are out of order by
  \<open>Less\<close> at the end, the result is the one sorted rearrangement of the qualifiers.\<close>

theorem sort_unique:
  assumes "swaps q q'" and "\<And>i. Suc i < Len q' \<Longrightarrow> Less q' (Suc i) i = Done False"
  shows "q' = SortQualifiers q"
  by (rule SortQualifiers_unique [OF not_Less_sorted swaps_mset]) (fact assms)+

theorem sort_unique_witness:
  "[Qualifier ''a'' ''2'', Qualifier ''b'' ''1''] = SortQualifiers [Qualifier ''b'' ''1'', Qualifier ''a'' ''2'']"
proof (rule sort_unique)
  show "swaps [Qualifier ''b'' ''1'', Qualifier ''a'' ''2''] [Qualifier ''a'' ''2'', Qualifier ''b'' ''1'']"
    by (rule swaps_step [OF swaps_refl, where i = 0 and j = 1]) (simp add: Swap_def)
  show "Less [Qualifier ''a'' ''2'', Qualifier ''b'' ''1''] (Suc i) i = Done False"
    if "Suc i < Len [Qualifier ''a'' ''2'', Qualifier ''b'' ''1'']" for i
    using that by (simp add: Len_def Less_def LessQualifier_def)
qed

text \<open>C35: a reference is canonical: its URIs and qualifiers are sorted rearrangements of
  those given, and two calls give the same reference exactly when they are given the same
  URIs and the same qualifiers in any order.\<close>

theorem references_canonical:
  "sorted (RefUris (NewAssetReference us qs)) \<and> mset (RefUris (NewAssetReference us qs)) = mset us \<and>
   sorted (RefQualifiers (NewAssetReference us qs)) \<and> mset (RefQualifiers (NewAssetReference us qs)) = mset qs \<and>
   (NewAssetReference us qs = NewAssetReference us' qs' \<longleftrightarrow> mset us = mset us' \<and> mset qs = mset qs')"
  by (simp add: NewAssetReference_eq_iff SortQualifiers_sorted)

text \<open>C36: a command generator gives a shell command for every URI, or it panics: exactly
  when it is the one for octet streams and the checksum has no dash.\<close>

theorem generator_panics_iff:
  assumes "QualifiersToCommand qs = Inr gen"
  shows "(gen uri = Panic IndexOutOfRange \<longleftrightarrow>
      makeMap qs ''resource_type'' = Some ''application/octet-stream'' \<and>
      (\<exists>c. makeMap qs ''checksum.sri'' = Some c \<and> CHR ''-'' \<notin> set c)) \<and>
    (gen uri \<noteq> Panic IndexOutOfRange \<longleftrightarrow> (\<exists>script. gen uri = Done (shellCommand script)))"
proof -
  consider (git) "makeMap qs ''resource_type'' = Some ''application/x-git''" "gen = gitCommand (makeMap qs)"
    | (octet) "makeMap qs ''resource_type'' = Some ''application/octet-stream''"
        "gen = octetStreamCommand (makeMap qs)"
    using assms by (auto simp: QualifiersToCommand_Inr)
  then show ?thesis
  proof cases
    case octet
    then show ?thesis
      by (cases "makeMap qs" uri rule: octetStreamCommand_cases) auto
  qed (auto simp: gitCommand_def)
qed

theorem generator_panics_witness:
  "octetStreamCommand (makeMap [Qualifier ''resource_type'' ''application/octet-stream'',
     Qualifier ''checksum.sri'' ''sha256'']) ''u'' = Panic IndexOutOfRange"
proof -
  let ?qs = "[Qualifier ''resource_type'' ''application/octet-stream'', Qualifier ''checksum.sri'' ''sha256'']"
  have "QualifiersToCommand ?qs = Inr (octetStreamCommand (makeMap ?qs))"
    by (simp add: QualifiersToCommand_Inr makeMap_def)
  from generator_panics_iff [OF this, of "''u''"] show ?thesis by (simp add: makeMap_def)
qed

text \<open>The order of qualifiers with different names does not matter to the command
  they become.\<close>

theorem command_order_independent:
  assumes "distinct (map Name qs)" and "mset qs = mset qs'"
  shows "QualifiersToCommand qs = QualifiersToCommand qs'"
  unfolding QualifiersToCommand_def using makeMap_mset [OF assms] by simp

theorem command_order_witness:
  "QualifiersToCommand [Qualifier ''resource_type'' ''application/x-git'', Qualifier ''vcs.branch'' ''main''] =
   QualifiersToCommand [Qualifier ''vcs.branch'' ''main'', Qualifier ''resource_type'' ''application/x-git'']"
  by (rule command_order_independent) simp_all

text \<open>A well-formed checksum is checked: the command for an octet stream downloads the
  URI and compares its digest by the named protocol with the encoded one.\<close>

theorem octet_stream_checked:
  assumes "makeMap qs ''resource_type'' = Some ''application/octet-stream''"
    and "makeMap qs ''auth.basic.username'' = None" "makeMap qs ''auth.basic.password'' = None"
    and "makeMap qs ''checksum.sri'' = Some (protocol @ CHR ''-'' # encoded)"
    and "CHR ''-'' \<notin> set protocol" "CHR ''-'' \<notin> set encoded"
  shows "\<exists>gen. QualifiersToCommand qs = Inr gen \<and> gen uri = Done (shellCommand
    (''wget -O out '' @ uri @ '' && openssl dgst -'' @ protocol @
     '' -binary out | openssl base64 -A | grep '' @ encoded))"
proof -
  have "parseChecksum (protocol @ CHR ''-'' # encoded) = Done (protocol, encoded)"
    using assms(5,6) by (simp add: parseChecksum_def Split_second Split_noSep)
  with assms(1-4) show ?thesis
    by (simp add: QualifiersToCommand_def octetStreamCommand_def Let_def)
qed

theorem octet_stream_witness:
  "\<exists>gen. QualifiersToCommand [Qualifier ''resource_type'' ''application/octet-stream'',
       Qualifier ''checksum.sri'' ''sha256-AA''] = Inr gen \<and>
     gen ''u'' = Done (shellCommand (''wget -O out '' @ ''u'' @ '' && openssl dgst -'' @ ''sha256'' @
       '' -binary out | openssl base64 -A | grep '' @ ''AA''))"
  by (rule octet_stream_checked) (simp_all add: makeMap_def)

subsection \<open>The asset stores\<close>

text \<open>An asset put in a blob store is what a lookup gives back, under the same URIs and
  qualifiers in any order.\<close>

theorem blob_store_roundtrip:
  assumes "keeps_blobs X ba contents" "typed_buffers X" "buffers_roundtrip X lim (MAsset a)"
    and "mset us = mset us'" "mset qs = mset qs'"
    and "Put (NewBlobAccessAssetStore X ba lim) (NewAssetReference us qs) a df w = (Done (Inr u), w')"
  shows "\<exists>w''. Get (NewBlobAccessAssetStore X ba lim) (NewAssetReference us' qs') df w' = (Done (Inr a), w'')"
proof -
  have "NewAssetReference us' qs' = NewAssetReference us qs"
    using assms(4,5) by (simp add: NewAssetReference_eq_iff)
  with bs.Put_Get [of "(X, ba, lim, contents)" a "NewAssetReference us qs" df w u w'] assms
  show ?thesis by (simp add: blob_config_simps(1,2,4))
qed

theorem blob_store_roundtrip_witness:
  "\<exists>w''. Get (NewBlobAccessAssetStore world_X stored_ba 100) (NewAssetReference [''u''] []) (''i'', DF_SHA1)
     (snd (Put (NewBlobAccessAssetStore world_X stored_ba 100) (NewAssetReference [''u''] []) asset0
       (''i'', DF_SHA1) world0)) = (Done (Inr asset0), w'')"
  by (rule blob_store_roundtrip [where contents = stored and w = world0 and us = "[''u'']" and qs = "[]"])
     simp_all

text \<open>Storing an asset does not disturb the others: a lookup whose reference has another
  digest finds after it what it found before.\<close>

theorem blob_store_isolation:
  assumes "keeps_blobs X ba contents" "typed_buffers X" "buffers_roundtrip X lim (MAsset a)"
    and "Put (NewBlobAccessAssetStore X ba lim) ref a df w = (Done (Inr u), w')"
    and "message_digest X df' (MAssetReference ref') \<noteq> message_digest X df (MAssetReference ref)"
  shows "fst (Get (NewBlobAccessAssetStore X ba lim) ref' df' w') = Done (Inr b) \<longleftrightarrow>
    fst (Get (NewBlobAccessAssetStore X ba lim) ref' df' w) = Done (Inr b)"
  using assms blob_Put_view [of X ba lim contents a ref df w u w' df' ref']
  by (simp add: blob_Get_view [where contents = contents] blob_config_simps(2,4))

theorem blob_store_isolation_witness:
  "fst (Get (NewBlobAccessAssetStore world_X stored_ba 100) (NewAssetReference [''v''] []) (''i'', DF_SHA1)
     (snd (Put (NewBlobAccessAssetStore world_X stored_ba 100) (NewAssetReference [''u''] []) asset0
       (''i'', DF_SHA1) world0))) = Done (Inr asset0) \<longleftrightarrow>
   fst (Get (NewBlobAccessAssetStore world_X stored_ba 100) (NewAssetReference [''v''] []) (''i'', DF_SHA1)
     world0) = Done (Inr asset0)"
  by (rule blob_store_isolation [where contents = stored and a = asset0 and ref = "NewAssetReference [''u''] []"
        and df = "(''i'', DF_SHA1)"])
     (simp_all add: text_bytes_def SortQualifiers_def message_digest_def digest_of_def)

text \<open>A blob store never panics: a lookup gives the asset stored under the reference, or
  an error exactly when there is none.\<close>

theorem blob_store_decides:
  assumes "keeps_blobs X ba contents" "typed_buffers X"
  shows "\<exists>r w'. Get (NewBlobAccessAssetStore X ba lim) ref df w = (Done r, w') \<and> contents w' = contents w \<and>
    (r = Inr a \<longleftrightarrow> blob_view (X, ba, lim, contents) w df ref = Some a)"
proof -
  have ok: "blob_ok (X, ba, lim, contents)" using assms by (simp add: blob_config_simps(2))
  obtain r w' where get: "Get (NewBlobAccessAssetStore X ba lim) ref df w = (Done r, w')"
    using panic_freeD [OF bs.Get_total [OF ok]] unfolding blob_config_simps(1) by blast
  moreover have "contents w' = contents w"
    using get assms(1) by (auto simp: NewBlobAccessAssetStore_Get keeps_blobs_Get_view split: sum.splits)
  ultimately show ?thesis using blob_Get_view [OF ok, of ref df w a] by auto
qed

theorem blob_store_decides_witness:
  "\<exists>r w'. Get (NewBlobAccessAssetStore world_X stored_ba 100) (NewAssetReference [''u''] []) (''i'', DF_SHA1)
       world0 = (Done r, w') \<and> stored w' = stored world0 \<and>
     (r = Inr asset0 \<longleftrightarrow>
      blob_view (world_X, stored_ba, 100, stored) world0 (''i'', DF_SHA1) (NewAssetReference [''u''] []) = Some asset0)"
  by (rule blob_store_decides) simp_all

text \<open>A refused caller reaches no asset: both operations of the authorising store answer
  with the authorizer's error, and the store behind it is not called.\<close>

theorem authorizing_store_denies:
  assumes "AuthorizeSingleInstanceName Af (GetInstanceName X df) w = (Some e, w1)"
    and "AuthorizeSingleInstanceName Ap (GetInstanceName X df) w = (Some e', w2)"
  shows "Get (NewAuthorizingAssetStore X st Af Ap) ref df w = (Done (Inl e), w1) \<and>
    Put (NewAuthorizingAssetStore X st Af Ap) ref a df w = (Done (Inl e'), w2)"
  using assms by (simp add: Get_authorizing Put_authorizing)

theorem authorizing_store_denies_witness:
  "Get (NewAuthorizingAssetStore world_X (NewBlobAccessAssetStore world_X stored_ba 100) (refusing ''i'')
       (refusing ''i'')) (NewAssetReference [''u''] []) (''i'', DF_SHA1) world0 =
     (Done (Inl (StatusError code_PermissionDenied ''Permission denied'')), world0) \<and>
   Put (NewAuthorizingAssetStore world_X (NewBlobAccessAssetStore world_X stored_ba 100) (refusing ''i'')
       (refusing ''i'')) (NewAssetReference [''u''] []) asset0 (''i'', DF_SHA1) world0 =
     (Done (Inl (StatusError code_PermissionDenied ''Permission denied'')), world0)"
  by (rule authorizing_store_denies) simp_all

text \<open>C11: what the action cache store keeps of an asset that has a digest with a non-empty hash is
  the asset, but for its expiry, which comes back as the default one (never): a lookup after a \<open>Put\<close>
  that succeeded, under the same URIs and qualifiers in any order, gives that. (An asset without
  such a digest may be accepted, but is not given back. That the expiry is lost diverges from
  \<open>asset.proto\<close>, which says that an asset should not be returned after it.)\<close>

theorem action_cache_roundtrip:
  assumes "keeps_blobs X ac contents" "separate cas contents"
    and "AssetDigest a = Some d" "Hash d \<noteq> []"
    and "\<And>r. buffers_roundtrip X lim (MActionResult r)"
    and "mset us = mset us'" "mset qs = mset qs'"
    and "Put (NewActionCacheAssetStore X n ac cas lim plat) (NewAssetReference us qs) a df w = (Done (Inr u), w')"
  shows "\<exists>w''. Get (NewActionCacheAssetStore X n ac cas lim plat) (NewAssetReference us' qs') df w' =
    (Done (Inr (a\<lparr>ExpireAt := Some (getDefaultTimestamp X)\<rparr>)), w'')"
proof -
  let ?rs = "\<lparr>actionCache = ac, contentAddressableStorage = cas, maximumMessageSize = lim, platform = plat\<rparr>"
  have "NewAssetReference us' qs' = NewAssetReference us qs"
    using assms(6,7) by (simp add: NewAssetReference_eq_iff)
  with acs.Put_Get [of "(X, ?rs, n, contents)" a "NewAssetReference us qs" df w u w'] assms
  show ?thesis by (simp add: ac_config_simps(1,2,4,5))
qed

theorem action_cache_roundtrip_witness:
  "\<exists>w''. Get (NewActionCacheAssetStore world_X 3 stored_ba objects_ba 100 None) (NewAssetReference [''u''] [])
     (''i'', DF_SHA1)
     (snd (Put (NewActionCacheAssetStore world_X 3 stored_ba objects_ba 100 None) (NewAssetReference [''u''] [])
       asset0 (''i'', DF_SHA1) world0)) =
     (Done (Inr (asset0\<lparr>ExpireAt := Some (getDefaultTimestamp world_X)\<rparr>)), w'')"
proof -
  obtain w' where put: "Put (NewActionCacheAssetStore world_X 3 stored_ba objects_ba 100 None)
      (NewAssetReference [''u''] []) asset0 (''i'', DF_SHA1) world0 = (Done (Inr ()), w')"
    using action_put_witness by blast
  show ?thesis
    unfolding put snd_conv
    by (rule action_cache_roundtrip [where contents = stored and d = "\<lparr>Hash = ''abc'', SizeBytes = 3\<rparr>",
          OF _ _ _ _ _ refl refl put]) simp_all
qed

text \<open>C17: the action cache is written last: a \<open>Put\<close> that did not succeed, whatever step
  failed, leaves its contents as they were.\<close>

theorem action_cache_put_atomic:
  assumes "separate cas contents"
    and "\<And>d b w e w'. BlobPut ac d b w = (Some e, w') \<Longrightarrow> contents w' = contents w"
    and "Put (NewActionCacheAssetStore X n ac cas lim plat) ref a df w = (r, w')" "r \<noteq> Done (Inr ())"
  shows "contents w' = contents w"
  using ac_Put_fails_clean [of "\<lparr>actionCache = ac, contentAddressableStorage = cas, maximumMessageSize = lim,
      platform = plat\<rparr>" contents X n ref a df] assms
  by (simp add: NewActionCacheAssetStore_def Let_def fails_clean_def)

theorem action_cache_put_atomic_witness:
  "stored (snd (Put (NewActionCacheAssetStore world_X 3 stored_ba objects_ba 100 None)
      (NewAssetReference [''u''] []) asset0 (''i'', DF_SHA1) (world0\<lparr>readonly := True\<rparr>))) = stored (world0\<lparr>readonly := True\<rparr>)"
proof -
  let ?put = "Put (NewActionCacheAssetStore world_X 3 stored_ba objects_ba 100 None)
      (NewAssetReference [''u''] []) asset0 (''i'', DF_SHA1) (world0\<lparr>readonly := True\<rparr>)"
  have "fst ?put \<noteq> Done (Inr ())" by (rule Put_action_readonly) simp
  show ?thesis
  proof (rule action_cache_put_atomic [OF _ _ prod.collapse [symmetric] \<open>fst ?put \<noteq> _\<close>])
    show "stored w' = stored w" if "BlobPut stored_ba d b w = (Some e, w')" for d b w e w'
      using that by (simp split: if_splits)
  qed simp
qed

text \<open>C16: referential integrity: after a \<open>Put\<close> that succeeded, the content addressable storage
  has the action under whose digest the result is stored, and what the action refers to: under the
  digest that it names, its command, which is the one generated from the qualifiers for a single URI
  (with the platform of the configuration if it has none), and otherwise has the URIs as its arguments;
  the reference of its qualifiers; and a directory with the file \<open>AssetReference\<close> of that
  reference's digest. This directory is the input root of the action, unless the command is a generated
  one: then the action names the empty digest as its input root, and nothing is uploaded for it.\<close>

theorem action_cache_integrity:
  fixes X ac cas lim plat
  defines "rs \<equiv> \<lparr>actionCache = ac, contentAddressableStorage = cas, maximumMessageSize = lim, platform = plat\<rparr>"
  assumes "keeps_blobs X cas objs" "separate ac objs"
    and "Put (NewActionCacheAssetStore X n ac cas lim plat) ref a df w = (Done (Inr u), w')"
  shows "\<exists>action extra. assetReferenceToAction X rs ref df = Done (Inr (action, extra)) \<and>
    action_objects X rs ref df action (\<lambda>m d. message_digest X df m = Some d \<and> d \<in> dom (objs w'))"
proof -
  have put: "actionCacheAssetStore_Put X rs n ref a df w = (Done (Inr u), w')"
    using assms(4) by (simp add: NewActionCacheAssetStore_def Let_def rs_def)
  obtain action extra where action: "assetReferenceToAction X rs ref df = Done (Inr (action, extra))"
    using ac_Put_success [OF put] by blast
  have "action_objects X rs ref df action (\<lambda>m d. message_digest X df m = Some d \<and> d \<in> dom (objs w'))"
    using action
  proof (rule assetReferenceToAction_objects)
    fix m
    assume "m \<in> set (MAction action # extra)"
    from ac_Put_integrity [of X rs objs, OF _ _ put action this] assms(2,3)
    show "\<exists>d. message_digest X df m = Some d \<and> d \<in> dom (objs w')" by (simp add: rs_def)
  qed
  with action show ?thesis by blast
qed

theorem action_cache_integrity_witness:
  "\<exists>action extra. assetReferenceToAction world_X \<lparr>actionCache = stored_ba, contentAddressableStorage = objects_ba,
      maximumMessageSize = 100, platform = None\<rparr> (NewAssetReference [''u''] []) (''i'', DF_SHA1) =
      Done (Inr (action, extra)) \<and>
    action_objects world_X \<lparr>actionCache = stored_ba, contentAddressableStorage = objects_ba,
      maximumMessageSize = 100, platform = None\<rparr> (NewAssetReference [''u''] []) (''i'', DF_SHA1) action
      (\<lambda>m d. message_digest world_X (''i'', DF_SHA1) m = Some d \<and>
        d \<in> dom (objects (snd (Put (NewActionCacheAssetStore world_X 3 stored_ba objects_ba 100 None)
          (NewAssetReference [''u''] []) asset0 (''i'', DF_SHA1) world0))))"
proof -
  obtain w' where put: "Put (NewActionCacheAssetStore world_X 3 stored_ba objects_ba 100 None)
      (NewAssetReference [''u''] []) asset0 (''i'', DF_SHA1) world0 = (Done (Inr ()), w')"
    using action_put_witness by blast
  show ?thesis
    unfolding put snd_conv by (rule action_cache_integrity [OF _ _ put]) simp_all
qed

text \<open>C12: the tree of a directory asset is the preorder listing of the directories the storage
  holds below it, whatever their number and depth, if the fuel is at least the depth.\<close>

theorem tree_is_preorder:
  assumes "keeps_blobs X (contentAddressableStorage rs) contents"
    and "list_all2 (holds_tree X df (maximumMessageSize rs) (contents w)) (Directories dir) ts"
    and "\<forall>t\<in>set ts. height t \<le> n"
  shows "\<exists>w'. directoryToTree X rs n dir df w =
    (Done (Inr \<lparr>Root = dir, Children = concat (map preorder ts)\<rparr>), w') \<and> contents w' = contents w"
  using directoryToTree_preorder [OF assms(1) refl assms(2,3)] .

theorem tree_is_preorder_witness:
  "\<exists>w'. directoryToTree world_X example_rs 1 parent0 (''i'', DF_SHA1) world1 =
    (Done (Inr \<lparr>Root = parent0, Children = [leaf0]\<rparr>), w') \<and> objects w' = objects world1"
proof -
  have "\<exists>w'. directoryToTree world_X example_rs 1 parent0 (''i'', DF_SHA1) world1 =
    (Done (Inr \<lparr>Root = parent0, Children = concat (map preorder [DirTree leaf0 []])\<rparr>), w') \<and>
    objects w' = objects world1"
    by (rule tree_is_preorder) (simp_all add: example_rs_def parent0_def leaf0_def world1_def)
  then show ?thesis by simp
qed

text \<open>C21: the conversion to a tree ends: if every stored directory ranks above its
  subdirectories, fuel beyond the rank of the first ones is enough, whatever objects are
  missing or malformed.\<close>

theorem tree_terminates:
  assumes "keeps_blobs X (contentAddressableStorage rs) contents"
    and "ranked X df (maximumMessageSize rs) rank (contents w)"
    and "\<And>node d. node \<in> set (Directories dir) \<Longrightarrow>
      NewDigestFromProto X df (DirDigest node) = Inr d \<Longrightarrow> Suc (rank d) < n"
    and "0 < n"
  shows "fst (directoryToTree X rs n dir df w) \<noteq> Unfinished"
  using directoryToTree_finishes [OF assms(1,2,4,3)] by (simp add: finishes_def)

theorem tree_terminates_witness:
  "fst (directoryToTree world_X example_rs 2 parent0 (''i'', DF_SHA1) world1) \<noteq> Unfinished"
  by (rule tree_terminates [where contents = objects and rank = "\<lambda>_. 0"])
     (simp_all add: example_rs_def parent0_def leaf0_def world1_def ranked_def split: if_splits)

text \<open>Reading an action result from the cache panics exactly when it has no execution
  metadata and would otherwise stand for an asset.\<close>

theorem result_without_metadata_panics:
  "actionResultToAsset X r = Panic NilPointer \<longleftrightarrow>
     ExecutionMetadata r = None \<and>
     (\<exists>e. actionResultToAsset X (r\<lparr>ExecutionMetadata := Some \<lparr>QueuedTimestamp = None\<rparr>\<rparr>) = Done (Inr e))"
  by (auto simp: actionResultToAsset_def Let_def split: option.splits prod.splits if_splits)

subsection \<open>Pushes\<close>

text \<open>A push that succeeded stored the asset under every one of its references: all URIs
  together and each of them alone. A lookup under any of them finds the digest, the expiry and
  the type that were pushed.\<close>

theorem push_blob_stores:
  assumes "keeps_blobs X ba contents" "typed_buffers X" "\<And>a. buffers_roundtrip X lim (MAsset a)"
    and "clock_keeps X contents" "auth_keeps Af contents" "auth_keeps Ap contents"
    and "\<And>i w. fst (AuthorizeSingleInstanceName Af i w) = None"
    and "PushBlob (NewAssetPushServer X (NewAuthorizingAssetStore X (NewBlobAccessAssetStore X ba lim) Af Ap) allow)
      req w = (Done (Some u, e), w')"
    and "push_getDigestFunction X (PushDigestFunction req) (PushInstanceName req) (PushDigest req) = Inr df"
    and "ref \<in> set (pushed_refs req)"
  shows "\<exists>a w''. Get (NewAuthorizingAssetStore X (NewBlobAccessAssetStore X ba lim) Af Ap) ref df w' =
    (Done (Inr a), w'') \<and> pushed_asset req BLOB a"
proof -
  let ?c = "(X, (X, ba, lim, contents), Af, Ap)"
  have ok: "auth_ok blob_ok blob_view ?c"
    using assms(1,2,5,6) by (simp add: blob_config_simps(2) blob_view_keeps)
  have fits: "auth_inner blob_fits ?c a" for a using assms(3) by (simp add: blob_config_simps(4))
  have clock: "clock_keeps X (auth_inner blob_view ?c)" using assms(4) by (simp add: blob_view_keeps)
  have run: "push_with X \<lparr>assetStore = auth_store blob_store ?c, allowUpdatesForInstances = allow\<rparr> BLOB
      ''PushBlob requires at least one URI'' ''This service does not accept Blobs for instance '' req w
      = (Done (Inr u), w')"
    using assms(8)
    by (simp add: blob_config_simps(1) NewAssetPushServer_run Let_def replyM_success PushBlob_push_with)
  from aas.push_with_held [OF ok fits clock run assms(9,10)]
  obtain a where a: "auth_inner blob_view ?c w' df ref = Some a" "pushed_asset req BLOB a"
    by (auto simp: aas.held_def)
  have "auth_admits (\<lambda>_ _ _. True) ?c df w'"
    using assms(7) by (auto split: prod.split option.split) (metis fst_conv option.distinct(1))
  from aas.Get_hit [OF ok this a(1)] a(2) show ?thesis by (auto simp: blob_config_simps(1))
qed

theorem push_blob_stores_witness:
  "\<exists>a w''. Get (NewAuthorizingAssetStore world_X (NewBlobAccessAssetStore world_X stored_ba 100)
        always always) (NewAssetReference [''u''] []) (''inst'', DF_SHA256)
      (snd (PushBlob (NewAssetPushServer world_X (NewAuthorizingAssetStore world_X
        (NewBlobAccessAssetStore world_X stored_ba 100) always always) [''inst'' \<mapsto> True]) push0 world0)) =
      (Done (Inr a), w'') \<and> pushed_asset push0 BLOB a"
proof -
  let ?st = "NewAuthorizingAssetStore world_X (NewBlobAccessAssetStore world_X stored_ba 100) always always"
  obtain w' where push: "PushBlob (NewAssetPushServer world_X ?st [''inst'' \<mapsto> True]) push0 world0 =
      (Done (Some (), None), w')"
    using push0_succeeds by blast
  show ?thesis
    unfolding push snd_conv
    by (rule push_blob_stores [where contents = stored, OF _ _ _ _ _ _ _ push])
       (simp_all add: push_getDigestFunction_def pushed_refs_def)
qed

text \<open>An instance whose name is not among those that may be pushed to is refused, for
  blobs and directories: nothing is stored, in fact nothing happens.\<close>

theorem push_refused:
  assumes "PushUris req \<noteq> []" "allow (GetInstanceName X df) \<noteq> Some True"
    and "push_getDigestFunction X (PushDigestFunction req) (PushInstanceName req) (PushDigest req) = Inr df"
  shows "(\<exists>m. PushBlob (NewAssetPushServer X st allow) req w =
      (Done (None, Some (StatusError code_PermissionDenied m)), w)) \<and>
    (\<exists>m. PushDirectory (NewAssetPushServer X st allow) req w =
      (Done (None, Some (StatusError code_PermissionDenied m)), w))"
  using assms
  by (auto simp: NewAssetPushServer_run Let_def PushBlob_push_with PushDirectory_push_with push_with_def
      may_update_def replyM_run split: option.splits)

theorem push_refused_witness:
  "(\<exists>m. PushBlob (NewAssetPushServer world_X (NewBlobAccessAssetStore world_X stored_ba 100) Map.empty) push0 world0 =
      (Done (None, Some (StatusError code_PermissionDenied m)), world0)) \<and>
   (\<exists>m. PushDirectory (NewAssetPushServer world_X (NewBlobAccessAssetStore world_X stored_ba 100) Map.empty) push0 world0 =
      (Done (None, Some (StatusError code_PermissionDenied m)), world0))"
  by (rule push_refused [where df = "(''inst'', DF_SHA256)"]) (simp_all add: push_getDigestFunction_def)

subsection \<open>The stores are maps\<close>

text \<open>C18: the blob store behind its authorizers refines a map from references to assets: whatever
  calls are made, in whatever order, and whichever of them fail, the answers and the contents are
  those of a run of the map. A \<open>Get\<close> gives exactly what the map holds under its reference, and fails
  where it holds nothing, unless the authorizer for fetches refuses this call. A \<open>Put\<close> that succeeds
  makes its asset the entry of its reference and touches no reference with another digest; it fails
  only if the authorizer for pushes refuses this call, its reference cannot be serialised, or the blob
  access does not accept the blob, and then its asset may be stored all the same, but nothing else
  changes. (Assets that are put can be read back within the size limit.)\<close>

theorem blob_store_refines_map:
  assumes "keeps_blobs X ba contents" "refusals_keep ba contents" "typed_buffers X" "faithful_buffers X"
    and "auth_keeps fa contents" "auth_keeps pa contents"
    and "\<forall>ref a df. PutCall ref a df \<in> set calls \<longrightarrow> buffers_roundtrip X lim (MAsset a)"
    and "performs (blob_refuses X ba fa pa)
      (NewAuthorizingAssetStore X (NewBlobAccessAssetStore X ba lim) fa pa) calls w = (outs, w')"
  shows "table_run (same_digest X) (\<lambda>a. a) calls outs
    (blob_view (X, ba, lim, contents) w) (blob_view (X, ba, lim, contents) w')"
proof -
  let ?c = "(X, (X, ba, lim, contents), fa, pa)"
  have same: "auth_inner blob_key ?c = same_digest X" by (intro ext) simp
  have "auth_ok blob_ok blob_view ?c" "auth_inner blob_settled ?c"
    using assms(1-6) by (simp_all add: blob_config_simps(2) blob_view_keeps)
  from kaas.performs_refine [OF this blob_excuses, of calls w outs w'] assms(7,8) show ?thesis
    unfolding same by (simp add: blob_config_simps(1,4))
qed

abbreviation example_calls where
  "example_calls ref \<equiv> [GetCall ref (''i'', DF_SHA1), PutCall ref asset0 (''i'', DF_SHA1), GetCall ref (''i'', DF_SHA1)]"

theorem blob_store_refines_map_witness:
  "\<exists>outs w'. performs (blob_refuses world_X stored_ba always always) example_store
      (example_calls (NewAssetReference [''u''] [])) world0 = (outs, w') \<and>
    outs = [Missing, Stored, Found asset0] \<and>
    table_run (same_digest world_X) (\<lambda>a. a) (example_calls (NewAssetReference [''u''] [])) outs
      (blob_view (world_X, stored_ba, 100, stored) world0) (blob_view (world_X, stored_ba, 100, stored) w')"
proof -
  obtain w' where run: "performs (blob_refuses world_X stored_ba always always) example_store
      (example_calls (NewAssetReference [''u''] [])) world0 = ([Missing, Stored, Found asset0], w')"
    by (simp add: Get_authorizing Put_authorizing)
  show ?thesis
    by (rule exI, rule exI, rule conjI [OF run], rule conjI [OF refl])
       (rule blob_store_refines_map [OF _ _ _ _ _ _ _ run], auto simp: refusals_keep_def faithful_buffers_def split: if_split_asm)
qed

text \<open>C19: so does the action cache store, if every asset that is put has a digest whose hash is not
  empty: with the digest of the action as the key, and but for the expiry of an asset, which is not
  kept. A \<open>Get\<close> gives exactly what the map holds under its reference, that is what the last successful
  \<open>Put\<close> left there, with an expiry that means never, and fails where the map holds nothing, unless the
  authorizer for fetches refuses this call. A \<open>Put\<close> may fail at any time (it needs objects in the
  content addressable storage), and then its asset may be stored all the same, but nothing else
  changes.\<close>

theorem action_cache_refines_map:
  fixes X ac cas lim plat
  defines "rs \<equiv> \<lparr>actionCache = ac, contentAddressableStorage = cas, maximumMessageSize = lim, platform = plat\<rparr>"
  assumes "keeps_blobs X ac contents" "separate cas contents" "refusals_keep ac contents" "faithful_buffers X"
    and "auth_keeps fa contents" "auth_keeps pa contents" "\<And>r. buffers_roundtrip X lim (MActionResult r)"
    and "\<forall>ref a df. PutCall ref a df \<in> set calls \<longrightarrow> (\<exists>d. AssetDigest a = Some d \<and> Hash d \<noteq> [])"
    and "performs (ac_refuses X fa)
      (NewAuthorizingAssetStore X (NewActionCacheAssetStore X n ac cas lim plat) fa pa) calls w = (outs, w')"
  shows "table_run (\<lambda>df ref df' ref'. action_key X rs df ref \<noteq> None \<and> action_key X rs df' ref' = action_key X rs df ref)
    (\<lambda>a. a\<lparr>ExpireAt := Some (getDefaultTimestamp X)\<rparr>) calls outs
    (ac_view (X, rs, n, contents) w) (ac_view (X, rs, n, contents) w')"
proof -
  let ?c = "(X, (X, rs, n, contents), fa, pa)"
  have same: "auth_inner ac_same_key ?c =
      (\<lambda>df ref df' ref'. action_key X rs df ref \<noteq> None \<and> action_key X rs df' ref' = action_key X rs df ref)"
    by (intro ext) simp
  have image: "auth_inner ac_image ?c = (\<lambda>a. a\<lparr>ExpireAt := Some (getDefaultTimestamp X)\<rparr>)"
    by (intro ext) (simp add: ac_config_simps(4))
  have "auth_ok ac_ok ac_view ?c" "auth_inner ac_settled ?c"
    using assms(2-7) by (simp_all add: rs_def ac_config_simps(2) ac_view_keeps)
  from kaacs.performs_refine [OF this ac_excuses, of calls w outs w'] assms(8-10) show ?thesis
    unfolding same image by (simp add: rs_def ac_config_simps(1,5))
qed

theorem action_cache_refines_map_witness:
  "\<exists>w'. performs (ac_refuses world_X always) (NewAuthorizingAssetStore world_X (NewActionCacheAssetStore world_X 3 stored_ba objects_ba 100 None) always always)
      [PutCall (NewAssetReference [''u''] []) asset0 (''i'', DF_SHA1)] world0 = ([Stored], w') \<and>
    (\<exists>same kept view. table_run same kept [PutCall (NewAssetReference [''u''] []) asset0 (''i'', DF_SHA1)] [Stored]
      (view world0) (view w') \<and> kept asset0 = asset0\<lparr>ExpireAt := Some (getDefaultTimestamp world_X)\<rparr> \<and>
      view w' (''i'', DF_SHA1) (NewAssetReference [''u''] []) = Some (kept asset0))"
proof -
  let ?rs = "\<lparr>actionCache = stored_ba, contentAddressableStorage = objects_ba, maximumMessageSize = 100, platform = None\<rparr>"
  obtain w' where run: "performs (ac_refuses world_X always) (NewAuthorizingAssetStore world_X
      (NewActionCacheAssetStore world_X 3 stored_ba objects_ba 100 None) always always)
      [PutCall (NewAssetReference [''u''] []) asset0 (''i'', DF_SHA1)] world0 = ([Stored], w')"
    using action_put_witness by (auto simp: Put_authorizing)
  have spec: "table_run (\<lambda>df ref df' ref'. action_key world_X ?rs df ref \<noteq> None \<and> action_key world_X ?rs df' ref' = action_key world_X ?rs df ref)
      (\<lambda>a. a\<lparr>ExpireAt := Some (getDefaultTimestamp world_X)\<rparr>)
      [PutCall (NewAssetReference [''u''] []) asset0 (''i'', DF_SHA1)] [Stored]
      (ac_view (world_X, ?rs, 3, stored) world0) (ac_view (world_X, ?rs, 3, stored) w')"
    by (rule action_cache_refines_map [OF _ _ _ _ _ _ _ _ run])
       (auto simp: refusals_keep_def faithful_buffers_def asset0_def split: if_split_asm)
  then have "ac_view (world_X, ?rs, 3, stored) w' (''i'', DF_SHA1) (NewAssetReference [''u''] []) =
      Some (asset0\<lparr>ExpireAt := Some (getDefaultTimestamp world_X)\<rparr>)"
    by (auto elim!: table_run_NilE table_run_ConsE table_step_PutE)
  with run spec show ?thesis by blast
qed

end
