(* ===== verification/FetchProperties.thy ===== *)
theory FetchProperties
  imports ExampleWorld
begin

section \<open>Properties of the fetchers\<close>

text \<open>Each property is followed by a witness that applies it in the concrete environment
  of \<open>ExampleWorld\<close>.\<close>

subsection \<open>The layers\<close>

text \<open>The validating fetcher hands a request on unchanged exactly when it names a URI and
  the fetcher supports all its qualifiers; otherwise it answers with an error and does
  nothing else.\<close>

theorem validating_gate:
  "if Uris req \<noteq> [] \<and> IsEmpty (CheckQualifiers f (QualifiersToSet (Qualifiers req)))
   then FetchBlob (NewValidatingFetcher X f) req w = FetchBlob f req w \<and>
     FetchDirectory (NewValidatingFetcher X f) req w = FetchDirectory f req w
   else (\<exists>e. FetchBlob (NewValidatingFetcher X f) req w = (Done (None, Some e), w)) \<and>
     (\<exists>e. FetchDirectory (NewValidatingFetcher X f) req w = (Done (None, Some e), w))"
  by (auto simp: vf.wrap_blob vf.wrap_directory gated_def validation_def Let_def)

text \<open>The authorizing fetcher answers a refused caller with the authorizer's error; the
  fetcher behind it is not called.\<close>

theorem authorizing_fetcher_denies:
  assumes "NewInstanceName X (InstanceName req) = Inr i"
    and "AuthorizeSingleInstanceName A i w = (Some e, w1)"
  shows "FetchBlob (NewAuthorizingFetcher X f A) req w = (Done (None, Some e), w1) \<and>
    FetchDirectory (NewAuthorizingFetcher X f A) req w = (Done (None, Some e), w1)"
  using af.gate_rejects [of "(X, A)" f req w e w1] assms by simp

theorem authorizing_fetcher_denies_witness:
  "FetchBlob (NewAuthorizingFetcher world_X (DefaultFetcher world_X) (refusing ''inst'')) request0 world0 =
     (Done (None, Some (StatusError code_PermissionDenied ''Permission denied'')), world0) \<and>
   FetchDirectory (NewAuthorizingFetcher world_X (DefaultFetcher world_X) (refusing ''inst'')) request0 world0 =
     (Done (None, Some (StatusError code_PermissionDenied ''Permission denied'')), world0)"
  by (rule authorizing_fetcher_denies [where i = "''inst''"]) simp_all

text \<open>The logging fetcher changes no response and no error of the fetcher it observes.\<close>

theorem logging_transparent:
  assumes "FetchBlob f req (logging_before X False req w) = (Done (r, e), w1)" and "r \<noteq> None \<or> e \<noteq> None"
  shows "\<exists>w2. FetchBlob (NewLoggingFetcher X f) req w = (Done (r, e), w2)"
  using assms
  by (cases e; cases r) (auto simp: logging_defs bindM_Done)

theorem logging_transparent_witness:
  "\<exists>w2. FetchBlob (NewLoggingFetcher world_X (DefaultFetcher world_X)) request0 world0 =
     (Done (None, Some (StatusError 12 ''Fetching is not configured for this server'')), w2)"
  by (rule logging_transparent) (simp_all add: DefaultFetcher_def)

subsection \<open>The cache\<close>



text \<open>C7: a response to a fetch of a blob is the backend's, or it comes from the cache: then its digest was
  stored under one of the request's URIs with its stable qualifiers, and it is as new as the request
  asks for.\<close>

theorem cache_sound:
  assumes "keeps_blobs X ba contents" "typed_buffers X" "clock_keeps X contents" "timestamps_ok X"
    and "FetchBlob (NewCachingFetcher X f (NewBlobAccessAssetStore X ba lim)) req w = (Done (Some rsp, err), w')"
  shows "(\<exists>w1 w2. FetchBlob f req w1 = (Done (Some rsp, None), w2)) \<or>
    (\<exists>u df a. u \<in> set (Uris req) \<and> rsp = cached_response False req u a \<and>
      blob_view (X, ba, lim, contents) w df (cache_ref (Qualifiers req) u) = Some a \<and>
      (case OldestContentAccepted req of None \<Rightarrow> True
       | Some ts \<Rightarrow> instant (AsTime X (Some ts)) \<le> instant (AsTime X (LastUpdated a))))"
proof -
  let ?c = "(X, ba, lim, contents)"
  have ok: "blob_ok ?c" "clock_keeps X (blob_view ?c)"
    using assms(1-3) by (simp_all add: blob_config_simps(2) blob_view_keeps)
  have "caching_with X (blob_store ?c) False req (FetchBlob f req) w = (Done (Some rsp, err), w')"
    using assms(5) by (simp add: FetchBlob_caching blob_config_simps(1))
  then show ?thesis
  proof (cases rule: caching_with_cases)
    case (hit df oldest u a)
    then show ?thesis
      using bs.checkCache_sound [OF ok hit(4)] assms(4)
      by (intro disjI2 exI [of _ u] exI [of _ df] exI [of _ a])
         (auto simp: oldest_accepted_def too_old_def split: option.splits)
  qed blast
qed

theorem cache_sound_witness:
  "(\<exists>w1 w2. FetchBlob (DefaultFetcher world_X) request0 w1 =
      (Done (Some (cached_response False request0 ''u'' asset0), None), w2)) \<or>
    (\<exists>u df a. u \<in> set (Uris request0) \<and>
      cached_response False request0 ''u'' asset0 = cached_response False request0 u a \<and>
      blob_view (world_X, stored_ba, 100, stored) world2 df (cache_ref (Qualifiers request0) u) = Some a \<and>
      (case OldestContentAccepted request0 of None \<Rightarrow> True
       | Some ts \<Rightarrow> instant (AsTime world_X (Some ts)) \<le> instant (AsTime world_X (LastUpdated a))))"
proof -
  obtain w' where "FetchBlob (NewCachingFetcher world_X (DefaultFetcher world_X)
      (NewBlobAccessAssetStore world_X stored_ba 100)) request0 world2 =
      (Done (Some (cached_response False request0 ''u'' asset0), None), w')"
    using world2_fetch by blast
  then show ?thesis by (rule cache_sound [rotated -1]) simp_all
qed

text \<open>C6: expired assets are never served to a fetch of a blob: if everything stored under the request's
  URIs has an expiry the clock has passed (other than the epoch, which stands for no expiry), a response
  can only be the backend's.\<close>

theorem expired_never_served:
  assumes "keeps_blobs X ba contents" "typed_buffers X" "clock_keeps X contents" "clock_after X now"
    and "\<And>u df a. u \<in> set (Uris req) \<Longrightarrow>
      blob_view (X, ba, lim, contents) w df (cache_ref (Qualifiers req) u) = Some a \<Longrightarrow>
      \<exists>ts. ExpireAt a = Some ts \<and> instant (AsTime X (Some ts)) \<noteq> 0 \<and> instant (AsTime X (Some ts)) < now"
    and "FetchBlob (NewCachingFetcher X f (NewBlobAccessAssetStore X ba lim)) req w = (Done (Some rsp, err), w')"
  shows "\<exists>w1 w2. FetchBlob f req w1 = (Done (Some rsp, None), w2)"
proof -
  let ?c = "(X, ba, lim, contents)"
  have ok: "blob_ok ?c" "clock_keeps X (blob_view ?c)"
    using assms(1-3) by (simp_all add: blob_config_simps(2) blob_view_keeps)
  have "caching_with X (blob_store ?c) False req (FetchBlob f req) w = (Done (Some rsp, err), w')"
    using assms(6) by (simp add: FetchBlob_caching blob_config_simps(1))
  then show ?thesis
  proof (cases rule: caching_with_cases)
    case (hit df oldest u a)
    from bs.checkCache_sound [OF ok hit(4)] assms(5) obtain ts w1 where
      "ExpireAt a = Some ts" "instant (AsTime X (Some ts)) \<noteq> 0" "instant (AsTime X (Some ts)) < now"
      "\<not> expired X a (fst (TimeNow X w1))" by blast
    with expired_after [OF _ _ assms(4)] show ?thesis by blast
  qed blast
qed

theorem expired_never_served_witness:
  "\<exists>w1 w2. FetchBlob (giving failed0) request0 w1 = (Done (Some failed0, None), w2)"
proof -
  obtain w' where "FetchBlob (NewCachingFetcher world_X (giving failed0)
      (NewBlobAccessAssetStore world_X stored_ba 100)) request0 world3 = (Done (Some failed0, None), w')"
    using fetch_run by blast
  then show ?thesis
  proof (rule expired_never_served [where contents = stored and now = 1000, rotated -1])
    fix u df a
    assume "u \<in> set (Uris request0)"
      "blob_view (world_X, stored_ba, 100, stored) world3 df (cache_ref (Qualifiers request0) u) = Some a"
    then have "a = asset0\<lparr>ExpireAt := Some \<lparr>Seconds = 0, Nanos = 5\<rparr>\<rparr>"
      by (simp add: blob_config_simps(3) message_digest_def cache_ref_def world3_def del: message_bytes.simps)
    then show "\<exists>ts. ExpireAt a = Some ts \<and> instant (AsTime world_X (Some ts)) \<noteq> 0 \<and>
        instant (AsTime world_X (Some ts)) < 1000" by simp
  qed simp_all
qed

text \<open>C38: a blob response whose status is not OK is handed on and not cached: the world is the
  one the backend left, which was called with the store as it was.\<close>

theorem failed_blob_not_cached:
  assumes "keeps_blobs X ba contents" "typed_buffers X" "clock_keeps X contents"
    and "FetchBlob (NewCachingFetcher X f (NewBlobAccessAssetStore X ba lim)) req w = (Done (Some rsp, err), w')"
    and "ResponseStatus rsp = Some st" "status_Code st \<noteq> code_OK"
  shows "err = None \<and> (\<exists>w1. FetchBlob f req w1 = (Done (Some rsp, None), w') \<and>
    blob_view (X, ba, lim, contents) w1 = blob_view (X, ba, lim, contents) w)"
proof -
  let ?c = "(X, ba, lim, contents)"
  have ok: "blob_ok ?c" "clock_keeps X (blob_view ?c)"
    using assms(1-3) by (simp_all add: blob_config_simps(2) blob_view_keeps)
  have "caching_with X (blob_store ?c) False req (FetchBlob f req) w = (Done (Some rsp, err), w')"
    using assms(4) by (simp add: FetchBlob_caching blob_config_simps(1))
  then show ?thesis
  proof (cases rule: caching_with_cases)
    case (hit df oldest u a)
    then show ?thesis using assms(5,6) by (auto simp: cached_response_def)
  next
    case (fetched df oldest errs w1 w2)
    from fetched(5) assms(5,6) have "err = None" "w' = w2" by (auto simp: after_fetch_def)
    with fetched(4) bs.checkCache_world [OF ok fetched(3)] show ?thesis by blast
  qed
qed

theorem failed_blob_not_cached_witness:
  "None = (None :: error option) \<and> (\<exists>w1 w'. FetchBlob (giving failed0) request0 w1 = (Done (Some failed0, None), w') \<and>
    blob_view (world_X, stored_ba, 100, stored) w1 = blob_view (world_X, stored_ba, 100, stored) world0)"
proof -
  obtain w' where "FetchBlob (NewCachingFetcher world_X (giving failed0)
      (NewBlobAccessAssetStore world_X stored_ba 100)) request0 world0 = (Done (Some failed0, None), w')"
    using fetch_run by fastforce
  from failed_blob_not_cached [OF world_keeps(1) world_buffers(2) world_effects(1) this,
      of "\<lparr>status_Code = code_NotFound, status_Message = ''gone''\<rparr>"]
  show ?thesis by (auto simp: failed0_def)
qed

text \<open>C13: a blob fetched from the backend is served from the cache from then on. A fetch by a
  request for whose URIs the store held nothing was answered, with status OK and without an error; then,
  in any later world in which the store holds the same under the response's URI, a fetch of a blob
  whose first URI is that one, whose qualifiers without the volatile ones are those of the
  response, whose digest function is that of the first request, and which has no bound on the age
  of the content, gives the same digest, through any backend. Assets in a blob access.\<close>

theorem fetched_then_cached:
  assumes "keeps_blobs X ba contents" "typed_buffers X" "\<And>a. buffers_roundtrip X lim (MAsset a)"
    and "clock_keeps X contents" "timestamps_ok X"
    and "getDigestFunction X (DigestFunction req) (InstanceName req) = Inr df"
    and "\<And>u. u \<in> set (Uris req) \<Longrightarrow>
      blob_view (X, ba, lim, contents) w df (cache_ref (Qualifiers req) u) = None"
    and "FetchBlob (NewCachingFetcher X f (NewBlobAccessAssetStore X ba lim)) req w = (Done (Some rsp, None), w')"
    and "ResponseStatus rsp = Some st" "status_Code st = code_OK"
    and "getDigestFunction X (DigestFunction req') (InstanceName req') = Inr df"
    and "Uris req' = ResponseUri rsp # us" "OldestContentAccepted req' = None"
    and "mset (filter (\<lambda>q. \<not> volatile q) (Qualifiers req')) =
      mset (filter (\<lambda>q. \<not> volatile q) (ResponseQualifiers rsp))"
    and "\<And>ref. ref = NewAssetReference [ResponseUri rsp] (removeVolatileQualifiers (ResponseQualifiers rsp)) \<Longrightarrow>
      blob_view (X, ba, lim, contents) v df ref = blob_view (X, ba, lim, contents) w' df ref"
  shows "\<exists>r w''. FetchBlob (NewCachingFetcher X f' (NewBlobAccessAssetStore X ba lim)) req' v =
    (Done (Some r, None), w'') \<and> ResponseDigest r = ResponseDigest rsp"
proof -
  let ?c = "(X, ba, lim, contents)"
  have ok: "blob_ok ?c" "clock_keeps X (blob_view ?c)"
    using assms(1,2,4) by (simp_all add: blob_config_simps(2) blob_view_keeps)
  have run: "caching_with X (blob_store ?c) False req (FetchBlob f req) w = (Done (Some rsp, None), w')"
    using assms(8) by (simp add: FetchBlob_caching blob_config_simps(1))
  have fits: "blob_fits ?c a" for a using assms(3) by (simp add: blob_config_simps(4))
  have "cache_ref (Qualifiers req') (ResponseUri rsp) \<in> set (cache_refs req rsp)"
    using assms(14) by (simp add: cache_refs_def cache_ref_def NewAssetReference_eq_iff)
  from bs.fetched_is_stored [OF ok fits assms(6,7) run _ this] assms(9,10)
  obtain a where held: "blob_view ?c w' df (cache_ref (Qualifiers req') (ResponseUri rsp)) = Some a"
    and a: "AssetDigest a = ResponseDigest rsp" "ExpireAt a = Some (getDefaultTimestamp X)" by auto
  have "cache_ref (Qualifiers req') (ResponseUri rsp) =
      NewAssetReference [ResponseUri rsp] (removeVolatileQualifiers (ResponseQualifiers rsp))"
    using assms(14) by (simp add: cache_ref_def NewAssetReference_eq_iff)
  with held assms(15) have later: "blob_view ?c v df (cache_ref (Qualifiers req') (ResponseUri rsp)) = Some a" by simp
  from bs.caching_hit [OF ok(1) TrueI later everlasting_default [OF assms(5) a(2)] _ assms(11) _ assms(12),
      where oldest = Unix_0_0 and d = False and backend = "FetchBlob f' req'"] assms(13) a(1)
  show ?thesis
    by (auto simp: FetchBlob_caching blob_config_simps(1) oldest_accepted_def too_old_def cached_response_def)
qed

theorem fetched_then_cached_witness:
  "\<exists>w' r w''. FetchBlob (NewCachingFetcher world_X (giving fetched0) (NewBlobAccessAssetStore world_X stored_ba 100))
      request0 world0 = (Done (Some fetched0, None), w') \<and>
    FetchBlob (NewCachingFetcher world_X (DefaultFetcher world_X) (NewBlobAccessAssetStore world_X stored_ba 100))
      request0 w' = (Done (Some r, None), w'') \<and> ResponseDigest r = Some \<lparr>Hash = ''abc'', SizeBytes = 3\<rparr>"
proof -
  obtain w' where first: "FetchBlob (NewCachingFetcher world_X (giving fetched0)
      (NewBlobAccessAssetStore world_X stored_ba 100)) request0 world0 = (Done (Some fetched0, None), w')"
    using fetch_store_run [of world0] by auto
  have "\<exists>r w''. FetchBlob (NewCachingFetcher world_X (DefaultFetcher world_X)
      (NewBlobAccessAssetStore world_X stored_ba 100)) request0 w' = (Done (Some r, None), w'') \<and>
      ResponseDigest r = ResponseDigest fetched0"
    by (rule fetched_then_cached [where contents = stored and df = "(''inst'', DF_SHA256)"
          and st = "\<lparr>status_Code = code_OK, status_Message = ''fetched''\<rparr>", OF _ _ _ _ _ _ _ first])
       (simp_all add: fetched0_def getDigestFunction_def)
  with first show ?thesis by (auto simp: fetched0_def)
qed

text \<open>C39: a directory response is cached whatever its status: after a fetch that missed the
  cache, the asset store holds its digest even where the backend reported a failure.\<close>

theorem directory_cached_whatever_status:
  assumes "keeps_blobs X ba contents" "typed_buffers X" "\<And>a. buffers_roundtrip X lim (MAsset a)"
    and "clock_keeps X contents"
    and "getDigestFunction X (DigestFunction req) (InstanceName req) = Inr df"
    and "\<And>u. u \<in> set (Uris req) \<Longrightarrow>
      blob_view (X, ba, lim, contents) w df (cache_ref (Qualifiers req) u) = None"
    and "FetchDirectory (NewCachingFetcher X f (NewBlobAccessAssetStore X ba lim)) req w = (Done (Some rsp, None), w')"
  shows "\<exists>a. blob_view (X, ba, lim, contents) w' df (cache_ref (ResponseQualifiers rsp) (ResponseUri rsp)) = Some a \<and>
    AssetDigest a = ResponseDigest rsp \<and> AssetTypeOf a = DIRECTORY"
proof -
  let ?c = "(X, ba, lim, contents)"
  have ok: "blob_ok ?c" "clock_keeps X (blob_view ?c)"
    using assms(1,2,4) by (simp_all add: blob_config_simps(2) blob_view_keeps)
  have run: "caching_with X (blob_store ?c) True req (FetchDirectory f req) w = (Done (Some rsp, None), w')"
    using assms(7) by (simp add: FetchDirectory_caching blob_config_simps(1))
  have fits: "blob_fits ?c a" for a using assms(3) by (simp add: blob_config_simps(4))
  from bs.fetched_is_stored [OF ok fits assms(5,6) run, of _ "cache_ref (ResponseQualifiers rsp) (ResponseUri rsp)"]
  show ?thesis by (auto simp: cache_refs_def)
qed

theorem directory_cached_witness:
  "\<exists>w' a. FetchDirectory (NewCachingFetcher world_X (giving failed0) (NewBlobAccessAssetStore world_X stored_ba 100))
      request0 world0 = (Done (Some failed0, None), w') \<and>
    blob_view (world_X, stored_ba, 100, stored) w' (''inst'', DF_SHA256) (cache_ref [] ''u'') = Some a \<and>
    AssetDigest a = None \<and> AssetTypeOf a = DIRECTORY"
proof -
  obtain w' where run: "FetchDirectory (NewCachingFetcher world_X (giving failed0)
      (NewBlobAccessAssetStore world_X stored_ba 100)) request0 world0 = (Done (Some failed0, None), w')"
    using fetch_directory_run [of world0] by auto
  have "\<exists>a. blob_view (world_X, stored_ba, 100, stored) w' (''inst'', DF_SHA256)
      (cache_ref (ResponseQualifiers failed0) (ResponseUri failed0)) = Some a \<and>
      AssetDigest a = ResponseDigest failed0 \<and> AssetTypeOf a = DIRECTORY"
    by (rule directory_cached_whatever_status [OF _ _ _ _ _ _ run]) (simp_all add: getDigestFunction_def)
  with run show ?thesis by (auto simp: failed0_def)
qed

text \<open>An error of the backend keeps its code; its message is extended with the errors of
  the lookups, one for each URI of the request.\<close>

theorem backend_error_kept:
  assumes "keeps_blobs X ba contents" "typed_buffers X" "clock_keeps X contents" "statuses_ok X"
    and "getDigestFunction X (DigestFunction req) (InstanceName req) = Inr df"
    and "OldestContentAccepted req = None"
    and "\<And>u. u \<in> set (Uris req) \<Longrightarrow>
      blob_view (X, ba, lim, contents) w df (cache_ref (Qualifiers req) u) = None"
    and "\<And>w. fst (FetchBlob f req w) = Done (r, Some (StatusError c m))" "c \<noteq> code_OK"
  shows "\<exists>errs w'. FetchBlob (NewCachingFetcher X f (NewBlobAccessAssetStore X ba lim)) req w =
    (Done (None, Some (StatusError c (StatusMessage X (StatusError c m) @
      '' (retrieving cached blob failed with: '' @ joinedErrors X errs @ '')''))), w') \<and>
    length errs = length (Uris req)"
proof -
  let ?c = "(X, ba, lim, contents)"
  have ok: "blob_ok ?c" using assms(1,2) by (simp add: blob_config_simps(2))
  obtain errs w1 where "checkCache X (blob_store ?c) (Qualifiers req) df Unix_0_0 (Uris req) [] w =
      (Done (Inl errs), w1)" "length errs = length (Uris req)"
    using bs.checkCache_miss [OF ok TrueI, of "Uris req" w df "Qualifiers req" X Unix_0_0 "[]"] assms(7) by auto
  moreover obtain w2 where "FetchBlob f req w1 = (Done (r, Some (StatusError c m)), w2)"
    using assms(8) by (metis prod.collapse)
  ultimately show ?thesis
    using assms(4-6,9)
    by (auto simp: FetchBlob_caching blob_config_simps(1) caching_with_def oldest_accepted_def bindM_Done
        after_fetch_def statuses_ok_def)
qed

theorem backend_error_kept_witness:
  "\<exists>errs w'. FetchBlob (NewCachingFetcher world_X (DefaultFetcher world_X)
      (NewBlobAccessAssetStore world_X stored_ba 100)) request0 world0 =
    (Done (None, Some (StatusError 12 (StatusMessage world_X (StatusError 12
      ''Fetching is not configured for this server'') @
      '' (retrieving cached blob failed with: '' @ joinedErrors world_X errs @ '')''))), w') \<and>
    length errs = length (Uris request0)"
  by (rule backend_error_kept [where contents = stored and df = "(''inst'', DF_SHA256)" and r = None])
     (simp_all add: getDigestFunction_def DefaultFetcher_def)

text \<open>Volatile qualifiers are no part of what is cached: the reference a URI is cached
  under has none of them, and two requests share it exactly when their other qualifiers are
  the same.\<close>

theorem volatile_qualifiers_ignored:
  "(\<forall>q. q \<in> set (RefQualifiers (NewAssetReference [u] (removeVolatileQualifiers qs))) \<longleftrightarrow> q \<in> set qs \<and>
      \<not> HasPrefix (Name q) ''http_header_url:'' \<and> Name q \<noteq> ''bazel.auth_headers'') \<and>
   (NewAssetReference [u] (removeVolatileQualifiers qs) = NewAssetReference [u'] (removeVolatileQualifiers qs') \<longleftrightarrow>
     u = u' \<and> mset (filter (\<lambda>q. \<not> volatile q) qs) = mset (filter (\<lambda>q. \<not> volatile q) qs'))"
  by (auto simp: volatile_def NewAssetReference_eq_iff)

end
