(* ===== verification/HTTPDownloads.thy ===== *)
theory HTTPDownloads
  imports HTTPFetcher
begin

section \<open>What a download does\<close>

text \<open>
  Facts about \<open>downloadBlob\<close> and the fetch around it: what a body that was read to its end
  gives, when the loops end, what they leave alone, and what becomes of temporary files and
  bodies.
\<close>

subsection \<open>The content of a body\<close>

text \<open>\<open>streamed H f body w ps w'\<close>: from the world \<open>w\<close> on, the body was read until its
  end, each read in the world that the one before left; its non-empty chunks, in their order, are
  \<open>ps\<close>, and each was written to the file \<open>f\<close> before the next read.\<close>

inductive streamed ::
  "('f, 'd, 'b, 'o, 't, 'w) http_ext \<Rightarrow> 't \<Rightarrow> 'o \<Rightarrow> 'w \<Rightarrow> bytes list \<Rightarrow> 'w \<Rightarrow> bool"
  for H :: "('f, 'd, 'b, 'o, 't, 'w) http_ext" and f :: 't and body :: 'o where
  streamed_end: "BodyRead H body w = (([], EndOfFile), w') \<Longrightarrow> streamed H f body w [] w'"
| streamed_last: "BodyRead H body w = ((p, EndOfFile), w1) \<Longrightarrow> p \<noteq> [] \<Longrightarrow>
    FileWrite H f p w1 = (None, w') \<Longrightarrow> streamed H f body w [p] w'"
| streamed_none: "BodyRead H body w = (([], MoreToRead), w1) \<Longrightarrow> streamed H f body w1 ps w' \<Longrightarrow>
    streamed H f body w ps w'"
| streamed_more: "BodyRead H body w = ((p, MoreToRead), w1) \<Longrightarrow> p \<noteq> [] \<Longrightarrow>
    FileWrite H f p w1 = (None, w2) \<Longrightarrow> streamed H f body w2 ps w' \<Longrightarrow> streamed H f body w (p # ps) w'"

inductive_cases streamedE: "streamed H f body w ps w'"

text \<open>What a body gives from a world on is determined.\<close>

lemma streamed_unique:
  "streamed H f body w ps w' \<Longrightarrow> streamed H f body w qs w'' \<Longrightarrow> qs = ps \<and> w'' = w'"
proof (induction arbitrary: qs rule: streamed.induct)
  case (streamed_more w p w1 w2 ps w')
  from streamed_more.prems show ?case
    by (rule streamedE) (use streamed_more.hyps streamed_more.IH in auto)
qed (erule streamedE; simp)+

lemma writeAll_chunks:
  "writeAll X H dl clen f chunks p w = (Done (Inr chunks'), w') \<Longrightarrow>
     chunks' = chunks @ [p] \<and> FileWrite H f p w = (None, w')"
  by (auto simp: writeAll_def checkM_Inr_iff simp del: checkM_call)

lemma copyBody_streamed:
  "copyBody X H dl clen f body n chunks w = (Done (Inr chunks'), w') \<Longrightarrow>
     \<exists>ps. chunks' = chunks @ ps \<and> streamed H f body w ps w'"
proof (induction n arbitrary: chunks w)
  case (Suc n)
  obtain p er w1 where read: "BodyRead H body w = ((p, er), w1)" by (metis prod.collapse)
  from Suc.prems read obtain mid w2 where
    wrote: "(if p = [] then ret (Inr chunks) else writeAll X H dl clen f chunks p) w1 = (Done (Inr mid), w2)"
    and rest: "(case er of MoreToRead \<Rightarrow> copyBody X H dl clen f body n mid
       | EndOfFile \<Rightarrow> ret (Inr mid) | ReadError err \<Rightarrow> ret (Inl err)) w2 = (Done (Inr chunks'), w')"
    by (auto simp: tryM_Inr_iff)
  have mid: "if p = [] then mid = chunks \<and> w2 = w1 else mid = chunks @ [p] \<and> FileWrite H f p w1 = (None, w2)"
    using wrote by (auto split: if_split_asm dest: writeAll_chunks)
  show ?case
  proof (cases er)
    case MoreToRead
    with rest Suc.IH obtain ps where ps: "chunks' = mid @ ps" "streamed H f body w2 ps w'" by auto
    show ?thesis
    proof (cases "p = []")
      case True
      with mid ps read MoreToRead have "streamed H f body w ps w'" by (auto intro: streamed_none)
      with mid ps True show ?thesis by auto
    next
      case False
      with mid ps read MoreToRead have "streamed H f body w (p # ps) w'" by (auto intro: streamed_more)
      with mid ps False show ?thesis by auto
    qed
  next
    case EndOfFile
    with rest have w': "chunks' = mid" "w' = w2" by simp_all
    show ?thesis
    proof (cases "p = []")
      case True
      with mid w' read EndOfFile show ?thesis by (auto intro: streamed_end)
    next
      case False
      with mid w' read EndOfFile show ?thesis by (auto intro: streamed_last)
    qed
  qed (use rest in simp)
qed simp

subsection \<open>The end of a download\<close>

text \<open>\<open>rank\<close> bounds how often a body can still be read before it ends.\<close>

definition ranked_bodies :: "('f, 'd, 'b, 'o, 't, 'w) http_ext \<Rightarrow> ('o \<Rightarrow> 'w \<Rightarrow> nat) \<Rightarrow> bool" where
  "ranked_bodies H rank \<longleftrightarrow>
     (\<forall>body w p w'. BodyRead H body w = ((p, MoreToRead), w') \<longrightarrow>
        rank body w' < rank body w \<and> (\<forall>f. rank body (snd (FileWrite H f p w')) < rank body w))"

lemma writeAll_world: "snd (writeAll X H dl clen f chunks p w) = snd (FileWrite H f p w)"
  by (cases "FileWrite H f p w") (auto simp: writeAll_def checkM_def split: option.split)

lemma writeAll_finished: "fst (writeAll X H dl clen f chunks p w) \<noteq> Unfinished"
  by (cases "FileWrite H f p w") (auto simp: writeAll_def checkM_def split: option.split)

lemma copyBody_finishes:
  assumes "ranked_bodies H rank"
  shows "rank body w < n \<Longrightarrow> fst (copyBody X H dl clen f body n chunks w) \<noteq> Unfinished"
proof (induction n arbitrary: chunks w)
  case (Suc n)
  obtain p er w1 where read: "BodyRead H body w = ((p, er), w1)" by (metis prod.collapse)
  let ?put = "if p = [] then ret (Inr chunks) else writeAll X H dl clen f chunks p"
  obtain r w2 where wrote: "?put w1 = (r, w2)" by fastforce
  then have "r \<noteq> Unfinished" and w2: "w2 = w1 \<or> w2 = snd (FileWrite H f p w1)"
    using writeAll_finished [of X H dl clen f chunks p w1] writeAll_world [of X H dl clen f chunks p w1]
    by (auto split: if_split_asm)
  have "er = MoreToRead \<Longrightarrow> rank body w2 < rank body w"
    using assms read w2 unfolding ranked_bodies_def by blast
  with Suc have "er = MoreToRead \<Longrightarrow> fst (copyBody X H dl clen f body n mid w2) \<noteq> Unfinished" for mid by simp
  moreover have "copyBody X H dl clen f body (Suc n) chunks w = tryM ?put (\<lambda>chunks. case er of
       MoreToRead \<Rightarrow> copyBody X H dl clen f body n chunks
     | EndOfFile \<Rightarrow> ret (Inr chunks)
     | ReadError err \<Rightarrow> ret (Inl err)) w1"
    by (simp add: read)
  ultimately show ?case
    using \<open>r \<noteq> Unfinished\<close> unfolding tryM_def bindM_def wrote
    by (cases r) (auto split: sum.split read_end.split)
qed simp

lemma downloadBlob_never_unfinished:
  assumes "ranked_bodies H rank" "\<And>body w. rank body w < n"
  shows "never_unfinished (downloadBlob X H hf n dl auth uri)"
proof -
  have copy: "never_unfinished (copyBody X H dl clen f body n chunks)" for clen f body chunks
    by (simp add: never_unfinished_def copyBody_finishes [OF assms])
  have "never_unfinished (storeBody X H n dl resp f)" for resp f
    unfolding storeBody_def Let_def by (auto intro!: finish_rules copy split: sum.split option.split simp del: ret_run)
  then have "never_unfinished (downloadBody X H n dl resp)" for resp
    unfolding downloadBody_def temporaryFile_Close_def
    by (auto intro!: finish_rules split: sum.split option.split simp del: ret_run bindM_call)
  then show ?thesis
    unfolding downloadBlob_def
    by (auto intro!: finish_rules split: sum.split simp del: ret_run bindM_call)
qed

lemma httpFetchUris_never_unfinished:
  assumes "ranked_bodies H rank" "\<And>body w. rank body w < n" "\<And>c m. WrapNoError H c m \<noteq> Unfinished"
  shows "never_unfinished (httpFetchUris X H hf n dl auth qs err uris)"
proof (induction uris arbitrary: err)
  case Nil
  then show ?case
    using assms(3) by (auto intro!: finish_rules split: option.split simp del: ret_run lift_run)
next
  case (Cons uri uris)
  then show ?case
    using downloadBlob_never_unfinished [OF assms(1,2)]
    by (auto intro!: finish_rules split: sum.split option.split simp del: ret_run bindM_call)
qed

lemma checksumSri_not_Unfinished [simp]: "checksumSri X zero e qs \<noteq> Unfinished"
  by (induction qs) (auto simp: Let_def split: list.split option.split sum.split)

subsection \<open>What a download gives\<close>

text \<open>\<open>downloaded X H client dl auth uri f digest checksum w w'\<close>: in this order, from \<open>w\<close> to
  \<open>w'\<close>, a request for the URI, with its headers, was answered with status 200, the temporary
  file \<open>f\<close> was created, the body was read to its end into it, and the body was closed; digest
  and checksum are those of all the chunks that were read, in order.\<close>

definition downloaded ::
  "('i, 'f, 'd, 'b, 'w) ext \<Rightarrow> ('f, 'd, 'b, 'o, 't, 'w) http_ext \<Rightarrow> ('o, 'w) HttpClient \<Rightarrow> 'f download \<Rightarrow>
     AuthHeaders \<Rightarrow> string \<Rightarrow> 't \<Rightarrow> 'd \<Rightarrow> string \<Rightarrow> 'w \<Rightarrow> 'w \<Rightarrow> bool" where
  "downloaded X H client dl auth uri f digest checksum w w' \<longleftrightarrow>
     (\<exists>req resp w1 w2 w3 ps. NewGetRequest H uri = Inr req \<and>
        HttpDo client (ApplyHeaders X auth uri req) w = (Inr resp, w1) \<and>
        HttpStatusCode resp = 200 \<and> CreateTemp H w1 = (Inr f, w2) \<and>
        streamed H f (Body resp) w2 ps w3 \<and> BodyClose H (Body resp) w3 = (None, w') \<and>
        digest = SumGenerator X (digestFunction dl) (ContentLength resp) ps \<and>
        checksum = (if expectedDigest dl \<noteq> []
          then Hash (GetProto X (SumGenerator X (checksumFunction dl) (ContentLength resp) ps)) else []))"

text \<open>A download gives the buffer of an error or that of a file it has written.\<close>

lemma storeBody_cases:
  assumes "storeBody X H n dl resp f w = (Done ((buf, d, c), bodyOpen, fileOpen), w')"
  obtains (failed) e where "buf = NewBufferFromError H e" "bodyOpen" "fileOpen"
    | (stored) ps w1 where "buf = NewValidatedBufferFromReaderAt H f (DigestSizeBytes H d)" "\<not> bodyOpen" "\<not> fileOpen"
      "streamed H f (Body resp) w ps w1" "BodyClose H (Body resp) w1 = (None, w')"
      "d = SumGenerator X (digestFunction dl) (ContentLength resp) ps"
      "c = (if expectedDigest dl \<noteq> []
          then Hash (GetProto X (SumGenerator X (checksumFunction dl) (ContentLength resp) ps)) else [])"
  using assms
  by (auto simp: storeBody_def failed_download_def Let_def call_def elim!: bindM_DoneE dest!: copyBody_streamed
      split: sum.split_asm option.split_asm if_split_asm prod.split_asm simp del: bindM_call)

lemma downloadBody_cases:
  assumes "downloadBody X H n dl resp w = (Done ((buf, d, c), bodyOpen), w')"
  obtains (failed) e where "buf = NewBufferFromError H e" "bodyOpen"
    | (stored) f ps w1 w2 where "buf = NewValidatedBufferFromReaderAt H f (DigestSizeBytes H d)" "\<not> bodyOpen"
      "CreateTemp H w = (Inr f, w1)" "streamed H f (Body resp) w1 ps w2" "BodyClose H (Body resp) w2 = (None, w')"
      "d = SumGenerator X (digestFunction dl) (ContentLength resp) ps"
      "c = (if expectedDigest dl \<noteq> []
          then Hash (GetProto X (SumGenerator X (checksumFunction dl) (ContentLength resp) ps)) else [])"
proof -
  obtain r w1 where temp: "CreateTemp H w = (r, w1)" by fastforce
  show thesis
  proof (cases r)
    case (Inl e)
    with assms temp show thesis by (intro that(1)) (auto simp: downloadBody_def failed_download_def)
  next
    case (Inr f)
    with assms temp obtain fo w2 where store: "storeBody X H n dl resp f w1 = (Done ((buf, d, c), bodyOpen, fo), w2)"
      and rest: "\<not> fo \<longrightarrow> w' = w2"
      by (auto simp: downloadBody_def elim!: bindM_DoneE split: if_split_asm option.split_asm)
    from store show thesis
    proof (cases rule: storeBody_cases)
      case (failed e)
      then show thesis by (intro that(1)) simp_all
    next
      case (stored ps w3)
      with rest temp Inr show thesis by (intro that(2)) simp_all
    qed
  qed
qed

lemma downloadBlob_cases:
  assumes "downloadBlob X H hf n dl auth uri w = (Done (buf, d, c), w')"
  obtains (failed) e where "buf = NewBufferFromError H e"
    | (stored) f where "buf = NewValidatedBufferFromReaderAt H f (DigestSizeBytes H d)"
      "downloaded X H (httpClient hf) dl auth uri f d c w w'"
proof (cases "NewGetRequest H uri")
  case (Inl e)
  with assms that(1) show thesis by (auto simp: downloadBlob_def failed_download_def)
next
  case (Inr req)
  obtain r w1 where do: "HttpDo (httpClient hf) (ApplyHeaders X auth uri req) w = (r, w1)"
    by fastforce
  show thesis
  proof (cases "\<exists>resp. r = Inr resp \<and> HttpStatusCode resp = 200")
    case False
    with assms Inr do that(1) show thesis
      by (cases r) (auto simp: downloadBlob_def failed_download_def)
  next
    case True
    then obtain resp where r: "r = Inr resp" "HttpStatusCode resp = 200" by blast
    with assms Inr do obtain bodyOpen w2 where
      body: "downloadBody X H n dl resp w1 = (Done ((buf, d, c), bodyOpen), w2)" and w': "\<not> bodyOpen \<longrightarrow> w' = w2"
      by (auto simp: downloadBlob_def elim!: bindM_DoneE split: if_split_asm)
    from body show thesis
    proof (cases rule: downloadBody_cases)
      case (stored f ps w3 w4)
      then have "downloaded X H (httpClient hf) dl auth uri f d c w w'"
        unfolding downloaded_def using Inr do r w' by blast
      with stored(1) show thesis by (rule that(2))
    qed (rule that(1))
  qed
qed

subsection \<open>What downloads leave alone\<close>

text \<open>\<open>transfers_keep\<close>: reading a body and writing a file leave \<open>view\<close> alone;
  \<open>http_keeps\<close>: so does all that a download and a fetch do outside the storage.\<close>

definition transfers_keep ::
  "('i, 'f, 'd, 'b, 'w) ext \<Rightarrow> ('f, 'd, 'b, 'o, 't, 'w) http_ext \<Rightarrow> ('w \<Rightarrow> 'v) \<Rightarrow> bool" where
  "transfers_keep X H view \<longleftrightarrow> log_keeps X view \<and>
     (\<forall>body w. view (snd (BodyRead H body w)) = view w) \<and>
     (\<forall>f p w. view (snd (FileWrite H f p w)) = view w) \<and>
     (\<forall>f w. view (snd (FileClose H f w)) = view w)"

definition http_keeps ::
  "('i, 'f, 'd, 'b, 'w) ext \<Rightarrow> ('f, 'd, 'b, 'o, 't, 'w) http_ext \<Rightarrow> ('o, 'w) HttpClient \<Rightarrow> ('w \<Rightarrow> 'v) \<Rightarrow> bool" where
  "http_keeps X H client view \<longleftrightarrow> transfers_keep X H view \<and>
     (\<forall>req w. view (snd (HttpDo client req w)) = view w) \<and>
     (\<forall>body w. view (snd (BodyClose H body w)) = view w) \<and>
     (\<forall>w. view (snd (CreateTemp H w)) = view w) \<and>
     (\<forall>p w. view (snd (OsRemove H p w)) = view w) \<and>
     (\<forall>b w. view (snd (BufferDiscard H b w)) = view w)"

lemma transfers_keepD:
  assumes "transfers_keep X H view"
  shows "view (snd (BodyRead H body w)) = view w" "view (snd (FileWrite H f p w)) = view w"
    "view (snd (FileClose H f w)) = view w" "view (snd (LogPrintf X l w)) = view w"
  using assms by (simp_all add: transfers_keep_def log_keeps_def)

lemma http_keepsD:
  assumes "http_keeps X H client view"
  shows "transfers_keep X H view" "view (snd (HttpDo client req w)) = view w"
    "view (snd (BodyClose H body w)) = view w" "view (snd (CreateTemp H w)) = view w"
    "view (snd (OsRemove H p w)) = view w" "view (snd (BufferDiscard H b w)) = view w"
  using assms by (simp_all add: http_keeps_def)

lemma writeAll_keeps:
  "transfers_keep X H view \<Longrightarrow> preserves (\<lambda>w. view w = v) (writeAll X H dl clen f chunks p)"
  by (simp add: preserves_def writeAll_world transfers_keepD)

lemma copyBody_keeps:
  assumes "transfers_keep X H view"
  shows "preserves (\<lambda>w. view w = v) (copyBody X H dl clen f body n chunks)"
proof (induction n arbitrary: chunks)
  case (Suc n)
  show ?case
    unfolding copyBody.simps
    by (auto intro!: frame_rules preserves_call writeAll_keeps [OF assms] Suc.IH
        simp: transfers_keepD [OF assms] split: read_end.split simp del: ret_run bindM_call)
qed (auto intro: frame_rules simp del: lift_run)

lemma downloadBlob_keeps:
  assumes "http_keeps X H (httpClient hf) view"
  shows "preserves (\<lambda>w. view w = v) (downloadBlob X H hf n dl auth uri)"
proof -
  note keeps = http_keepsD [OF assms] transfers_keepD [OF http_keepsD(1) [OF assms]]
  have "preserves (\<lambda>w. view w = v) (storeBody X H n dl resp f)" for resp f
    unfolding storeBody_def Let_def
    by (auto intro!: frame_rules preserves_call copyBody_keeps keeps(1) simp: keeps
        split: sum.split option.split simp del: ret_run bindM_call)
  then have "preserves (\<lambda>w. view w = v) (downloadBody X H n dl resp)" for resp
    unfolding downloadBody_def temporaryFile_Close_def
    by (auto intro!: frame_rules preserves_call simp: keeps
        split: sum.split option.split simp del: ret_run bindM_call)
  then show ?thesis
    unfolding downloadBlob_def
    by (auto intro!: frame_rules preserves_call simp: keeps split: sum.split simp del: ret_run bindM_call)
qed

subsection \<open>Temporary files and bodies\<close>

text \<open>\<open>files\<close> are the names of the temporary files there are, \<open>bodies\<close> the response
  bodies that are open: the calls that make and remove them do just that.\<close>

definition tracks_files ::
  "('i, 'f, 'd, 'b, 'w) ext \<Rightarrow> ('f, 'd, 'b, 'o, 't, 'w) http_ext \<Rightarrow> ('o, 'w) HttpClient \<Rightarrow> ('w \<Rightarrow> string set) \<Rightarrow> bool" where
  "tracks_files X H client files \<longleftrightarrow> transfers_keep X H files \<and>
     (\<forall>req w. files (snd (HttpDo client req w)) = files w) \<and>
     (\<forall>body w. files (snd (BodyClose H body w)) = files w) \<and>
     (\<forall>e w w'. CreateTemp H w = (Inl e, w') \<longrightarrow> files w' = files w) \<and>
     (\<forall>f w w'. CreateTemp H w = (Inr f, w') \<longrightarrow>
        TempName H f \<notin> files w \<and> files w' = insert (TempName H f) (files w)) \<and>
     (\<forall>p w w'. OsRemove H p w = (None, w') \<longrightarrow> files w' = files w - {p}) \<and>
     (\<forall>p e w w'. OsRemove H p w = (Some e, w') \<longrightarrow> files w' = files w \<or> files w' = files w - {p})"

definition tracks_bodies ::
  "('i, 'f, 'd, 'b, 'w) ext \<Rightarrow> ('f, 'd, 'b, 'o, 't, 'w) http_ext \<Rightarrow> ('o, 'w) HttpClient \<Rightarrow> ('w \<Rightarrow> 'o set) \<Rightarrow> bool" where
  "tracks_bodies X H client bodies \<longleftrightarrow> transfers_keep X H bodies \<and>
     (\<forall>w. bodies (snd (CreateTemp H w)) = bodies w) \<and>
     (\<forall>p w. bodies (snd (OsRemove H p w)) = bodies w) \<and>
     (\<forall>req e w w'. HttpDo client req w = (Inl e, w') \<longrightarrow> bodies w' = bodies w) \<and>
     (\<forall>req resp w w'. HttpDo client req w = (Inr resp, w') \<longrightarrow>
        Body resp \<notin> bodies w \<and> bodies w' = insert (Body resp) (bodies w)) \<and>
     (\<forall>body w. bodies (snd (BodyClose H body w)) = bodies w - {body})"

lemma tracks_filesD:
  assumes "tracks_files X H client files"
  shows "transfers_keep X H files" "files (snd (HttpDo client req w)) = files w"
    "files (snd (BodyClose H body w)) = files w" "OsRemove H p w = (None, w') \<Longrightarrow> files w' = files w - {p}"
    "OsRemove H p w = (Some e, w') \<Longrightarrow> files w' = files w \<or> files w' = files w - {p}"
  using assms unfolding tracks_files_def by blast+

lemma tracks_bodiesD:
  assumes "tracks_bodies X H client bodies"
  shows "transfers_keep X H bodies" "bodies (snd (CreateTemp H w)) = bodies w"
    "bodies (snd (OsRemove H p w)) = bodies w" "bodies (snd (BodyClose H body w)) = bodies w - {body}"
  using assms by (simp_all add: tracks_bodies_def)

lemma storeBody_keeps:
  assumes "transfers_keep X H view" "\<And>body w. view (snd (BodyClose H body w)) = view w"
  shows "preserves (\<lambda>w. view w = v) (storeBody X H n dl resp f)"
  unfolding storeBody_def Let_def
  by (auto intro!: frame_rules preserves_call copyBody_keeps [OF assms(1)] simp: assms(2)
      split: sum.split option.split simp del: ret_run bindM_call)

text \<open>\<open>left_behind H files f w w'\<close>: the file \<open>f\<close>, new since \<open>w\<close>, is there in
  \<open>w'\<close>, because its removal failed.\<close>

definition left_behind ::
  "('f, 'd, 'b, 'o, 't, 'w) http_ext \<Rightarrow> ('w \<Rightarrow> string set) \<Rightarrow> 't \<Rightarrow> 'w \<Rightarrow> 'w \<Rightarrow> bool" where
  "left_behind H files f w w' \<longleftrightarrow> TempName H f \<notin> files w \<and> files w' = insert (TempName H f) (files w) \<and>
     (\<exists>e w1 w2. OsRemove H (TempName H f) w1 = (Some e, w2) \<and> files w1 = files w' \<and> files w2 = files w')"

lemma temporaryFile_Close_files:
  assumes tracks: "tracks_files X H client files" and run: "temporaryFile_Close H f w = (r, w')"
  shows "files w' = files w - {TempName H f} \<or>
    files w' = files w \<and> (\<exists>e w1. OsRemove H (TempName H f) w1 = (Some e, w') \<and> files w1 = files w)"
proof -
  obtain ce w1 where close: "FileClose H f w = (ce, w1)" by fastforce
  obtain re w2 where remove: "OsRemove H (TempName H f) w1 = (re, w2)" by fastforce
  have "w' = w2" using run close remove by (auto simp: temporaryFile_Close_def)
  moreover have "files w1 = files w"
    using transfers_keepD(3) [OF tracks_filesD(1) [OF tracks], of f w] close by simp
  ultimately show ?thesis
    using remove tracks_filesD(4,5) [OF tracks, of "TempName H f" w1] by (cases re) auto
qed

lemma downloadBody_files:
  assumes tracks: "tracks_files X H client files"
    and run: "downloadBody X H n dl resp w = (Done ((buf, d, c), bodyOpen), w')"
  shows "(\<exists>e. buf = NewBufferFromError H e \<and> (files w' = files w \<or> (\<exists>f. left_behind H files f w w'))) \<or>
    (\<exists>f. buf = NewValidatedBufferFromReaderAt H f (DigestSizeBytes H d) \<and>
       TempName H f \<notin> files w \<and> files w' = insert (TempName H f) (files w))"
proof -
  note log = transfers_keepD(4) [OF tracks_filesD(1) [OF tracks]]
  obtain r w1 where temp: "CreateTemp H w = (r, w1)" by fastforce
  show ?thesis
  proof (cases r)
    case (Inl e)
    with temp run tracks show ?thesis
      by (auto simp: downloadBody_def failed_download_def tracks_files_def)
  next
    case (Inr f)
    with temp tracks have new: "TempName H f \<notin> files w" "files w1 = insert (TempName H f) (files w)"
      by (auto simp: tracks_files_def)
    from Inr temp run obtain fileOpen w2 where
      store: "storeBody X H n dl resp f w1 = (Done ((buf, d, c), bodyOpen, fileOpen), w2)"
      and rest: "if fileOpen then \<exists>r w3. temporaryFile_Close H f w2 = (Done r, w3) \<and> files w' = files w3
        else w' = w2"
      by (auto simp: downloadBody_def log elim!: bindM_DoneE split: if_split_asm option.split_asm)
    have "preserves (\<lambda>w. files w = files w1) (storeBody X H n dl resp f)"
      using tracks_filesD(1,3) [OF tracks] by (rule storeBody_keeps)
    from preservesD [OF this store] have files2: "files w2 = files w1" by simp
    from store show ?thesis
    proof (cases rule: storeBody_cases)
      case (failed e)
      with rest obtain r w3 where close: "temporaryFile_Close H f w2 = (Done r, w3)"
        and "files w' = files w3" by auto
      from temporaryFile_Close_files [OF tracks close] show ?thesis
      proof (elim disjE conjE exE)
        assume "files w3 = files w2 - {TempName H f}"
        with \<open>files w' = files w3\<close> files2 new failed(1) show ?thesis by auto
      next
        fix e' v assume "files w3 = files w2" "OsRemove H (TempName H f) v = (Some e', w3)" "files v = files w2"
        with \<open>files w' = files w3\<close> files2 new have "left_behind H files f w w'" by (auto simp: left_behind_def)
        with failed(1) show ?thesis by blast
      qed
    next
      case (stored ps)
      with rest files2 new show ?thesis by auto
    qed
  qed
qed

lemma downloadBlob_files:
  assumes tracks: "tracks_files X H (httpClient hf) files"
    and run: "downloadBlob X H hf n dl auth uri w = (Done (buf, d, c), w')"
  shows "(\<exists>e. buf = NewBufferFromError H e \<and> (files w' = files w \<or> (\<exists>f. left_behind H files f w w'))) \<or>
    (\<exists>f. buf = NewValidatedBufferFromReaderAt H f (DigestSizeBytes H d) \<and>
       TempName H f \<notin> files w \<and> files w' = insert (TempName H f) (files w))"
proof (cases "NewGetRequest H uri")
  case (Inl e)
  with run show ?thesis by (auto simp: downloadBlob_def failed_download_def)
next
  case (Inr req)
  note keeps = tracks_filesD(1-3) [OF tracks] transfers_keepD(4) [OF tracks_filesD(1) [OF tracks]]
  obtain r w1 where do: "HttpDo (httpClient hf) (ApplyHeaders X auth uri req) w = (r, w1)"
    by fastforce
  then have "w1 = snd (HttpDo (httpClient hf) (ApplyHeaders X auth uri req) w)" by simp
  then have w1: "files w1 = files w" by (simp add: keeps)
  show ?thesis
  proof (cases "\<exists>resp. r = Inr resp \<and> HttpStatusCode resp = 200")
    case False
    with run Inr do w1 show ?thesis
      by (cases r) (auto simp: downloadBlob_def failed_download_def keeps)
  next
    case True
    then obtain resp where r: "r = Inr resp" "HttpStatusCode resp = 200" by blast
    with run Inr do obtain bodyOpen w2 where
      body: "downloadBody X H n dl resp w1 = (Done ((buf, d, c), bodyOpen), w2)" and "files w' = files w2"
      by (auto simp: downloadBlob_def keeps elim!: bindM_DoneE split: if_split_asm)
    with downloadBody_files [OF tracks body] w1 show ?thesis by (simp add: left_behind_def)
  qed
qed

text \<open>A body that was opened is closed, unless the status was not 200.\<close>

lemma downloadBody_bodies:
  assumes tracks: "tracks_bodies X H client bodies"
    and run: "downloadBody X H n dl resp w = (Done (result, bodyOpen), w')"
  shows "bodies w' - {Body resp} = bodies w - {Body resp} \<and> (\<not> bodyOpen \<longrightarrow> Body resp \<notin> bodies w')"
proof -
  note keeps = tracks_bodiesD [OF tracks] transfers_keepD [OF tracks_bodiesD(1) [OF tracks]]
  have close: "preserves (\<lambda>w. bodies w = v) (temporaryFile_Close H f)" for f v
    unfolding temporaryFile_Close_def
    by (auto intro!: frame_rules preserves_call simp: keeps simp del: ret_run bindM_call)
  have store: "bodies w2 - {Body resp} = bodies w1 - {Body resp} \<and> (\<not> bo \<longrightarrow> Body resp \<notin> bodies w2)"
    if "storeBody X H n dl resp f w1 = (Done (res, bo, fo), w2)" for f w1 res bo fo w2
  proof -
    from that obtain r w3 where copy: "copyBody X H dl (ContentLength resp) f (Body resp) n [] w1 = (Done r, w3)"
      unfolding storeBody_def by (rule bindM_DoneE)
    obtain e w4 where body: "BodyClose H (Body resp) w3 = (e, w4)" by fastforce
    have "(w2 = w3 \<and> bo) \<or> w2 = w4"
    proof (cases r)
      case (Inl err)
      with that copy show ?thesis by (simp add: storeBody_def bindM_Done)
    next
      case (Inr chunks)
      with that copy body show ?thesis
        by (cases e) (simp_all add: storeBody_def bindM_Done Let_def)
    qed
    moreover have "bodies w4 = bodies w3 - {Body resp}"
      using keeps(4) [of "Body resp" w3] body by simp
    moreover have "bodies w3 = bodies w1"
      using preservesD [OF copyBody_keeps [OF keeps(1)] copy] by blast
    ultimately show ?thesis by auto
  qed
  obtain r w1 where temp: "CreateTemp H w = (r, w1)" by fastforce
  then have w1: "bodies w1 = bodies w" using keeps(2) [of w] by simp
  show ?thesis
  proof (cases r)
    case (Inl e)
    with temp w1 run show ?thesis by (auto simp: downloadBody_def)
  next
    case (Inr f)
    with temp run obtain fo w2 where s: "storeBody X H n dl resp f w1 = (Done (result, bodyOpen, fo), w2)"
      and rest: "if fo then \<exists>r w3. temporaryFile_Close H f w2 = (Done r, w3) \<and> bodies w' = bodies w3 else w' = w2"
      by (auto simp: downloadBody_def keeps elim!: bindM_DoneE split: if_split_asm option.split_asm)
    have "bodies w' = bodies w2" using rest preservesD [OF close] by (auto split: if_split_asm)
    with store [OF s] w1 show ?thesis by simp
  qed
qed

lemma downloadBlob_bodies:
  assumes tracks: "tracks_bodies X H (httpClient hf) bodies"
    and run: "downloadBlob X H hf n dl auth uri w = (Done (buf, d, c), w')"
  shows "bodies w' = bodies w \<or>
    (\<exists>req resp w1. HttpDo (httpClient hf) req w = (Inr resp, w1) \<and> HttpStatusCode resp \<noteq> 200 \<and>
       bodies w' = insert (Body resp) (bodies w))"
proof (cases "NewGetRequest H uri")
  case (Inl e)
  with run show ?thesis by (auto simp: downloadBlob_def)
next
  case (Inr req)
  note keeps = tracks_bodiesD [OF tracks] transfers_keepD(4) [OF tracks_bodiesD(1) [OF tracks]]
  let ?req = "ApplyHeaders X auth uri req"
  obtain r w1 where do: "HttpDo (httpClient hf) ?req w = (r, w1)" by fastforce
  show ?thesis
  proof (cases r)
    case (Inl e)
    with do tracks have "bodies w1 = bodies w" by (auto simp: tracks_bodies_def)
    with run Inr do Inl show ?thesis by (auto simp: downloadBlob_def keeps)
  next
    case r: (Inr resp)
    with do tracks have new: "Body resp \<notin> bodies w" "bodies w1 = insert (Body resp) (bodies w)"
      by (auto simp: tracks_bodies_def)
    show ?thesis
    proof (cases "HttpStatusCode resp = 200")
      case False
      with run Inr do r have "w' = snd (LogPrintf X (LogDownloadStatus uri (HttpStatusCode resp)) w1)"
        by (simp add: downloadBlob_def)
      with new have "bodies w' = insert (Body resp) (bodies w)" by (simp add: keeps)
      with do r False show ?thesis by blast
    next
      case True
      with run Inr do r obtain bodyOpen w2 where
        body: "downloadBody X H n dl resp w1 = (Done ((buf, d, c), bodyOpen), w2)"
        and rest: "w' = (if bodyOpen then snd (BodyClose H (Body resp) w2) else w2)"
        by (auto simp: downloadBlob_def elim!: bindM_DoneE split: if_split_asm)
      have "bodies w' = bodies w2 - {Body resp}"
        using rest downloadBody_bodies [OF tracks body] by (cases bodyOpen) (auto simp add: keeps)
      also have "\<dots> = bodies w1 - {Body resp}" using downloadBody_bodies [OF tracks body] by blast
      also have "\<dots> = bodies w" using new by simp
      finally show ?thesis ..
    qed
  qed
qed

subsection \<open>A fetch\<close>

definition error_buffers :: "('i, 'f, 'd, 'b, 'w) ext \<Rightarrow> ('f, 'd, 'b, 'o, 't, 'w) http_ext \<Rightarrow> bool" where
  "error_buffers X H \<longleftrightarrow> (\<forall>e. isl (GetSizeBytes X (NewBufferFromError H e)))"

lemma error_buffersD: "error_buffers X H \<Longrightarrow> GetSizeBytes X (NewBufferFromError H e) \<noteq> Inr n"
  unfolding error_buffers_def by (metis sum.disc(2))

text \<open>\<open>passed_over\<close>: from \<open>w\<close> to \<open>w'\<close>, the downloads of these URIs failed, one after
  another, and each failure was logged.\<close>

fun passed_over ::
  "('i, 'f, 'd, 'b, 'w) ext \<Rightarrow> ('f, 'd, 'b, 'o, 't, 'w) http_ext \<Rightarrow> ('d, 'b, 'o, 'w) httpFetcher \<Rightarrow> nat \<Rightarrow>
     'f download \<Rightarrow> AuthHeaders \<Rightarrow> string list \<Rightarrow> 'w \<Rightarrow> 'w \<Rightarrow> bool" where
  "passed_over X H hf n dl auth [] w w' \<longleftrightarrow> w' = w"
| "passed_over X H hf n dl auth (uri # uris) w w' \<longleftrightarrow>
     (\<exists>buf d c w1 e. downloadBlob X H hf n dl auth uri w = (Done (buf, d, c), w1) \<and> GetSizeBytes X buf = Inl e \<and>
        passed_over X H hf n dl auth uris (snd (LogPrintf X (LogDownloadError uri e) w1)) w')"

text \<open>\<open>fetched_uri\<close>: from \<open>w\<close> to \<open>w'\<close>, the URIs before \<open>uri\<close> were passed over, \<open>uri\<close> was
  downloaded, the checksum was the expected one, and the file was put in storage under its
  digest.\<close>

definition fetched_uri ::
  "('i, 'f, 'd, 'b, 'w) ext \<Rightarrow> ('f, 'd, 'b, 'o, 't, 'w) http_ext \<Rightarrow> ('d, 'b, 'o, 'w) httpFetcher \<Rightarrow> nat \<Rightarrow>
     'f download \<Rightarrow> AuthHeaders \<Rightarrow> string list \<Rightarrow> string \<Rightarrow> 'd \<Rightarrow> 'w \<Rightarrow> 'w \<Rightarrow> bool" where
  "fetched_uri X H hf n dl auth uris uri d w w' \<longleftrightarrow>
     (\<exists>before after f c w1 w2. uris = before @ uri # after \<and> passed_over X H hf n dl auth before w w1 \<and>
        downloaded X H (httpClient hf) dl auth uri f d c w1 w2 \<and> (expectedDigest dl \<noteq> [] \<longrightarrow> c = expectedDigest dl) \<and>
        BlobPut (httpStorage hf) d (NewValidatedBufferFromReaderAt H f (DigestSizeBytes H d)) w2 = (None, w'))"

lemma fetched_uri_skip:
  assumes "downloadBlob X H hf n dl auth u w = (Done (buf, d', c), w1)" "GetSizeBytes X buf = Inl e"
    and "fetched_uri X H hf n dl auth uris uri d (snd (LogPrintf X (LogDownloadError u e) w1)) w'"
  shows "fetched_uri X H hf n dl auth (u # uris) uri d w w'"
proof -
  from assms(3) obtain before after f c v1 v2 where parts: "uris = before @ uri # after"
      "passed_over X H hf n dl auth before (snd (LogPrintf X (LogDownloadError u e) w1)) v1"
      "downloaded X H (httpClient hf) dl auth uri f d c v1 v2" "expectedDigest dl \<noteq> [] \<longrightarrow> c = expectedDigest dl"
      "BlobPut (httpStorage hf) d (NewValidatedBufferFromReaderAt H f (DigestSizeBytes H d)) v2 = (None, w')"
    unfolding fetched_uri_def by blast
  have "passed_over X H hf n dl auth (u # before) w v1" using assms(1,2) parts(2) by auto
  moreover have "u # uris = (u # before) @ uri # after" using parts(1) by simp
  ultimately show ?thesis using parts(3-5) unfolding fetched_uri_def by blast
qed

lemma httpFetchUris_success:
  assumes errors: "error_buffers X H"
    and run: "httpFetchUris X H hf n dl auth qs err uris w = (Done (Inr resp), w')"
  shows "\<exists>d. fetched_uri X H hf n dl auth uris (ResponseUri resp) d w w' \<and> ResponseDigest resp = Some (GetProto X d)"
  using run
proof (induction uris arbitrary: err w)
  case Nil
  then show ?case by (auto elim!: bindM_DoneE split: option.split_asm)
next
  case (Cons uri uris)
  from Cons.prems obtain buf d c w1 where download: "downloadBlob X H hf n dl auth uri w = (Done (buf, d, c), w1)"
    by (auto elim!: bindM_DoneE)
  show ?case
  proof (cases "GetSizeBytes X buf")
    case (Inl e)
    with Cons.prems download have
      "httpFetchUris X H hf n dl auth qs (Some e) uris (snd (LogPrintf X (LogDownloadError uri e) w1)) = (Done (Inr resp), w')"
      by (simp add: bindM_Done)
    from Cons.IH [OF this] show ?thesis using fetched_uri_skip [OF download Inl] by blast
  next
    case (Inr size)
    from download obtain f where buf: "buf = NewValidatedBufferFromReaderAt H f (DigestSizeBytes H d)"
      and dl: "downloaded X H (httpClient hf) dl auth uri f d c w w1"
      using errors Inr by (cases rule: downloadBlob_cases) (auto dest: error_buffersD)
    obtain e w2 where put: "BlobPut (httpStorage hf) d buf w1 = (e, w2)" by fastforce
    with Cons.prems download Inr have fin: "e = None" "expectedDigest dl \<noteq> [] \<longrightarrow> c = expectedDigest dl"
      "w' = w2" "ResponseUri resp = uri" "ResponseDigest resp = Some (GetProto X d)"
      by (auto simp: bindM_Done split: if_split_asm option.split_asm)
    have "fetched_uri X H hf n dl auth (uri # uris) uri d w w'"
      unfolding fetched_uri_def using dl put buf fin
      by (intro exI [of _ "[]"] exI [of _ uris] exI [of _ f] exI [of _ c] exI [of _ w] exI [of _ w1]) simp
    with fin show ?thesis by auto
  qed
qed

text \<open>When no body has the expected checksum, nothing is stored.\<close>

lemma httpFetchUris_mismatch:
  assumes keeps: "http_keeps X H (httpClient hf) view" and errors: "error_buffers X H"
    and wrong: "expectedDigest dl \<noteq> []" "\<And>uri f d w1 w2. \<not> downloaded X H (httpClient hf) dl auth uri f d (expectedDigest dl) w1 w2"
    and run: "httpFetchUris X H hf n dl auth qs err uris w = (Done r, w')"
  shows "isl r \<and> view w' = view w"
  using run
proof (induction uris arbitrary: err w)
  case Nil
  then show ?case by (auto elim!: bindM_DoneE split: option.split_asm)
next
  case (Cons uri uris)
  note keep = http_keepsD [OF keeps] transfers_keepD [OF http_keepsD(1) [OF keeps]]
  from Cons.prems obtain buf d c w1 where download: "downloadBlob X H hf n dl auth uri w = (Done (buf, d, c), w1)"
    by (auto elim!: bindM_DoneE)
  have w1: "view w1 = view w"
    using preservesD [OF downloadBlob_keeps [OF keeps] download] by blast
  show ?case
  proof (cases "GetSizeBytes X buf")
    case (Inl e)
    with Cons.prems download have
      "httpFetchUris X H hf n dl auth qs (Some e) uris (snd (LogPrintf X (LogDownloadError uri e) w1)) = (Done r, w')"
      by (simp add: bindM_Done)
    from Cons.IH [OF this] w1 show ?thesis by (simp add: keep)
  next
    case (Inr size)
    from download obtain f where "downloaded X H (httpClient hf) dl auth uri f d c w w1"
      using errors Inr by (cases rule: downloadBlob_cases) (auto dest: error_buffersD)
    with wrong have "c \<noteq> expectedDigest dl" by auto
    with Cons.prems download Inr wrong(1) w1 show ?thesis by (auto simp: bindM_Done keep)
  qed
qed

text \<open>\<open>verified_download X H n client cas contents req resp w w'\<close>: the response to the request,
  got from \<open>w\<close> to \<open>w'\<close>, is for the first of its URIs that could be downloaded, with the checksum
  the request has, and its digest is in storage.\<close>

definition verified_download ::
  "('i, 'f, 'd, 'b, 'w) ext \<Rightarrow> ('f, 'd, 'b, 'o, 't, 'w) http_ext \<Rightarrow> nat \<Rightarrow> ('o, 'w) HttpClient \<Rightarrow>
     ('d, 'b, 'w) BlobAccess \<Rightarrow> ('w \<Rightarrow> 'd \<rightharpoonup> 'b) \<Rightarrow> FetchRequest \<Rightarrow> FetchResponse \<Rightarrow> 'w \<Rightarrow> 'w \<Rightarrow> bool" where
  "verified_download X H n client cas contents req resp w w' \<longleftrightarrow>
     (\<exists>df expected cf auth d. getDigestFunction X (DigestFunction req) (InstanceName req) = Inr df \<and>
        getChecksumSri X H (Qualifiers req) = Done (Inr (expected, cf)) \<and>
        getAuthHeaders X (JsonError H) (Uris req) (Qualifiers req) = Inr auth \<and>
        fetched_uri X H \<lparr>httpClient = client, httpStorage = cas\<rparr> n
          \<lparr>digestFunction = df, checksumFunction = cf, expectedDigest = expected\<rparr> auth (Uris req) (ResponseUri resp) d w w' \<and>
        ResponseDigest resp = Some (GetProto X d) \<and> d \<in> dom (contents w'))"

lemma FetchBlob_HTTP:
  "FetchBlob (NewHTTPFetcher X H n client cas) =
     httpFetcher_FetchBlob X H \<lparr>httpClient = client, httpStorage = cas\<rparr> n"
  by (simp add: NewHTTPFetcher_def Let_def)

lemma FetchBlob_HTTP_success:
  assumes "keeps_blobs X cas contents" "error_buffers X H"
    and "FetchBlob (NewHTTPFetcher X H n client cas) req w = (Done (Some resp, None), w')"
  shows "verified_download X H n client cas contents req resp w w'"
proof -
  let ?hf = "\<lparr>httpClient = client, httpStorage = cas\<rparr>"
  from assms(3) obtain df expected cf auth where
    parts: "getDigestFunction X (DigestFunction req) (InstanceName req) = Inr df"
      "getChecksumSri X H (Qualifiers req) = Done (Inr (expected, cf))"
      "getAuthHeaders X (JsonError H) (Uris req) (Qualifiers req) = Inr auth"
    and run: "httpFetchUris X H ?hf n \<lparr>digestFunction = df, checksumFunction = cf, expectedDigest = expected\<rparr> auth
      (Qualifiers req) None (Uris req) w = (Done (Inr resp), w')"
    by (auto simp: FetchBlob_HTTP httpFetcher_FetchBlob_def replyM_success tryM_Inr_iff)
  from httpFetchUris_success [OF assms(2) run] obtain d where
    d: "fetched_uri X H ?hf n \<lparr>digestFunction = df, checksumFunction = cf, expectedDigest = expected\<rparr> auth
      (Uris req) (ResponseUri resp) d w w'" "ResponseDigest resp = Some (GetProto X d)" by blast
  then have "d \<in> dom (contents w')"
    using keeps_blobs_Put [OF assms(1)] by (auto simp: fetched_uri_def)
  with parts d show ?thesis unfolding verified_download_def by blast
qed

end
