(* ===== verification/ExampleBackends.thy ===== *)
theory ExampleBackends
  imports ExampleWorld HTTPDownloads
begin

section \<open>Concrete backends\<close>

text \<open>
  What the two fetchers that reach out of the service talk to, in the example environment: an
  execution service that first reports an operation in progress and then one that is done, and
  a web whose pages are two chunks long, beside one page that is missing. Temporary files and
  bodies are numbers, the world lists those that exist.
\<close>

subsection \<open>An execution service\<close>

definition example_client :: "ActionResult \<Rightarrow> (unit, world) ExecutionClient" where
  "example_client r = \<lparr>Execute = \<lambda>i d w. (Inr (), w),
     Recv = \<lambda>s w. if ticks w = 0
       then (Inr \<lparr>OperationDone = False, OperationResponse = Inr None\<rparr>, w\<lparr>ticks := 1\<rparr>)
       else (Inr \<lparr>OperationDone = True, OperationResponse = Inr (Some r)\<rparr>, w)\<rparr>"

lemma example_client_run [simp]:
  "Execute (example_client r) i d w = (Inr (), w)"
  "Recv (example_client r) s w = (if ticks w = 0
     then (Inr \<lparr>OperationDone = False, OperationResponse = Inr None\<rparr>, w\<lparr>ticks := 1\<rparr>)
     else (Inr \<lparr>OperationDone = True, OperationResponse = Inr (Some r)\<rparr>, w))"
  by (simp_all add: example_client_def)

definition example_rank :: "unit \<Rightarrow> world \<Rightarrow> nat" where
  "example_rank s w = (if ticks w = 0 then 1 else 0)"

lemma example_ranked: "ranked_streams (example_client r) example_rank"
  by (auto simp: ranked_streams_def example_rank_def split: if_splits)

definition file_result :: ActionResult where
  "file_result = \<lparr>OutputFiles = [\<lparr>OutFilePath = ''out'', OutFileDigest = Some \<lparr>Hash = ''abc'', SizeBytes = 3\<rparr>\<rparr>],
     OutputDirectories = [], ExitCode = 0, ExecutionMetadata = None\<rparr>"

definition tree0 :: Tree where
  "tree0 = \<lparr>Root = parent0, Children = [leaf0]\<rparr>"

definition directory_result :: ActionResult where
  "directory_result = \<lparr>OutputFiles = [], OutputDirectories = [\<lparr>OutDirPath = ''out'',
     TreeDigest = Some \<lparr>Hash = ''t'', SizeBytes = 2\<rparr>, RootDirectoryDigest = None\<rparr>],
     ExitCode = 0, ExecutionMetadata = None\<rparr>"

lemma result_fields [simp]:
  "OutputFiles file_result = [\<lparr>OutFilePath = ''out'', OutFileDigest = Some \<lparr>Hash = ''abc'', SizeBytes = 3\<rparr>\<rparr>]"
  "OutputDirectories directory_result = [\<lparr>OutDirPath = ''out'',
     TreeDigest = Some \<lparr>Hash = ''t'', SizeBytes = 2\<rparr>, RootDirectoryDigest = None\<rparr>]"
  "ExitCode file_result = 0" "ExitCode directory_result = 0"
  by (simp_all add: file_result_def directory_result_def)

definition remote_request :: FetchRequest where
  "remote_request = request0\<lparr>Qualifiers := [Qualifier ''resource_type'' ''application/x-git'']\<rparr>"

definition world5 :: world where
  "world5 = world0\<lparr>objects := [\<lparr>Hash = ''t'', SizeBytes = 2\<rparr> \<mapsto> Blob (MTree tree0)]\<rparr>"

abbreviation example_remote :: "ActionResult \<Rightarrow> world Fetcher" where
  "example_remote r \<equiv> NewRemoteExecutionFetcher world_X 2 objects_ba (example_client r) 100"

lemma remote_request_fields [simp]:
  "InstanceName remote_request = ''inst''" "Uris remote_request = [''u'']"
  "DigestFunction remote_request = DF_SHA256"
  "Qualifiers remote_request = [Qualifier ''resource_type'' ''application/x-git'']"
  by (simp_all add: remote_request_def)

text \<open>Running the common part of a fetch there.\<close>

lemma example_common:
  assumes "\<not> readonly w" "ticks w = 0" "Uris req = [''u'']" "ExitCode r = 0"
    "Qualifiers req = [Qualifier ''resource_type'' ''application/x-git'']"
  shows "\<exists>d1 b1 d2 b2. fetchCommon world_X \<lparr>executionStorage = objects_ba, executionClient = example_client r,
      executionMessageSize = 100\<rparr> 2 req df w =
    (Done (Inr (Some r, ''u'', ''out'')),
     w\<lparr>objects := (objects w)(digest_of d1 \<mapsto> b1, digest_of d2 \<mapsto> b2), ticks := 1\<rparr>)"
  using assms
  apply (simp add: fetchCommon_def QualifiersToCommand_def gitCommand_def shellCommand_def makeMap_def Let_def
      tryM_Inr tryM_def bindM_def call_run GetExitCode_def numeral_2_eq_2 del: message_bytes.simps)
  by blast

lemma example_remote_blob:
  "\<exists>resp w'. FetchBlob (example_remote file_result) remote_request world0 = (Done (Some resp, None), w')"
proof -
  have "getDigestFunction world_X DF_SHA256 ''inst'' = Inr (''inst'', DF_SHA256)"
    by (simp add: getDigestFunction_def)
  then show ?thesis
    using example_common [of world0 remote_request file_result "(''inst'', DF_SHA256)"]
    by (auto simp: NewRemoteExecutionFetcher_def remoteExecutionFetcher_FetchBlob_def Let_def bindM_Done
        GetOutputFiles_def GetSize_def)
qed

lemma example_remote_directory:
  "\<exists>resp w'. FetchDirectory (example_remote directory_result) remote_request world5 = (Done (Some resp, None), w')"
proof -
  let ?req = "\<lparr>InstanceName = ''inst'', OldestContentAccepted = None, Uris = [''u''],
    Qualifiers = [Qualifier ''resource_type'' ''application/x-git''], DigestFunction = DF_UNKNOWN\<rparr>"
  have df: "getDigestFunction world_X DF_SHA256 ''inst'' = Inr (''inst'', DF_SHA256)"
    by (simp add: getDigestFunction_def)
  have w5: "\<not> readonly world5" "ticks world5 = 0"
    "objects world5 = [\<lparr>Hash = ''t'', SizeBytes = 2\<rparr> \<mapsto> Blob (MTree tree0)]"
    by (simp_all add: world5_def)
  obtain d1 b1 d2 b2 where run: "fetchCommon world_X \<lparr>executionStorage = objects_ba,
      executionClient = example_client directory_result, executionMessageSize = 100\<rparr> 2 ?req
      (''inst'', DF_SHA256) world5 = (Done (Inr (Some directory_result, ''u'', ''out'')),
      world5\<lparr>objects := (objects world5)(digest_of d1 \<mapsto> b1, digest_of d2 \<mapsto> b2), ticks := 1\<rparr>)"
    using example_common [of world5 ?req directory_result "(''inst'', DF_SHA256)"] w5
    by auto
  have other: "digest_of d \<noteq> \<lparr>Hash = ''t'', SizeBytes = 2\<rparr>" for d by (simp add: digest_of_def)
  show ?thesis
    using w5 other [of d1, symmetric] other [of d2, symmetric]
    by (auto simp: NewRemoteExecutionFetcher_def remoteExecutionFetcher_FetchDirectory_def Let_def df run
        GetOutputDirectories_def GetSize_def replyM_run tryM_def bindM_def call_run tree0_def
        simp del: message_bytes.simps split: sum.splits)
qed

lemma example_df:
  "getDigestFunction world_X (DigestFunction remote_request) (InstanceName remote_request) = Inr (''inst'', DF_SHA256)"
  by (simp add: getDigestFunction_def)

lemma example_empty: "SizeBytes (GetProto world_X (EmptyDigest world_X df)) = 0"
  by (simp add: EmptyDigest_def digest_of_def)

subsection \<open>A web\<close>

definition web :: "(nat, world) HttpClient" where
  "web = \<lparr>HttpDo = \<lambda>req w.
     let body = Suc (Max (set (0 # open_bodies w)));
         status = (if RequestUri req = ''missing'' then 404 else 200)
     in (Inr \<lparr>HttpStatusCode = status, HttpStatus = ''status'', ContentLength = 3, Body = body\<rparr>,
         w\<lparr>open_bodies := body # open_bodies w, reads := 0\<rparr>)\<rparr>"

definition temp_name :: "nat \<Rightarrow> string" where
  "temp_name f = replicate f CHR ''x''"

definition chunk1 :: bytes where "chunk1 = [97, 98]"
definition chunk2 :: bytes where "chunk2 = [99]"

lemma chunks_nonempty: "chunk1 \<noteq> []" "chunk2 \<noteq> []"
  by (simp_all add: chunk1_def chunk2_def)

definition world_H :: "(string \<times> DigestFunction_Value, Digest, blob, nat, nat, world) http_ext" where
  "world_H = \<lparr>
     JsonError = \<lambda>s. PlainError ''invalid JSON'',
     NewGetRequest = \<lambda>uri. if uri = ''bad uri'' then Inl (PlainError ''parse'')
       else Inr \<lparr>RequestUri = uri, RequestHeader = Mapping.empty\<rparr>,
     BodyRead = \<lambda>body w. if reads w = 0 then ((chunk1, MoreToRead), w\<lparr>reads := 1\<rparr>) else ((chunk2, EndOfFile), w),
     BodyClose = \<lambda>body w. (None, w\<lparr>open_bodies := removeAll body (open_bodies w)\<rparr>),
     CreateTemp = \<lambda>w. let f = Suc (Max (set (0 # temp_files w))) in (Inr f, w\<lparr>temp_files := f # temp_files w\<rparr>),
     TempName = temp_name,
     FileWrite = \<lambda>f p w. (None, w),
     FileClose = \<lambda>f w. (None, w),
     OsRemove = \<lambda>p w. (None, w\<lparr>temp_files := filter (\<lambda>f. temp_name f \<noteq> p) (temp_files w)\<rparr>),
     IsNotExist = \<lambda>e. False,
     ZeroFunction = ([], DF_UNKNOWN),
     DigestSizeBytes = SizeBytes,
     NewValidatedBufferFromReaderAt = FileBlob,
     NewBufferFromError = ErrorBlob,
     BufferDiscard = \<lambda>b w. ((), w),
     WrapNoError = \<lambda>c m. Panic NilPointer\<rparr>"

lemma world_H_simps [simp]:
  "NewGetRequest world_H uri = (if uri = ''bad uri'' then Inl (PlainError ''parse'')
     else Inr \<lparr>RequestUri = uri, RequestHeader = Mapping.empty\<rparr>)"
  "BodyRead world_H body w = (if reads w = 0 then ((chunk1, MoreToRead), w\<lparr>reads := 1\<rparr>) else ((chunk2, EndOfFile), w))"
  "BodyClose world_H body w = (None, w\<lparr>open_bodies := removeAll body (open_bodies w)\<rparr>)"
  "CreateTemp world_H w = (Inr (Suc (Max (set (0 # temp_files w)))),
     w\<lparr>temp_files := Suc (Max (set (0 # temp_files w))) # temp_files w\<rparr>)"
  "TempName world_H = temp_name" "FileWrite world_H f p w = (None, w)" "FileClose world_H f w = (None, w)"
  "OsRemove world_H s w = (None, w\<lparr>temp_files := filter (\<lambda>f. temp_name f \<noteq> s) (temp_files w)\<rparr>)"
  "DigestSizeBytes world_H = SizeBytes" "NewValidatedBufferFromReaderAt world_H = FileBlob"
  "NewBufferFromError world_H = ErrorBlob" "BufferDiscard world_H b w = ((), w)"
  "WrapNoError world_H c s = Panic NilPointer"
  "ZeroFunction world_H = ([], DF_UNKNOWN)"
  by (simp_all add: world_H_def Let_def)

lemma web_run [simp]:
  "HttpDo web req w = (Inr \<lparr>HttpStatusCode = (if RequestUri req = ''missing'' then 404 else 200),
       HttpStatus = ''status'', ContentLength = 3, Body = Suc (Max (set (0 # open_bodies w)))\<rparr>,
     w\<lparr>open_bodies := Suc (Max (set (0 # open_bodies w))) # open_bodies w, reads := 0\<rparr>)"
  by (simp add: web_def Let_def)

lemma GetSizeBytes_buffers [simp]: "GetSizeBytes world_X (FileBlob f k) = Inr k" "GetSizeBytes world_X (ErrorBlob e) = Inl e"
  by (simp_all add: world_X_def)

subsection \<open>Its hypotheses hold\<close>

lemma Suc_Max_new: "finite A \<Longrightarrow> Suc (Max (insert 0 A)) \<notin> A"
  by (metis Max_ge finite_insert insertCI not_less_eq_eq order_refl)

lemma temp_name_inj [simp]: "temp_name f = temp_name g \<longleftrightarrow> f = g"
  by (metis length_replicate temp_name_def)

definition files_of :: "world \<Rightarrow> string set" where
  "files_of w = temp_name ` set (temp_files w)"

definition bodies_of :: "world \<Rightarrow> nat set" where
  "bodies_of w = set (open_bodies w)"

lemma world_transfers:
  "transfers_keep world_X world_H stored" "transfers_keep world_X world_H objects"
  "transfers_keep world_X world_H files_of" "transfers_keep world_X world_H bodies_of"
  by (simp_all add: transfers_keep_def log_keeps_def files_of_def bodies_of_def)

lemma world_http_keeps: "http_keeps world_X world_H web objects"
  by (simp add: http_keeps_def world_transfers)

lemma world_tracks: "tracks_files world_X world_H web files_of" "tracks_bodies world_X world_H web bodies_of"
  using Suc_Max_new [OF finite_set]
  by (auto simp: tracks_files_def tracks_bodies_def world_transfers files_of_def bodies_of_def)

lemma world_error_buffers: "error_buffers world_X world_H"
  by (simp add: error_buffers_def world_X_def)

definition read_rank :: "nat \<Rightarrow> world \<Rightarrow> nat" where
  "read_rank body w = (if reads w = 0 then 1 else 0)"

lemma world_ranked_bodies: "ranked_bodies world_H read_rank"
  by (auto simp: ranked_bodies_def read_rank_def split: if_split_asm)

end
