(* ===== verification/BackendProperties.thy ===== *)
theory BackendProperties
  imports ExampleBackends
begin

section \<open>Properties of the fetchers that reach out of the service\<close>

text \<open>
  What the remote execution fetcher answers with, when it ends and which qualifiers it takes.
  The witnesses run it against the execution service of \<open>ExampleBackends\<close>, which first reports an operation in
  progress and then one that is done.
\<close>

subsection \<open>The remote execution fetcher\<close>

text \<open>C22: a blob that the remote execution fetcher answers with is the output file ``out'' of an
  action that ran with exit code zero: the action runs the command that the qualifiers
  generate from the response's URI, action and command were in storage when it was executed,
  the URI is the first of the request's for which this succeeded, and the blob is not empty.\<close>

theorem remote_blob_sound:
  assumes "keeps_blobs X cas contents" and "statuses_ok X"
    and "getDigestFunction X (DigestFunction req) (InstanceName req) = Inr df"
    and "SizeBytes (GetProto X (EmptyDigest X df)) = 0"
    and "FetchBlob (NewRemoteExecutionFetcher X n cas client lim) req w = (Done (Some resp, None), w')"
  shows "\<exists>gen ar out. QualifiersToCommand (Qualifiers req) = Inr gen \<and>
    first_success (attempted X client contents df (InstanceName req) gen) (Uris req) (ResponseUri resp) ar \<and>
    out \<in> set (GetOutputFiles ar) \<and> OutFilePath out = ''out'' \<and>
    ResponseDigest resp = OutFileDigest out \<and> GetSize (OutFileDigest out) \<noteq> 0"
proof -
  let ?rf = "\<lparr>executionStorage = cas, executionClient = client, executionMessageSize = lim\<rparr>"
  have keeps: "keeps_blobs X (executionStorage ?rf) contents" using assms(1) by simp
  have "remoteExecutionFetcher_FetchBlob X ?rf n req w = (Done (Some resp, None), w')"
    using assms(5) by (simp add: NewRemoteExecutionFetcher_def Let_def)
  then obtain ar out where "answers X (executionClient ?rf) contents df req (ResponseUri resp) ar"
    "out \<in> set (GetOutputFiles ar)" "OutFilePath out = ''out''"
    "ResponseDigest resp = OutFileDigest out" "GetSize (OutFileDigest out) \<noteq> 0"
    by (rule FetchBlob_remote_success [OF keeps assms(2-4)])
  then show ?thesis by (auto simp: answers_def)
qed

theorem remote_blob_sound_witness:
  "\<exists>resp w'. FetchBlob (example_remote file_result) remote_request world0 = (Done (Some resp, None), w') \<and>
    (\<exists>gen ar out. QualifiersToCommand (Qualifiers remote_request) = Inr gen \<and>
    first_success (attempted world_X (example_client file_result) objects (''inst'', DF_SHA256)
      (InstanceName remote_request) gen) (Uris remote_request) (ResponseUri resp) ar \<and>
    out \<in> set (GetOutputFiles ar) \<and> OutFilePath out = ''out'' \<and>
    ResponseDigest resp = OutFileDigest out \<and> GetSize (OutFileDigest out) \<noteq> 0)"
proof -
  obtain resp w' where run: "FetchBlob (example_remote file_result) remote_request world0 = (Done (Some resp, None), w')"
    using example_remote_blob by blast
  show ?thesis
    by (rule exI [of _ resp], rule exI [of _ w'], rule conjI [OF run])
       (rule remote_blob_sound [OF world_keeps(2) world_times(2) example_df example_empty run])
qed

text \<open>C23: a directory that the remote execution fetcher answers with is the root of the tree that
  such an action's output directory ``out'' names, and the root and all its children are in
  storage afterwards, each under the digest of its message: the client can follow the
  directory down.\<close>

theorem remote_directory_sound:
  assumes "keeps_blobs X cas contents" and "statuses_ok X"
    and "getDigestFunction X (DigestFunction req) (InstanceName req) = Inr df"
    and "SizeBytes (GetProto X (EmptyDigest X df)) = 0"
    and "FetchDirectory (NewRemoteExecutionFetcher X n cas client lim) req w = (Done (Some resp, None), w')"
  shows "\<exists>gen ar out tree d. QualifiersToCommand (Qualifiers req) = Inr gen \<and>
    first_success (attempted X client contents df (InstanceName req) gen) (Uris req) (ResponseUri resp) ar \<and>
    out \<in> set (GetOutputDirectories ar) \<and> OutDirPath out = ''out'' \<and>
    tree_read X cas lim df (TreeDigest out) tree \<and>
    message_digest X df (MDirectory (Root tree)) = Some d \<and> ResponseDigest resp = Some (GetProto X d) \<and>
    list_all (directory_stored X contents df w') (Root tree # Children tree)"
proof -
  let ?rf = "\<lparr>executionStorage = cas, executionClient = client, executionMessageSize = lim\<rparr>"
  have keeps: "keeps_blobs X (executionStorage ?rf) contents" using assms(1) by simp
  have "remoteExecutionFetcher_FetchDirectory X ?rf n req w = (Done (Some resp, None), w')"
    using assms(5) by (simp add: NewRemoteExecutionFetcher_def Let_def)
  then obtain ar out tree d where "answers X (executionClient ?rf) contents df req (ResponseUri resp) ar"
    "out \<in> set (GetOutputDirectories ar)" "OutDirPath out = ''out''"
    "tree_read X (executionStorage ?rf) (executionMessageSize ?rf) df (TreeDigest out) tree"
    "message_digest X df (MDirectory (Root tree)) = Some d" "ResponseDigest resp = Some (GetProto X d)"
    "list_all (directory_stored X contents df w') (Root tree # Children tree)"
    by (rule FetchDirectory_remote_success [OF keeps assms(2-4)])
  then show ?thesis unfolding answers_def by (simp del: list.pred_inject) blast
qed

theorem remote_directory_sound_witness:
  "\<exists>resp w'. FetchDirectory (example_remote directory_result) remote_request world5 = (Done (Some resp, None), w') \<and>
    (\<exists>gen ar out tree d. QualifiersToCommand (Qualifiers remote_request) = Inr gen \<and>
    first_success (attempted world_X (example_client directory_result) objects (''inst'', DF_SHA256)
      (InstanceName remote_request) gen) (Uris remote_request) (ResponseUri resp) ar \<and>
    out \<in> set (GetOutputDirectories ar) \<and> OutDirPath out = ''out'' \<and>
    tree_read world_X objects_ba 100 (''inst'', DF_SHA256) (TreeDigest out) tree \<and>
    message_digest world_X (''inst'', DF_SHA256) (MDirectory (Root tree)) = Some d \<and>
    ResponseDigest resp = Some (GetProto world_X d) \<and>
    list_all (directory_stored world_X objects (''inst'', DF_SHA256) w') (Root tree # Children tree))"
proof -
  obtain resp w' where run:
    "FetchDirectory (example_remote directory_result) remote_request world5 = (Done (Some resp, None), w')"
    using example_remote_directory by blast
  show ?thesis
    by (rule exI [of _ resp], rule exI [of _ w'], rule conjI [OF run])
       (rule remote_directory_sound [OF world_keeps(2) world_times(2) example_df example_empty run])
qed

text \<open>C24: a fetch by remote execution comes to an end, with a result, an error or a panic, when
  the streams of the execution service do: fuel above a bound on the operations that are
  not done is enough.\<close>

theorem remote_fetch_terminates:
  assumes "ranked_streams client rank" and "\<And>s w. rank s w < n"
  shows "fst (FetchBlob (NewRemoteExecutionFetcher X n cas client lim) req w) \<noteq> Unfinished \<and>
    fst (FetchDirectory (NewRemoteExecutionFetcher X n cas client lim) req w) \<noteq> Unfinished"
proof -
  let ?rf = "\<lparr>executionStorage = cas, executionClient = client, executionMessageSize = lim\<rparr>"
  have "ranked_streams (executionClient ?rf) rank" using assms(1) by simp
  from FetchBlob_never_unfinished [OF this assms(2), of X req]
    FetchDirectory_never_unfinished [OF this assms(2), of X req]
  show ?thesis by (simp add: NewRemoteExecutionFetcher_def Let_def never_unfinished_def)
qed

theorem remote_fetch_terminates_witness:
  "fst (FetchBlob (example_remote file_result) remote_request world0) \<noteq> Unfinished \<and>
   fst (FetchDirectory (example_remote directory_result) remote_request world0) \<noteq> Unfinished"
proof -
  have "example_rank s w < 2" for s w by (simp add: example_rank_def)
  then show ?thesis using remote_fetch_terminates [OF example_ranked] by blast
qed

text \<open>The remote execution fetcher accepts a request exactly when each of its qualifiers is one
  that command generation reads or a basic authentication, branch or commit; the validating
  fetcher in front of it therefore lets no other through.\<close>

theorem remote_qualifiers:
  "IsEmpty (CheckQualifiers (NewRemoteExecutionFetcher X n cas client lim) (QualifiersToSet qs)) \<longleftrightarrow>
     Name ` set qs \<subseteq> {''resource_type'', ''vcs.branch'', ''vcs.commit'', ''auth.basic.username'',
       ''auth.basic.password'', ''checksum.sri''}"
  by (simp add: NewRemoteExecutionFetcher_def remoteExecutionFetcher_CheckQualifiers_def Let_def
      IsEmpty_Difference_NewSet)

end
