(* ===== verification/HTTPProperties.thy ===== *)
theory HTTPProperties
  imports ExampleBackends
begin

section \<open>Properties of the HTTP fetcher\<close>

text \<open>
  What the HTTP fetcher answers with and stores, what becomes of the files and bodies of its
  downloads, and how it reads the qualifiers: checksums and headers.
\<close>

subsection \<open>Fetches in the example web\<close>

text \<open>There, the hash of a digest is the content in hexadecimal digits, so that a checksum can
  be met.\<close>

definition hex_X :: world_ext where
  "hex_X = world_X\<lparr>SumGenerator := \<lambda>f n chunks.
     \<lparr>Hash = HexEncodeToString (concat chunks), SizeBytes = int (length (concat chunks))\<rparr>\<rparr>"

lemma hex_X_simps [simp]:
  "SumGenerator hex_X f n chunks = \<lparr>Hash = HexEncodeToString (concat chunks), SizeBytes = int (length (concat chunks))\<rparr>"
  "NewInstanceName hex_X = NewInstanceName world_X" "GetDigestFunction hex_X = GetDigestFunction world_X"
  "GetProto hex_X = GetProto world_X" "WriteGenerator hex_X = WriteGenerator world_X"
  "GetSizeBytes hex_X = GetSizeBytes world_X" "RangeKeys hex_X = RangeKeys world_X"
  "LogPrintf hex_X = LogPrintf world_X" "Observe hex_X = Observe world_X" "ToProto hex_X = ToProto world_X"
  by (simp_all add: hex_X_def)

lemma hex_X_hypotheses:
  "keeps_blobs hex_X objects_ba objects" "error_buffers hex_X world_H" "http_keeps hex_X world_H web objects"
  "range_ok hex_X"
proof -
  show "keeps_blobs hex_X objects_ba objects"
    using world_keeps(2) unfolding keeps_blobs_def hex_X_simps .
  show "error_buffers hex_X world_H"
    using world_error_buffers unfolding error_buffers_def hex_X_simps .
  show "http_keeps hex_X world_H web objects"
    using world_http_keeps unfolding http_keeps_def transfers_keep_def log_keeps_def hex_X_simps .
  show "range_ok hex_X"
    using world_times(3) unfolding range_ok_def hex_X_simps .
qed

text \<open>The content of every page is ``abc'', whose base64 form is ``YWJj''.\<close>

definition checked_request :: "string \<Rightarrow> FetchRequest" where
  "checked_request sri = request0\<lparr>Qualifiers := [Qualifier ''checksum.sri'' sri]\<rparr>"

lemma checked_request_fields [simp]:
  "InstanceName (checked_request sri) = ''inst''" "Uris (checked_request sri) = [''u'']"
  "DigestFunction (checked_request sri) = DF_SHA256"
  "Qualifiers (checked_request sri) = [Qualifier ''checksum.sri'' sri]"
  by (simp_all add: checked_request_def)

lemma EncodeBase64_examples: "EncodeBase64 [97, 98, 99] = ''YWJj''" "EncodeBase64 [0, 0, 0] = ''AAAA''"
  by (simp_all add: digits24_def encodeStd_def)

lemma hex_examples: "HexEncodeToString [97, 98, 99] = ''616263''" "HexEncodeToString [0, 0, 0] = ''000000''"
  by (simp_all add: hextable_def)

subsection \<open>Checksums\<close>

lemma getChecksumSri_prefix:
  "\<forall>q\<in>set qs. Name q \<noteq> ''checksum.sri'' \<Longrightarrow> checksumSri X zero e (qs @ qs') = checksumSri X zero e qs'"
  by (induction qs) auto

lemma hashTypes_no_dash: "hashTypes name = Some e \<Longrightarrow> CHR ''-'' \<notin> set name"
  by (auto simp: hashTypes_def split: if_split_asm)

text \<open>C25: the first \<open>checksum.sri\<close> qualifier, an algorithm's name and a checksum in base64,
  decides what a download is compared with: the digits of exactly the bytes that were encoded,
  under the digest function of the algorithm, whatever other such qualifiers follow.\<close>

theorem sri_checksum:
  assumes "hashTypes name = Some e" "\<forall>q\<in>set before. Name q \<noteq> ''checksum.sri''"
    and "NewInstanceName X [] = Inr i" "GetDigestFunction X i e (2 * int (length bs)) = Inr f"
  shows "getChecksumSri X H (before @ Qualifier ''checksum.sri'' (name @ ''-'' @ EncodeBase64 bs) # after) =
    Done (Inr (HexEncodeToString bs, f))"
proof -
  have "Split2 (name @ CHR ''-'' # EncodeBase64 bs) CHR ''-'' = [name, EncodeBase64 bs]"
    by (rule Split2_Inr) (rule hashTypes_no_dash [OF assms(1)])
  then show ?thesis
    using assms by (simp add: getChecksumSri_def getChecksumSri_prefix DecodeString_EncodeBase64 Let_def
        length_HexEncodeToString)
qed

lemma example_checksum:
  "getChecksumSri hex_X world_H [Qualifier ''checksum.sri'' (''sha256'' @ ''-'' @ EncodeBase64 bs)] =
     Done (Inr (HexEncodeToString bs, ([], DF_SHA256)))" (is "?l = ?r")
  by (simp add: getChecksumSri_def Let_def DecodeString_EncodeBase64 hashTypes_def)

theorem sri_checksum_witness:
  "getChecksumSri hex_X world_H [Qualifier ''checksum.sri'' (''sha256'' @ ''-'' @ ''YWJj'')] =
     Done (Inr (''616263'', ([], DF_SHA256)))"
  using sri_checksum [of "''sha256''" DF_SHA256 "[]" hex_X "[]" "[97, 98, 99]" "([], DF_SHA256)" world_H "[]"]
  by (simp only: EncodeBase64_examples hex_examples append_Nil) (simp add: hashTypes_def)

subsection \<open>What is fetched\<close>

text \<open>C8: a response of the HTTP fetcher is for the first of the request's URIs that could be
  downloaded: the ones before it were tried, in order, and failed; then a request for this one was
  answered with status 200 and its body read to the end, each read following on the one before, every
  byte of it written to one new temporary file. The digest of the response is that of exactly these
  bytes, in order; the file was put in storage under this digest, and is there. When the request
  has a checksum of at least one byte, it is the checksum of exactly these bytes (an SRI value with an
  empty checksum, such as \<open>sha256-\<close>, is not compared with anything).\<close>

theorem http_blob_verified:
  assumes "keeps_blobs X cas contents" and "error_buffers X H"
    and "FetchBlob (NewHTTPFetcher X H n client cas) req w = (Done (Some resp, None), w')"
  shows "\<exists>df expected cf auth d. getDigestFunction X (DigestFunction req) (InstanceName req) = Inr df \<and>
    getChecksumSri X H (Qualifiers req) = Done (Inr (expected, cf)) \<and>
    getAuthHeaders X (JsonError H) (Uris req) (Qualifiers req) = Inr auth \<and>
    fetched_uri X H \<lparr>httpClient = client, httpStorage = cas\<rparr> n
      \<lparr>digestFunction = df, checksumFunction = cf, expectedDigest = expected\<rparr> auth (Uris req) (ResponseUri resp) d w w' \<and>
    ResponseDigest resp = Some (GetProto X d) \<and> d \<in> dom (contents w')"
  using FetchBlob_HTTP_success [OF assms] by (simp only: verified_download_def)

lemma example_run:
  assumes "getChecksumSri hex_X world_H [Qualifier ''checksum.sri'' sri] = Done (Inr (expected, ([], DF_SHA256)))"
    "expected \<noteq> []"
  shows "\<exists>resp e w'. FetchBlob (NewHTTPFetcher hex_X world_H 2 web objects_ba) (checked_request sri) world0 =
     (Done (resp, e), w') \<and> (expected = HexEncodeToString (chunk1 @ chunk2) \<longrightarrow> resp \<noteq> None \<and> e = None)"
proof -
  have df: "getDigestFunction hex_X DF_SHA256 ''inst'' = Inr (''inst'', DF_SHA256)"
    by (simp add: getDigestFunction_def)
  have auth: "getAuthHeaders hex_X (JsonError world_H) [''u''] [Qualifier ''checksum.sri'' sri] =
      Inr Mapping.empty"
    by (simp add: getAuthHeaders_def QualifierLegacyBazelHTTPHeaders_def QualifierHTTPHeaderPrefix_def
        QualifierHTTPHeaderURLPrefix_def)
  show ?thesis
    using assms(2)
    by (auto simp: FetchBlob_HTTP httpFetcher_FetchBlob_def df assms(1) auth replyM_run downloadBlob_def downloadBody_def
        storeBody_def ApplyHeaders_def lookup_empty bindM_def tryM_def numeral_2_eq_2 writeAll_def checkM_def
        call_run Let_def chunks_nonempty)
qed

lemma example_sris:
  "getChecksumSri hex_X world_H [Qualifier ''checksum.sri'' ''sha256-YWJj''] = Done (Inr (''616263'', ([], DF_SHA256)))"
  "getChecksumSri hex_X world_H [Qualifier ''checksum.sri'' ''sha256-AAAA''] = Done (Inr (''000000'', ([], DF_SHA256)))"
  using example_checksum [of "[97, 98, 99]"] example_checksum [of "[0, 0, 0]"]
  unfolding EncodeBase64_examples hex_examples by simp_all

lemma example_content: "HexEncodeToString (chunk1 @ chunk2) = ''616263''"
  unfolding chunk1_def chunk2_def using hex_examples(1) by simp

lemma example_fetch_checked:
  "\<exists>resp w'. FetchBlob (NewHTTPFetcher hex_X world_H 2 web objects_ba) (checked_request ''sha256-YWJj'') world0 =
     (Done (Some resp, None), w')"
  using example_run [OF example_sris(1)] example_content by auto

theorem http_blob_verified_witness:
  "\<exists>resp w'. FetchBlob (NewHTTPFetcher hex_X world_H 2 web objects_ba) (checked_request ''sha256-YWJj'') world0 =
      (Done (Some resp, None), w') \<and>
    (\<exists>df expected cf auth d.
    getDigestFunction hex_X (DigestFunction (checked_request ''sha256-YWJj'')) (InstanceName (checked_request ''sha256-YWJj'')) = Inr df \<and>
    getChecksumSri hex_X world_H (Qualifiers (checked_request ''sha256-YWJj'')) = Done (Inr (expected, cf)) \<and>
    getAuthHeaders hex_X (JsonError world_H) (Uris (checked_request ''sha256-YWJj''))
      (Qualifiers (checked_request ''sha256-YWJj'')) = Inr auth \<and>
    fetched_uri hex_X world_H \<lparr>httpClient = web, httpStorage = objects_ba\<rparr> 2
      \<lparr>digestFunction = df, checksumFunction = cf, expectedDigest = expected\<rparr> auth
      (Uris (checked_request ''sha256-YWJj'')) (ResponseUri resp) d world0 w' \<and>
    ResponseDigest resp = Some (GetProto hex_X d) \<and> d \<in> dom (objects w'))"
proof -
  obtain resp w' where run: "FetchBlob (NewHTTPFetcher hex_X world_H 2 web objects_ba) (checked_request ''sha256-YWJj'') world0 =
      (Done (Some resp, None), w')"
    using example_fetch_checked by blast
  show ?thesis
    by (rule exI [of _ resp], rule exI [of _ w'], rule conjI [OF run])
       (rule http_blob_verified [OF hex_X_hypotheses(1,2) run])
qed

text \<open>C10: when a request asks for a checksum that no download has, the fetch ends in an error and
  leaves the storage as it was: content that does not match never gets there.\<close>

theorem http_mismatch_stores_nothing:
  assumes "http_keeps X H client view" and "error_buffers X H"
    and "getChecksumSri X H (Qualifiers req) = Done (Inr (expected, cf))" "expected \<noteq> []"
    and "\<And>df auth uri f d w1 w2. \<not> downloaded X H client
      \<lparr>digestFunction = df, checksumFunction = cf, expectedDigest = expected\<rparr> auth uri f d expected w1 w2"
    and "FetchBlob (NewHTTPFetcher X H n client cas) req w = (Done (r, e), w')"
  shows "r = None \<and> e \<noteq> None \<and> view w' = view w"
proof -
  let ?hf = "\<lparr>httpClient = client, httpStorage = cas\<rparr>"
  let ?run = "\<lambda>df auth. httpFetchUris X H ?hf n
    \<lparr>digestFunction = df, checksumFunction = cf, expectedDigest = expected\<rparr> auth (Qualifiers req) None (Uris req)"
  have keeps: "http_keeps X H (httpClient ?hf) view" using assms(1) by simp
  have "(\<exists>err. r = Inl err) \<and> view w' = view w" if "?run df auth w = (Done r, w')" for df auth r
    using httpFetchUris_mismatch [OF keeps assms(2) _ _ that] assms(4,5) by (simp add: isl_def)
  then show ?thesis
    using assms(3,6)
    by (cases "getDigestFunction X (DigestFunction req) (InstanceName req)";
        cases "getAuthHeaders X (JsonError H) (Uris req) (Qualifiers req)")
       (auto simp: FetchBlob_HTTP httpFetcher_FetchBlob_def replyM_run split: prod.split_asm run.split_asm sum.split_asm)
qed

lemma streamed_ends: "streamed world_H f body w ps w' \<Longrightarrow> \<exists>xs. concat ps = xs @ [99]"
  by (induction rule: streamed.induct) (auto simp: chunk2_def split: if_split_asm)

theorem http_mismatch_stores_nothing_witness:
  "\<exists>r e w'. FetchBlob (NewHTTPFetcher hex_X world_H 2 web objects_ba) (checked_request ''sha256-AAAA'') world0 =
     (Done (r, e), w') \<and> r = None \<and> e \<noteq> None \<and> objects w' = objects world0"
proof -
  obtain r e w' where run: "FetchBlob (NewHTTPFetcher hex_X world_H 2 web objects_ba) (checked_request ''sha256-AAAA'')
      world0 = (Done (r, e), w')"
    using example_run [OF example_sris(2)] by blast
  have sri: "getChecksumSri hex_X world_H (Qualifiers (checked_request ''sha256-AAAA'')) =
      Done (Inr (''000000'', ([], DF_SHA256)))"
    using example_sris(2) by simp
  have no: "\<not> streamed world_H f body w ps w'" if "''000000'' = HexEncodeToString (concat ps)" for f body w ps w'
    using streamed_ends that unfolding hex_examples(2) [symmetric] HexEncodeToString_inj by force
  have "\<not> downloaded hex_X world_H web
      \<lparr>digestFunction = df, checksumFunction = ([], DF_SHA256), expectedDigest = ''000000''\<rparr> auth uri f d ''000000'' w1 w2"
    for df auth uri f d w1 w2
    by (auto simp: downloaded_def dest: no)
  from http_mismatch_stores_nothing [OF hex_X_hypotheses(3,2) sri _ this run] run show ?thesis by auto
qed

subsection \<open>Files, bodies, and the end of a fetch\<close>

text \<open>C26: the form of older clients, the JSON text of a map from URIs to headers, is read as that
  map, whatever the characters of its strings are: the headers of a URI are those that the text
  names for it, the last where it names one twice, and all other qualifiers count for nothing.\<close>

theorem json_headers_read:
  assumes "\<forall>q\<in>set before. Name q \<noteq> ''bazel.auth_headers''"
    and "\<forall>(u, kvs)\<in>set hs. utf8 u \<and> (\<forall>(k, v)\<in>set kvs. utf8 k \<and> utf8 v)"
  shows "\<exists>ah. getAuthHeaders X jsonError uris (before @ Qualifier ''bazel.auth_headers'' (print_headers hs) # after) = Inr ah \<and>
    (\<forall>uri h. header_for ah uri h =
      (case map_of (rev hs) uri of None \<Rightarrow> None | Some kvs \<Rightarrow> map_of (rev kvs) h))"
  using getAuthHeaders_legacy [OF assms(1), of X jsonError uris "print_headers hs" after]
  by (auto simp: NewAuthHeadersFromQualifier_def UnmarshalStringMaps_printed [OF assms(2)] header_for_headers_of)

lemma print_headers_example:
  "print_headers [(''u'', [(''Token'', ''a'' @ [CHR 0x22])])] =
     [CHR 0x7B, CHR 0x22, CHR ''u'', CHR 0x22, CHR '':'', CHR 0x7B, CHR 0x22] @ ''Token'' @
     [CHR 0x22, CHR '':'', CHR 0x22, CHR ''a'', CHR 0x5C, CHR 0x22, CHR 0x22, CHR 0x7D, CHR 0x7D]"
  by (simp add: print_headers_def print_object_def print_string_def print_char_def byte_def)

theorem json_headers_read_witness:
  "\<exists>ah. getAuthHeaders world_X (JsonError world_H) [''u'', ''v''] [Qualifier ''bazel.auth_headers''
      ([CHR 0x7B, CHR 0x22, CHR ''u'', CHR 0x22, CHR '':'', CHR 0x7B, CHR 0x22] @ ''Token'' @
       [CHR 0x22, CHR '':'', CHR 0x22, CHR ''a'', CHR 0x5C, CHR 0x22, CHR 0x22, CHR 0x7D, CHR 0x7D])] = Inr ah \<and>
    header_for ah ''u'' ''Token'' = Some (''a'' @ [CHR 0x22]) \<and> header_for ah ''v'' ''Token'' = None"
  using json_headers_read [of "[]" "[(''u'', [(''Token'', ''a'' @ [CHR 0x22])])]" world_X "JsonError world_H" "[''u'', ''v'']" "[]"]
  unfolding print_headers_example by (auto simp: utf8_ascii utf8_Nil byte_def)

text \<open>C28: a download leaves no temporary file behind: either it failed and the files are those
  there were before, or there is one more, a new one, and the buffer it returns has taken it
  over. Only when a download failed and the operating system then refused to remove the file, that
  one new file stays.\<close>

theorem http_temporary_files:
  assumes "tracks_files X H client files"
    and "downloadBlob X H \<lparr>httpClient = client, httpStorage = cas\<rparr> n dl auth uri w = (Done (buf, d, c), w')"
  shows "(\<exists>e. buf = NewBufferFromError H e \<and> (files w' = files w \<or> (\<exists>f. left_behind H files f w w'))) \<or>
    (\<exists>f. buf = NewValidatedBufferFromReaderAt H f (DigestSizeBytes H d) \<and>
       TempName H f \<notin> files w \<and> files w' = insert (TempName H f) (files w))"
  using downloadBlob_files [OF _ assms(2)] assms(1) by simp

definition example_download :: "(string \<times> DigestFunction_Value) download" where
  "example_download = \<lparr>digestFunction = (''inst'', DF_SHA256), checksumFunction = ([], DF_UNKNOWN), expectedDigest = []\<rparr>"

abbreviation example_http where
  "example_http \<equiv> \<lparr>httpClient = web, httpStorage = objects_ba\<rparr>"

lemma example_download_runs:
  "\<exists>buf d c w'. downloadBlob world_X world_H example_http 2 example_download Mapping.empty uri world0 =
     (Done (buf, d, c), w') \<and> (uri = ''missing'' \<longrightarrow> bodies_of w' = {1})"
  by (auto simp: downloadBlob_def downloadBody_def failed_download_def storeBody_def ApplyHeaders_def lookup_empty
      bindM_def tryM_def numeral_2_eq_2 writeAll_def checkM_def call_run Let_def chunks_nonempty example_download_def
      bodies_of_def world0_def)

theorem http_temporary_files_witness:
  "\<exists>buf d c w'. downloadBlob world_X world_H example_http 2 example_download Mapping.empty ''u'' world0 =
     (Done (buf, d, c), w') \<and>
   ((\<exists>e. buf = NewBufferFromError world_H e \<and>
       (files_of w' = files_of world0 \<or> (\<exists>f. left_behind world_H files_of f world0 w'))) \<or>
    (\<exists>f. buf = NewValidatedBufferFromReaderAt world_H f (DigestSizeBytes world_H d) \<and>
       TempName world_H f \<notin> files_of world0 \<and> files_of w' = insert (TempName world_H f) (files_of world0)))"
proof -
  obtain buf d c w' where run: "downloadBlob world_X world_H example_http 2 example_download Mapping.empty ''u'' world0 =
      (Done (buf, d, c), w')"
    using example_download_runs [of "''u''"] by blast
  show ?thesis
    by (rule exI [of _ buf], rule exI [of _ d], rule exI [of _ c], rule exI [of _ w'], rule conjI [OF run])
       (rule http_temporary_files [OF world_tracks(1) run])
qed

text \<open>C30: a download closes the body of its response, whatever goes wrong, with one exception:
  the body of a response whose status is not 200 stays open.\<close>

theorem http_bodies_closed:
  assumes "tracks_bodies X H client bodies"
    and "downloadBlob X H \<lparr>httpClient = client, httpStorage = cas\<rparr> n dl auth uri w = (Done (buf, d, c), w')"
  shows "bodies w' = bodies w \<or>
    (\<exists>req resp w1. HttpDo client req w = (Inr resp, w1) \<and> HttpStatusCode resp \<noteq> 200 \<and>
       bodies w' = insert (Body resp) (bodies w))"
  using downloadBlob_bodies [OF _ assms(2)] assms(1) by simp

theorem http_bodies_closed_witness:
  "\<exists>buf d c w'. downloadBlob world_X world_H example_http 2 example_download Mapping.empty ''missing'' world0 =
     (Done (buf, d, c), w') \<and>
   (\<exists>req resp w1. HttpDo web req world0 = (Inr resp, w1) \<and> HttpStatusCode resp \<noteq> 200 \<and>
       bodies_of w' = insert (Body resp) (bodies_of world0))"
proof -
  obtain buf d c w' where run: "downloadBlob world_X world_H example_http 2 example_download Mapping.empty ''missing''
      world0 = (Done (buf, d, c), w')" and "bodies_of w' = {1}"
    using example_download_runs [of "''missing''"] by blast
  moreover have "bodies_of world0 = {}" by (simp add: bodies_of_def world0_def)
  ultimately have new: "bodies_of w' \<noteq> bodies_of world0" by simp
  have left: "\<exists>req resp w1. HttpDo web req world0 = (Inr resp, w1) \<and> HttpStatusCode resp \<noteq> 200 \<and>
       bodies_of w' = insert (Body resp) (bodies_of world0)"
    by (rule disjE [OF http_bodies_closed [OF world_tracks(2) run]]) (rule notE [OF new], assumption+)
  show ?thesis
    by (rule exI [of _ buf], rule exI [of _ d], rule exI [of _ c], rule exI [of _ w'], rule conjI [OF run left])
qed

text \<open>C31: a fetch over HTTP comes to an end when the bodies it reads do: fuel above a bound on
  the reads before the end of a body is enough.\<close>

theorem http_fetch_terminates:
  assumes "ranked_bodies H rank" "\<And>body w. rank body w < n" "\<And>c m. WrapNoError H c m \<noteq> Unfinished"
  shows "fst (FetchBlob (NewHTTPFetcher X H n client cas) req w) \<noteq> Unfinished"
proof -
  note loop = httpFetchUris_never_unfinished [OF assms]
  have "never_unfinished (httpFetcher_FetchBlob X H \<lparr>httpClient = client, httpStorage = cas\<rparr> n req)"
    unfolding httpFetcher_FetchBlob_def
    by (auto intro!: finish_rules loop simp: getChecksumSri_def simp del: ret_run lift_run)
  then show ?thesis by (simp add: FetchBlob_HTTP never_unfinished_def)
qed

theorem http_fetch_terminates_witness:
  "fst (FetchBlob (NewHTTPFetcher hex_X world_H 2 web objects_ba) (checked_request ''sha256-YWJj'') world0) \<noteq> Unfinished"
  by (rule http_fetch_terminates [OF world_ranked_bodies]) (simp_all add: read_rank_def)

subsection \<open>Headers\<close>

text \<open>C27: the headers on the request for a URI are those that the client's qualifiers ask for, for
  all URIs or for an index at which this URI stands: what is meant for one URI, a token for
  example, is never sent to another. (For requests without the legacy qualifier, whose JSON
  value names the URIs itself.)\<close>

theorem http_headers_confined:
  assumes "\<forall>q\<in>set qs. Name q \<noteq> ''bazel.auth_headers''"
    and "getAuthHeaders X jsonError uris qs = Inr ah"
    and "Mapping.lookup (RequestHeader req) k = None"
    and "Mapping.lookup (RequestHeader (ApplyHeaders X ah uri req)) k = Some v"
  shows "\<exists>h. CanonicalHeaderKey h = k \<and> (global_header qs h v \<or> url_header qs uris uri h v)"
  using ApplyHeaders_sound [OF assms(4)] assms(3) getAuthHeaders_sound [OF assms(1,2)] by auto

definition header_qualifiers :: "Qualifier list" where
  "header_qualifiers = [Qualifier ''http_header:Accept'' ''text'', Qualifier ''http_header_url:1:Token'' ''secret'']"

lemma example_headers:
  "getAuthHeaders world_X (JsonError world_H) [''u'', ''v''] header_qualifiers =
     Inr (AddHeader (AddHeader (AddHeader Mapping.empty ''u'' ''Accept'' ''text'') ''v'' ''Accept'' ''text'') ''v'' ''Token'' ''secret'')"
proof -
  have keys: "Mapping.keys (Mapping.update ''http_header_url:1:Token'' ''secret'' Mapping.empty) = {''http_header_url:1:Token''}"
    by simp
  show ?thesis
    unfolding getAuthHeaders_def header_qualifiers_def
    by (simp add: keys QualifierLegacyBazelHTTPHeaders_def QualifierHTTPHeaderPrefix_def lookup_update
        QualifierHTTPHeaderURLPrefix_def TrimPrefix_def ParseInt_def ParseUint_def digit_value_def Let_def)
qed

theorem http_headers_confined_witness:
  "\<exists>ah. getAuthHeaders world_X (JsonError world_H) [''u'', ''v''] header_qualifiers = Inr ah \<and>
     (\<exists>h. CanonicalHeaderKey h = ''Accept'' \<and> (global_header header_qualifiers h ''text'' \<or>
        url_header header_qualifiers [''u'', ''v''] ''u'' h ''text''))"
proof -
  let ?ah = "AddHeader (AddHeader (AddHeader Mapping.empty ''u'' ''Accept'' ''text'') ''v'' ''Accept'' ''text'') ''v'' ''Token'' ''secret''"
  let ?req = "\<lparr>RequestUri = ''u'', RequestHeader = Mapping.empty\<rparr>"
  have legacy: "\<forall>q\<in>set header_qualifiers. Name q \<noteq> ''bazel.auth_headers''" by (simp add: header_qualifiers_def)
  have "Mapping.lookup (RequestHeader (ApplyHeaders world_X ?ah ''u'' ?req)) ''Accept'' = Some ''text''"
    by (simp add: CanonicalHeaderKey_def validHeaderFieldByte_def lower_case_def upper_case_def byte_def ApplyHeaders_def AddHeader_def HeaderSet_def Let_def lookup_update' lookup_empty)
  from http_headers_confined [OF legacy example_headers _ this] example_headers show ?thesis
    by (auto simp: lookup_empty)
qed

text \<open>C29: a request without the legacy qualifier \<open>bazel.auth_headers\<close> is refused unless every
  \<open>http_header_url\<close> qualifier has an index within the request's URIs and a header's name; and then
  each of these headers is set for the URI at its index, to a value that such a qualifier gives for
  this header at this URI (its own, if no other one names the same URI and header): neither another
  qualifier's value nor one meant for all URIs is set instead.\<close>

theorem http_url_headers_arrive:
  assumes "range_ok X" "\<forall>q\<in>set qs. Name q \<noteq> ''bazel.auth_headers''"
    and "getAuthHeaders X jsonError uris qs = Inr ah"
    and "Qualifier k v \<in> set qs" "HasPrefix k ''http_header_url:''"
  shows "\<exists>index header i v'. k = ''http_header_url:'' @ index @ '':'' @ header \<and>
    ParseInt index = Inr (int i) \<and> i < length uris \<and> header_for ah (uris ! i) header = Some v' \<and>
    url_header qs uris (uris ! i) header v'"
  using getAuthHeaders_complete [OF assms] by (simp only: addressed_def)

theorem http_url_headers_arrive_witness:
  "\<exists>ah. getAuthHeaders world_X (JsonError world_H) [''u'', ''v''] header_qualifiers = Inr ah \<and>
    (\<exists>index header i v'. ''http_header_url:1:Token'' = ''http_header_url:'' @ index @ '':'' @ header \<and>
    ParseInt index = Inr (int i) \<and> i < length [''u'', ''v''] \<and> header_for ah ([''u'', ''v''] ! i) header = Some v' \<and>
    url_header header_qualifiers [''u'', ''v''] ([''u'', ''v''] ! i) header v')"
proof -
  have "\<forall>q\<in>set header_qualifiers. Name q \<noteq> ''bazel.auth_headers''"
    "Qualifier ''http_header_url:1:Token'' ''secret'' \<in> set header_qualifiers"
    "HasPrefix ''http_header_url:1:Token'' ''http_header_url:''"
    by (simp_all add: header_qualifiers_def)
  from http_url_headers_arrive [OF world_times(3) this(1) example_headers this(2,3)]
  show ?thesis by - (rule exI, rule conjI [OF example_headers])
qed

text \<open>The HTTP fetcher accepts exactly the requests whose qualifiers are a checksum, a
  canonical id, the legacy headers, or headers by their prefixes.\<close>

theorem http_qualifiers:
  assumes "range_ok X"
  shows "IsEmpty (CheckQualifiers (NewHTTPFetcher X H n client cas) (QualifiersToSet qs)) \<longleftrightarrow>
    list_all (\<lambda>q. Name q = ''checksum.sri'' \<or> Name q = ''bazel.auth_headers'' \<or> Name q = ''bazel.canonical_id'' \<or>
      HasPrefix (Name q) ''http_header:'' \<or> HasPrefix (Name q) ''http_header_url:'') qs"
proof -
  have keys: "Mapping.keys (foldl (\<lambda>s name. if P name then Add s name else s) s names) =
      Mapping.keys s \<union> {name \<in> set names. P name}" for P s names
    by (induction names arbitrary: s) auto
  have "set (RangeKeys X (Name ` set qs)) = Name ` set qs"
    using assms by (simp add: range_ok_def)
  then show ?thesis
    by (auto simp: NewHTTPFetcher_def httpFetcher_CheckQualifiers_def Let_def IsEmpty_iff keys list_all_iff
        QualifierLegacyBazelHTTPHeaders_def QualifierHTTPHeaderPrefix_def QualifierHTTPHeaderURLPrefix_def)
qed

theorem http_qualifiers_witness:
  "\<not> IsEmpty (CheckQualifiers (NewHTTPFetcher world_X world_H 2 web objects_ba)
     (QualifiersToSet [Qualifier ''vcs.commit'' ''c'']))"
  by (simp only: http_qualifiers [OF world_times(3)]) simp

end
