(* ===== verification/ServiceHistory.thy ===== *)
theory ServiceHistory
  imports Configuration
begin

section \<open>Histories of the service\<close>

text \<open>
  What the service has been asked over time, as a step relation: calls of its two servers, in
  any order and with any outcome (answers, errors, panics), between which the rest of the
  world may do anything that leaves the stored assets alone. The lemmas tell where an asset
  can have come from: it was held at the beginning, or pushed, or given by the backend for an
  earlier request.
\<close>

subsection \<open>One call\<close>

text \<open>An asset a response is stored as, but for its time stamp.\<close>

definition fetched_asset ::
  "('i, 'f, 'd, 'b, 'w) ext \<Rightarrow> bool \<Rightarrow> FetchResponse \<Rightarrow> Asset \<Rightarrow> bool" where
  "fetched_asset X d rsp a \<longleftrightarrow> AssetDigest a = ResponseDigest rsp \<and>
     ExpireAt a = Some (getDefaultTimestamp X) \<and> AssetTypeOf a = (if d then DIRECTORY else BLOB)"

lemma preserves_bindM_result:
  assumes "preserves P m" and "\<And>a w w1. P w \<Longrightarrow> m w = (Done a, w1) \<Longrightarrow> preserves P (f a)"
  shows "preserves P (bindM m f)"
proof (rule preservesI)
  fix w r w'
  assume "P w" and run: "bindM m f w = (r, w')"
  obtain r1 w1 where m: "m w = (r1, w1)" by fastforce
  with assms(1) \<open>P w\<close> have "P w1" by (auto dest: preservesD)
  with run m assms(2) [OF \<open>P w\<close>] show "P w'" by (cases r1) (auto simp: bindM_def dest: preservesD)
qed

text \<open>The effects beside a store: the clock, the log and the metrics.\<close>

definition effects_preserve :: "('i, 'f, 'd, 'b, 'w) ext \<Rightarrow> ('w \<Rightarrow> bool) \<Rightarrow> bool" where
  "effects_preserve X P \<longleftrightarrow> preserves P (call (TimeNow X)) \<and> (\<forall>l. preserves P (call (LogPrintf X l))) \<and>
     (\<forall>v c t n. preserves P (call (Observe X v c t n)))"

definition auth_preserves :: "('i, 'w) Authorizer \<Rightarrow> ('w \<Rightarrow> bool) \<Rightarrow> bool" where
  "auth_preserves A P \<longleftrightarrow> (\<forall>i. preserves P (call (AuthorizeSingleInstanceName A i)))"

lemma effects_preserveD:
  assumes "effects_preserve X P"
  shows "preserves P (call (TimeNow X))" "preserves P (call (LogPrintf X l))" "preserves P (call (Observe X v c t n))"
  using assms by (simp_all add: effects_preserve_def)

lemma auth_preservesD: "auth_preserves A P \<Longrightarrow> preserves P (call (AuthorizeSingleInstanceName A i))"
  by (simp add: auth_preserves_def)

text \<open>Effects that leave a view alone leave what is true of the view alone, and so does any
  computation.\<close>

lemma effects_keep:
  assumes "clock_keeps X view" "log_keeps X view"
  shows "effects_preserve X (\<lambda>w. Q (view w))"
  using assms by (auto simp: effects_preserve_def clock_keeps_def log_keeps_def intro!: preserves_call)

lemma auth_keep: "auth_keeps A view \<Longrightarrow> auth_preserves A (\<lambda>w. Q (view w))"
  by (auto simp: auth_preserves_def auth_keeps_def intro!: preserves_call)

lemma preserves_view: "(\<And>v. preserves (\<lambda>w. view w = v) m) \<Longrightarrow> preserves (\<lambda>w. Q (view w)) m"
  unfolding preserves_def by metis

lemma preserves_NewAsset_effects: "effects_preserve X P \<Longrightarrow> preserves P (NewAsset X d t e)"
  unfolding NewAsset_def by (intro preserves_bindM preserves_ret effects_preserveD)

lemmas effect_frames = effects_preserveD auth_preservesD

text \<open>The layers around a fetcher add effects and nothing else.\<close>

lemma layers_preserve:
  assumes "effects_preserve X P" "auth_preserves A P"
  shows "preserves P (FetchBlob f req) \<Longrightarrow>
      preserves P (FetchBlob (fetch_layers X A f) req)"
    and "preserves P (FetchDirectory f req) \<Longrightarrow>
      preserves P (FetchDirectory (fetch_layers X A f) req)"
  by (auto simp: fetch_layers_def NewAuthorizingFetcher_def AuthorizingFetcher_FetchBlob_def
      AuthorizingFetcher_FetchDirectory_def metrics_defs logging_defs logCompleted_def vf.wrap_blob vf.wrap_directory
      gated_def validation_def Let_def case_prod_beta
      intro!: frame_rules effect_frames assms split: sum.split option.split prod.split
      simp del: ret_run lift_run panicM_run bindM_call)

lemma metrics_push_preserve:
  assumes "effects_preserve X P"
  shows "preserves P (PushBlob ps req) \<Longrightarrow>
      preserves P (PushBlob (NewMetricsAssetPushServer X ps) req)"
    and "preserves P (PushDirectory ps req) \<Longrightarrow>
      preserves P (PushDirectory (NewMetricsAssetPushServer X ps) req)"
  unfolding preserves_served(1,2) [where ps = ps]
  by (auto simp: NewMetricsAssetPushServer_run
      push_updateBlobSizeBytes_def push_updateDurationSeconds_def Let_def case_prod_beta
      intro!: frame_rules effect_frames assms split: option.split
      simp del: ret_run bindM_call)

text \<open>A push does nothing but read the clock and put its own assets under its own references.\<close>

lemma push_with_preserves:
  assumes effects: "effects_preserve X P"
    and put: "\<And>df ref a.
      push_getDigestFunction X (PushDigestFunction req) (PushInstanceName req) (PushDigest req) = Inr df \<Longrightarrow>
      may_update s (GetInstanceName X df) \<Longrightarrow> ref \<in> set (pushed_refs req) \<Longrightarrow> pushed_asset req t a \<Longrightarrow>
      preserves P (Put (assetStore s) ref a df)"
  shows "preserves P (push_with X s t m1 m2 req)"
proof -
  have "preserves P (push_one X (assetStore s) t req df ref)"
    if "push_getDigestFunction X (PushDigestFunction req) (PushInstanceName req) (PushDigest req) = Inr df"
      "may_update s (GetInstanceName X df)" "ref \<in> set (pushed_refs req)" for df ref
    unfolding push_one_def
  proof (rule preserves_bindM_result [OF preserves_NewAsset_effects [OF effects]])
    fix a w w1
    assume "NewAsset X (PushDigest req) t (PushExpireAt req) w = (Done a, w1)"
    then have "pushed_asset req t a" by (simp add: pushed_asset_def NewAsset_fields)
    with put that show "preserves P (Put (assetStore s) ref a df)" by blast
  qed
  then show ?thesis
    unfolding push_with_def by (auto intro!: preserves_ret preserves_forM split: sum.split simp del: ret_run)
qed

text \<open>A cached fetch reads the store, may ask the backend, and puts what the backend gave.\<close>

lemma checkCache_preserves:
  assumes "effects_preserve X P" "\<And>ref. preserves P (Get st ref df)"
  shows "preserves P (checkCache X st qs df oldest us errs)"
proof (induction us arbitrary: errs)
  case (Cons u us)
  have "preserves P (getAndCheckAsset X st u qs' df oldest)" for qs'
    unfolding getAndCheckAsset_def
    by (auto intro!: frame_rules effect_frames assms simp: Let_def simp del: ret_run bindM_call split: option.split)
  with Cons show ?case
    unfolding checkCache.simps by (intro preserves_bindM) (auto intro: preserves_ret split: sum.split)
qed (simp add: preserves_ret)

lemma caching_with_preserves:
  assumes effects: "effects_preserve X P" and gets: "\<And>df ref. preserves P (Get st ref df)"
    and backend: "preserves P backend"
    and put: "\<And>df rsp w1 w2 ref a.
      getDigestFunction X (DigestFunction req) (InstanceName req) = Inr df \<Longrightarrow> P w1 \<Longrightarrow>
      backend w1 = (Done (Some rsp, None), w2) \<Longrightarrow> ref \<in> set (cache_refs req rsp) \<Longrightarrow>
      fetched_asset X d rsp a \<Longrightarrow> preserves P (Put st ref a df)"
  shows "preserves P (caching_with X st d req backend)"
proof -
  have store: "preserves P (store_response X st d df req rsp)"
    if df: "getDigestFunction X (DigestFunction req) (InstanceName req) = Inr df"
      and rsp: "P w1" "backend w1 = (Done (Some rsp, None), w2)" for df rsp w1 w2
    unfolding store_response_def
  proof (rule preserves_bindM_result [OF preserves_NewAsset_effects [OF effects]], rule preserves_forM)
    fix a w w1 ref
    assume "NewAsset X (ResponseDigest rsp) (if d then DIRECTORY else BLOB) (Some (getDefaultTimestamp X)) w = (Done a, w1)"
    then have "fetched_asset X d rsp a" by (simp add: fetched_asset_def NewAsset_fields)
    moreover assume "ref \<in> set (cache_refs req rsp)"
    ultimately show "preserves P (Put st ref a df)" using put [OF df rsp] by blast
  qed
  have after: "preserves P (after_fetch X st d df req errs p)"
    if df: "getDigestFunction X (DigestFunction req) (InstanceName req) = Inr df"
      and p: "P w1" "backend w1 = (Done p, w2)" for df errs p w1 w2
  proof (cases p)
    case (Pair response err)
    show ?thesis
    proof (cases "response = None \<or> err \<noteq> None")
      case True
      with Pair show ?thesis
        by (auto simp: after_fetch_def deref_def intro!: frame_rules split: option.split simp del: ret_run panicM_run)
    next
      case False
      then obtain rsp where "p = (Some rsp, None)" using Pair by auto
      with p store [OF df] show ?thesis
        by (auto simp: after_fetch_def intro!: frame_rules split: option.split sum.split simp del: ret_run panicM_run)
    qed
  qed
  show ?thesis
    unfolding caching_with_def
    by (auto intro!: preserves_ret preserves_bindM_result [OF checkCache_preserves [OF effects gets]]
        preserves_bindM_result [OF backend] after split: sum.split simp del: ret_run)
qed

subsection \<open>Many calls\<close>

text \<open>\<open>True\<close> stands for a directory.\<close>

datatype service_call = PushCall bool PushRequest | FetchCall bool FetchRequest

definition fetch_call :: "'w Fetcher \<Rightarrow> bool \<Rightarrow> FetchRequest \<Rightarrow> ('w, FetchResponse reply) comp" where
  "fetch_call f d = (if d then FetchDirectory f else FetchBlob f)"

definition push_call :: "'w PushServer \<Rightarrow> bool \<Rightarrow> PushRequest \<Rightarrow> ('w, unit reply) comp" where
  "push_call ps d = (if d then PushDirectory ps else PushBlob ps)"

lemma may_update_iff: "may_update \<lparr>assetStore = s, allowUpdatesForInstances = allow\<rparr> i \<longleftrightarrow> allow i = Some True"
  by (auto simp: may_update_def split: option.split)

text \<open>What a call of the service leaves alone, if each of its effects does.\<close>

lemma fetch_call_preserves:
  assumes effects: "effects_preserve X P" "auth_preserves A P" and gets: "\<And>df ref. preserves P (Get st ref df)"
    and backend: "preserves P (fetch_call f d req)"
    and put: "\<And>df rsp w1 w2 ref a.
      getDigestFunction X (DigestFunction req) (InstanceName req) = Inr df \<Longrightarrow> P w1 \<Longrightarrow>
      fetch_call f d req w1 = (Done (Some rsp, None), w2) \<Longrightarrow> ref \<in> set (cache_refs req rsp) \<Longrightarrow>
      fetched_asset X d rsp a \<Longrightarrow> preserves P (Put st ref a df)"
  shows "preserves P (fetch_call (fetch_layers X A (NewCachingFetcher X f st)) d req)"
  using layers_preserve [OF effects] caching_with_preserves [OF effects(1) gets backend put]
  by (cases d) (simp_all add: fetch_call_def FetchBlob_caching FetchDirectory_caching)

lemma push_call_preserves:
  assumes effects: "effects_preserve X P"
    and put: "\<And>df ref a.
      push_getDigestFunction X (PushDigestFunction req) (PushInstanceName req) (PushDigest req) = Inr df \<Longrightarrow>
      allow (GetInstanceName X df) = Some True \<Longrightarrow> ref \<in> set (pushed_refs req) \<Longrightarrow>
      pushed_asset req (if d then DIRECTORY else BLOB) a \<Longrightarrow> preserves P (Put st ref a df)"
  shows "preserves P (push_call (NewMetricsAssetPushServer X (NewAssetPushServer X st allow)) d req)"
proof -
  have "preserves P (push_with X \<lparr>assetStore = st, allowUpdatesForInstances = allow\<rparr>
      (if d then DIRECTORY else BLOB) m1 m2 req)" for m1 m2
    by (rule push_with_preserves [OF effects]) (simp add: may_update_iff put)
  then show ?thesis
    using metrics_push_preserve [OF effects]
    by (cases d) (simp_all add: push_call_def NewAssetPushServer_run Let_def PushBlob_push_with PushDirectory_push_with
        preserves_replyM)
qed

inductive history :: "('w \<Rightarrow> 'v) \<Rightarrow> 'w Fetcher \<Rightarrow> 'w PushServer \<Rightarrow> 'w \<Rightarrow> service_call list \<Rightarrow> 'w \<Rightarrow> bool"
  for contents :: "'w \<Rightarrow> 'v" and fs :: "'w Fetcher" and ps :: "'w PushServer" and w0 :: 'w where
  begun: "history contents fs ps w0 [] w0"
| elapsed: "history contents fs ps w0 h w \<Longrightarrow> contents w' = contents w \<Longrightarrow> history contents fs ps w0 h w'"
| fetched: "history contents fs ps w0 h w \<Longrightarrow> fetch_call fs d req w = (r, w') \<Longrightarrow>
    history contents fs ps w0 (FetchCall d req # h) w'"
| pushed: "history contents fs ps w0 h w \<Longrightarrow> push_call ps d preq w = (pr, w') \<Longrightarrow>
    history contents fs ps w0 (PushCall d preq # h) w'"

inductive_cases history_snocE: "history contents fs ps w0 (FetchCall d req # h) w"

text \<open>An asset \<open>a\<close> under a reference was pushed: for an instance name that allows it, under
  a reference with the same key.\<close>

definition pushed_origin ::
  "('i, 'f, 'd, 'b, 'w) ext \<Rightarrow> ('f \<Rightarrow> AssetReference \<Rightarrow> 'f \<Rightarrow> AssetReference \<Rightarrow> bool) \<Rightarrow> ('i \<rightharpoonup> bool) \<Rightarrow>
     service_call list \<Rightarrow> 'f \<Rightarrow> AssetReference \<Rightarrow> Asset \<Rightarrow> bool" where
  "pushed_origin X same allow h df ref a \<longleftrightarrow>
     (\<exists>d req df' ref'. PushCall d req \<in> set h \<and>
        push_getDigestFunction X (PushDigestFunction req) (PushInstanceName req) (PushDigest req) = Inr df' \<and>
        allow (GetInstanceName X df') = Some True \<and> ref' \<in> set (pushed_refs req) \<and> same df' ref' df ref \<and>
        pushed_asset req (if d then DIRECTORY else BLOB) a)"

text \<open>Or the backend gave it for a request, and it was stored under a reference of the
  response with the same key.\<close>

definition fetched_origin ::
  "('i, 'f, 'd, 'b, 'w) ext \<Rightarrow> ('f \<Rightarrow> AssetReference \<Rightarrow> 'f \<Rightarrow> AssetReference \<Rightarrow> bool) \<Rightarrow> 'w Fetcher \<Rightarrow>
     service_call list \<Rightarrow> 'f \<Rightarrow> AssetReference \<Rightarrow> Asset \<Rightarrow> bool" where
  "fetched_origin X same f h df ref a \<longleftrightarrow>
     (\<exists>d req rsp df' ref' w1 w2. FetchCall d req \<in> set h \<and>
        getDigestFunction X (DigestFunction req) (InstanceName req) = Inr df' \<and>
        fetch_call f d req w1 = (Done (Some rsp, None), w2) \<and>
        ref' \<in> set (cache_refs req rsp) \<and> same df' ref' df ref \<and> fetched_asset X d rsp a)"

lemma origin_mono:
  "pushed_origin X same allow h df ref a \<Longrightarrow> pushed_origin X same allow (x # h) df ref a"
  "fetched_origin X same f h df ref a \<Longrightarrow> fetched_origin X same f (x # h) df ref a"
  unfolding pushed_origin_def fetched_origin_def by (meson list.set_intros(2))+

text \<open>The call just made as the origin.\<close>

lemma originI:
  "push_getDigestFunction X (PushDigestFunction preq) (PushInstanceName preq) (PushDigest preq) = Inr df' \<Longrightarrow>
     allow (GetInstanceName X df') = Some True \<Longrightarrow> ref' \<in> set (pushed_refs preq) \<Longrightarrow> same df' ref' df ref \<Longrightarrow>
     pushed_asset preq (if d then DIRECTORY else BLOB) a \<Longrightarrow>
     pushed_origin X same allow (PushCall d preq # h) df ref a"
  "getDigestFunction X (DigestFunction req) (InstanceName req) = Inr df' \<Longrightarrow>
     fetch_call f d req w1 = (Done (Some rsp, None), w2) \<Longrightarrow> ref' \<in> set (cache_refs req rsp) \<Longrightarrow>
     same df' ref' df ref \<Longrightarrow> fetched_asset X d rsp a \<Longrightarrow>
     fetched_origin X same f (FetchCall d req # h) df ref a"
  unfolding pushed_origin_def fetched_origin_def by (meson list.set_intros(1))+

context keyed_asset_store
begin

lemma holds_only_mono:
  "holds_only P v \<Longrightarrow> (\<And>df ref a. P df ref a \<Longrightarrow> Q df ref a) \<Longrightarrow> holds_only Q v"
  unfolding holds_only_def by blast

text \<open>Everything the store holds was held at the beginning, or was pushed, or fetched.\<close>

definition came_from where
  "came_from X c allow f w0 h df ref b \<longleftrightarrow> view c w0 df ref = Some b \<or>
     (\<exists>a. b = image c a \<and>
        (pushed_origin X (same_key c) allow h df ref a \<or> fetched_origin X (same_key c) f h df ref a))"

lemma came_fromI:
  "pushed_origin X (same_key c) allow h df ref a \<Longrightarrow> came_from X c allow f w0 h df ref (image c a)"
  "fetched_origin X (same_key c) f h df ref a \<Longrightarrow> came_from X c allow f w0 h df ref (image c a)"
  unfolding came_from_def by blast+

lemma came_from_mono: "came_from X c allow f w0 h df ref b \<Longrightarrow> came_from X c allow f w0 (x # h) df ref b"
  unfolding came_from_def by (auto intro: origin_mono)

lemma history_origin:
  assumes c: "ok c" "settled c" "clock_keeps X (view c)" "log_keeps X (view c)" "auth_keeps A (view c)"
    and backend: "\<And>d req v. preserves (\<lambda>w. view c w = v) (fetch_call f d req)"
    and contents: "\<And>w w'. contents w' = contents w \<Longrightarrow> view c w' = view c w"
    and run: "history contents (fetch_layers X A (NewCachingFetcher X f (store c)))
      (NewMetricsAssetPushServer X (NewAssetPushServer X (store c) allow)) w0 h w"
  shows "holds_only (came_from X c allow f w0 h) (view c w)"
proof -
  note effects = effects_keep [OF c(3,4)] auth_keep [OF c(5)]
  have gets: "preserves (\<lambda>w. view c w = v) (Get (store c) ref df)" for v ref df
    using Get_frame [OF c(1)] by (intro preservesI) metis
  have fetch: "preserves (\<lambda>w. holds_only (came_from X c allow f w0 (FetchCall d req # h)) (view c w))
      (fetch_call (fetch_layers X A (NewCachingFetcher X f (store c))) d req)" for d req h
    by (rule fetch_call_preserves [OF effects preserves_view [OF gets] preserves_view [OF backend]])
       (rule Put_only [OF c(1,2)], rule came_fromI(2), rule originI(2), assumption+)
  have push: "preserves (\<lambda>w. holds_only (came_from X c allow f w0 (PushCall d req # h)) (view c w))
      (push_call (NewMetricsAssetPushServer X (NewAssetPushServer X (store c) allow)) d req)" for d req h
    by (rule push_call_preserves [OF effects(1)], rule Put_only [OF c(1,2)], rule came_fromI(1), rule originI(1), assumption+)
  from run show ?thesis
  proof (induction rule: history.induct)
    case begun
    show ?case by (simp add: holds_only_def came_from_def)
  next
    case (elapsed h w w')
    with contents show ?case by metis
  next
    case (fetched h w d req r w')
    have "holds_only (came_from X c allow f w0 (FetchCall d req # h)) (view c w)"
      using fetched.IH by (rule holds_only_mono) (rule came_from_mono)
    with fetched.hyps(2) fetch show ?case by (auto dest: preservesD)
  next
    case (pushed h w d preq r w')
    have "holds_only (came_from X c allow f w0 (PushCall d preq # h)) (view c w)"
      using pushed.IH by (rule holds_only_mono) (rule came_from_mono)
    with pushed.hyps(2) push show ?case by (auto dest: preservesD)
  qed
qed

text \<open>So a response has one of three sources: the backend now, an earlier call, or what was held
  at the beginning.\<close>

lemma response_origin:
  assumes c: "ok c" "settled c" "clock_keeps X (view c)" "log_keeps X (view c)" "auth_keeps A (view c)"
    and backend: "\<And>d req v. preserves (\<lambda>w. view c w = v) (fetch_call f d req)"
    and contents: "\<And>w w'. contents w' = contents w \<Longrightarrow> view c w' = view c w"
    and run: "history contents (fetch_layers X A (NewCachingFetcher X f (store c)))
      (NewMetricsAssetPushServer X (NewAssetPushServer X (store c) allow)) w0 h w"
    and fetch: "FetchBlob (fetch_layers X A (NewCachingFetcher X f (store c))) req w = (Done (Some r, e), w')"
  obtains (now) w1 w2 where "FetchBlob f req w1 = (Done (Some r, None), w2)"
    | (earlier) u df a where "u \<in> set (Uris req)" "r = cached_response False req u a"
      "came_from X c allow f w0 h df (cache_ref (Qualifiers req) u) a"
  using layers_response_source [OF c(1,3-5) fetch] history_origin [OF c backend contents run]
  unfolding holds_only_def by blast

end

end
