(* ===== verification/ExampleService.thy ===== *)
theory ExampleService
  imports ExampleBackends
begin

section \<open>Example services\<close>

text \<open>
  Services built in the example environment, and runs of them: pushes, a fetch that the cache
  answers, and a download over HTTP.
\<close>

text \<open>A configuration of the example environment: assets in a blob access or an action cache,
  pushes to one instance name, and a fetcher that only fails.\<close>

definition example_env :: "(bool, unit, unit, string \<times> DigestFunction_Value, Digest, blob, nat, nat, unit, world) factories" where
  "example_env = \<lparr>NewAssetBlobAccess = \<lambda>g. Inr stored_ba, NewACBlobAccess = \<lambda>g. Inr stored_ba,
     HttpLibrary = world_H, NewHttpClient = \<lambda>h. Inr web,
     NewExecutionClient = \<lambda>r. Inr (example_client file_result)\<rparr>"

definition example_config :: "bool AssetCacheBackend \<Rightarrow> (bool, unit, unit) ApplicationConfiguration" where
  "example_config b = \<lparr>AssetCache = Some \<lparr>CacheBackend = b, ActionCachePlatform = None\<rparr>,
     AllowUpdatesForInstances = [''inst''], FetcherConf = None, MaximumMessageSizeBytes = 100\<rparr>"

abbreviation example_fetcher where
  "example_fetcher st \<equiv> fetch_layers world_X always (NewCachingFetcher world_X (DefaultFetcher world_X) st)"

abbreviation example_pusher where
  "example_pusher st \<equiv> NewMetricsAssetPushServer world_X (NewAssetPushServer world_X st [''inst'' \<mapsto> True])"

lemma example_servers:
  "newServers world_X example_env 3 (example_config (BackendBlobAccess True)) objects_ba always always =
     Inr (example_fetcher example_store, example_pusher example_store)"
  by (simp add: newServers_def NewAssetStoreFromConfiguration_def NewFetcherFromConfiguration_def
      example_env_def example_config_def fetch_layers_def Let_def)

text \<open>A push to this service succeeds if its store accepts the asset.\<close>

lemma example_push_store:
  assumes "\<And>a w. \<not> readonly w \<Longrightarrow> AssetTypeOf a = BLOB \<Longrightarrow>
    \<exists>w'. Put st (NewAssetReference [''u''] []) a (''inst'', DF_SHA256) w = (Done (Inr ()), w')"
  shows "\<exists>w'. PushBlob (example_pusher st) push0 world0 = (Done (Some (), None), w')"
proof -
  define w where "w = world0\<lparr>logged := Suc (logged world0), ticks := Suc (Suc 0)\<rparr>"
  define a where "a = \<lparr>AssetDigest = PushDigest push0, ExpireAt = PushExpireAt push0, LastUpdated =
    Some (TimestampNew world_X \<lparr>instant = 1001, location = Local\<rparr>), AssetTypeOf = BLOB\<rparr>"
  have "\<not> readonly w" "AssetTypeOf a = BLOB" by (simp_all add: w_def a_def)
  then obtain w' where "Put st (NewAssetReference [''u''] []) a (''inst'', DF_SHA256) w = (Done (Inr ()), w')"
    using assms by blast
  then show ?thesis
    by (simp add: NewMetricsAssetPushServer_run push_updateBlobSizeBytes_def
        push_updateDurationSeconds_def NewAssetPushServer_run Let_def replyM_run PushBlob_push_with
        push_with_def push_getDigestFunction_def may_update_def pushed_refs_def push_one_def NewAsset_def
        tryM_def bindM_assoc bindM_def call_run w_def a_def)
qed

lemma example_push:
  "\<exists>w'. PushBlob (example_pusher example_store) push0 world0 = (Done (Some (), None), w')"
  by (rule example_push_store) (simp add: Put_authorizing)

abbreviation example_action_store where
  "example_action_store \<equiv>
     NewAuthorizingAssetStore world_X (NewActionCacheAssetStore world_X 3 stored_ba objects_ba 100 None) always always"

lemma example_action_servers:
  "newServers world_X example_env 3 (example_config (BackendActionCache True)) objects_ba always always =
     Inr (example_fetcher example_action_store, example_pusher example_action_store)"
  by (simp add: newServers_def NewAssetStoreFromConfiguration_def NewFetcherFromConfiguration_def
      example_env_def example_config_def fetch_layers_def Let_def)

lemma example_action_push:
  "\<exists>w'. PushBlob (example_pusher example_action_store) push0 world0 = (Done (Some (), None), w')"
  by (rule example_push_store) (simp add: Put_authorizing example_action_put)

lemma example_fetch:
  "\<exists>w'. FetchBlob (example_fetcher example_store) request0 world2 =
    (Done (Some (cached_response False request0 ''u'' asset0), None), w')"
proof -
  let ?c = "(world_X, (world_X, stored_ba, 100, stored), always, always)"
  have "\<exists>w'. FetchBlob (fetch_layers world_X always (NewCachingFetcher world_X (DefaultFetcher world_X)
      (auth_store blob_store ?c))) request0 world2 =
    (Done (Some (cached_response False request0 ''u'' asset0), None), w')"
    by (rule aas.layers_serve_blob [where df = "(''inst'', DF_SHA256)" and i = "''inst''" and us = "[]" and oldest = Unix_0_0])
       (simp_all add: blob_config_simps(2) blob_view_keeps getDigestFunction_def oldest_accepted_def
         world2_holds everlasting_None too_old_def DefaultFetcher_def)
  then show ?thesis by (simp add: blob_config_simps(1))
qed

text \<open>The same with downloads over HTTP.\<close>

definition http_config :: "(bool, unit, unit) ApplicationConfiguration" where
  "http_config = (example_config (BackendBlobAccess True))\<lparr>FetcherConf := Some (BackendHttp ())\<rparr>"

abbreviation http_service where
  "http_service \<equiv> fetch_layers world_X always (NewCachingFetcher world_X
     (NewHTTPFetcher world_X world_H 2 web objects_ba) example_store)"

lemma http_servers:
  "newServers world_X example_env 2 http_config objects_ba always always = Inr (http_service, example_pusher example_store)"
  by (simp add: newServers_def NewAssetStoreFromConfiguration_def NewFetcherFromConfiguration_def
      example_env_def http_config_def example_config_def fetch_layers_def Let_def)

definition page :: FetchResponse where
  "page = \<lparr>ResponseStatus = Some \<lparr>status_Code = code_OK, status_Message = ''Blob fetched successfully!''\<rparr>,
     ResponseUri = ''u'', ResponseQualifiers = [], ResponseDigest = Some (digest_of (chunk1 @ chunk2))\<rparr>"

lemma http_backend_run:
  assumes "\<not> readonly w"
  shows "\<exists>w2. FetchBlob (NewHTTPFetcher world_X world_H 2 web objects_ba) request0 w = (Done (Some page, None), w2) \<and>
    stored w2 = stored w \<and> \<not> readonly w2"
proof -
  have df: "getDigestFunction world_X DF_SHA256 ''inst'' = Inr (''inst'', DF_SHA256)"
    by (simp add: getDigestFunction_def)
  have quals: "getChecksumSri world_X world_H [] = Done (Inr ([], ([], DF_UNKNOWN)))"
    "getAuthHeaders world_X (JsonError world_H) [''u''] [] = Inr Mapping.empty"
    by (simp_all add: getChecksumSri_def getAuthHeaders_def)
  show ?thesis
    using assms
    by (auto simp: FetchBlob_HTTP httpFetcher_FetchBlob_def df quals replyM_run downloadBlob_def downloadBody_def
        storeBody_def ApplyHeaders_def lookup_empty bindM_def tryM_def numeral_2_eq_2 writeAll_def checkM_def
        call_run Let_def chunks_nonempty page_def)
qed

lemma http_caching_run:
  assumes "stored w = Map.empty" "\<not> readonly w"
  shows "\<exists>w2. FetchBlob (NewCachingFetcher world_X (NewHTTPFetcher world_X world_H 2 web objects_ba) example_store)
    request0 w = (Done (Some page, None), w2)"
proof -
  obtain w1 where "FetchBlob (NewHTTPFetcher world_X world_H 2 web objects_ba) request0 w = (Done (Some page, None), w1)"
    "stored w1 = Map.empty" "\<not> readonly w1"
    using http_backend_run [OF assms(2)] assms(1) by auto
  then show ?thesis
    using assms
    by (simp add: FetchBlob_caching caching_with_def oldest_accepted_def getDigestFunction_def getAndCheckAsset_run
        Get_authorizing Put_authorizing after_fetch_def store_response_def cache_refs_def tryM_def page_def bindM_def
        NewAsset_def call_run del: message_bytes.simps)
qed

lemma http_service_run:
  "\<exists>w'. FetchBlob http_service request0 world0 = (Done (Some page, None), w')"
proof (rule layers_blob_response [where view = "\<lambda>w. (stored w, readonly w)" and i = "''inst''"])
  show "\<exists>w2. FetchBlob (NewCachingFetcher world_X (NewHTTPFetcher world_X world_H 2 web objects_ba) example_store)
      request0 w1 = (Done (Some page, None), w2)" if "(stored w1, readonly w1) = (stored world0, readonly world0)" for w1
    using http_caching_run [of w1] that by simp
  show "IsEmpty (CheckQualifiers (NewCachingFetcher world_X (NewHTTPFetcher world_X world_H 2 web objects_ba) example_store)
      (QualifiersToSet (Qualifiers request0)))"
    by (simp add: NewHTTPFetcher_def httpFetcher_CheckQualifiers_def QualifiersToSet_def Let_def IsEmpty_iff)
qed (simp_all add: clock_keeps_def log_keeps_def page_def)

text \<open>After the push the store holds an asset, and a fetch answers with its digest.\<close>

lemma example_pushed:
  "\<exists>w1 r w2 a. PushBlob (example_pusher example_store) push0 world0 = (Done (Some (), None), w1) \<and>
     blob_view (world_X, stored_ba, 100, stored) w1 (''inst'', DF_SHA256) (cache_ref [] ''u'') = Some a \<and>
     FetchBlob http_service request0 w1 = (Done (Some r, None), w2)"
proof -
  let ?c = "(world_X, (world_X, stored_ba, 100, stored), always, always)"
  have st: "auth_store blob_store ?c = example_store" by (simp add: blob_config_simps(1))
  obtain w1 where push: "PushBlob (example_pusher example_store) push0 world0 = (Done (Some (), None), w1)"
    using example_push by blast
  have ok: "auth_ok blob_ok blob_view ?c" "clock_keeps world_X (auth_inner blob_view ?c)"
    "log_keeps world_X (auth_inner blob_view ?c)" "auth_keeps always (auth_inner blob_view ?c)"
    by (simp_all add: blob_config_simps(2) blob_view_keeps)
  have fits: "auth_inner blob_fits ?c a \<and> everlasting world_X (auth_inner (\<lambda>_ a. a) ?c a)" if "pushed_asset push0 BLOB a" for a
    using that by (simp add: blob_config_simps(4) pushed_asset_def everlasting_None)
  obtain v1 v2 where inner: "PushBlob (NewAssetPushServer world_X example_store [''inst'' \<mapsto> True]) push0 v1 =
      (Done (Some (), None), v2)" and same: "auth_inner blob_view ?c w1 = auth_inner blob_view ?c v2"
    using metrics_push_success [OF push ok(2,3)] by metis
  then have "push_with world_X \<lparr>assetStore = auth_store blob_store ?c, allowUpdatesForInstances = [''inst'' \<mapsto> True]\<rparr> BLOB
      ''PushBlob requires at least one URI'' ''This service does not accept Blobs for instance '' push0 v1 = (Done (Inr ()), v2)"
    unfolding st by (simp add: NewAssetPushServer_run Let_def replyM_success PushBlob_push_with)
  from aas.push_with_held [OF ok(1) _ ok(2) this, of "(''inst'', DF_SHA256)" "cache_ref [] ''u''"] fits same
  obtain a where "blob_view (world_X, stored_ba, 100, stored) w1 (''inst'', DF_SHA256) (cache_ref [] ''u'') = Some a"
    by (auto simp: aas.held_def push_getDigestFunction_def pushed_refs_def cache_ref_def)
  moreover have "\<exists>r w2. FetchBlob http_service request0 w1 = (Done (Some r, None), w2) \<and>
      ResponseDigest r = PushDigest push0 \<and> ResponseUri r = ''u''"
    using aas.push_then_fetch [OF ok fits push [folded st], where req = request0 and df = "(''inst'', DF_SHA256)"
        and i = "''inst''" and u = "''u''" and us = "[]" and ?w2.0 = w1 and f = "NewHTTPFetcher world_X world_H 2 web objects_ba"]
    unfolding st
    by (simp add: push_getDigestFunction_def getDigestFunction_def NewHTTPFetcher_def httpFetcher_CheckQualifiers_def
        QualifiersToSet_def Let_def IsEmpty_iff)
  ultimately show ?thesis using push by blast
qed

end
