(* ===== verification/HistoryProperties.thy ===== *)
theory HistoryProperties
  imports ServiceHistory HTTPDownloads ExampleService
begin

section \<open>Properties of histories of the service\<close>

text \<open>
  The service is the one the configuration builds with the HTTP fetcher and the assets in a
  blob access. Its caches may be filled by any calls, in any order, that succeed or fail; the
  theorems say what can be in them and what they can answer.
\<close>

subsection \<open>The HTTP fetcher as a backend\<close>

lemma httpFetchUris_keeps:
  assumes "http_keeps X H (httpClient hf) view" "separate (httpStorage hf) view"
  shows "preserves (\<lambda>w. view w = v) (httpFetchUris X H hf n dl auth qs err uris)"
proof (induction uris arbitrary: err)
  case Nil
  then show ?case by (auto intro!: frame_rules split: option.split simp del: ret_run lift_run)
next
  case (Cons uri uris)
  note keep = http_keepsD [OF assms(1)] transfers_keepD [OF http_keepsD(1) [OF assms(1)]]
  show ?case
    by (auto intro!: frame_rules preserves_call downloadBlob_keeps [OF assms(1)] separate_preserves [OF assms(2)] Cons.IH
        simp: keep split: sum.split option.split simp del: ret_run bindM_call)
qed

lemma http_backend_keeps:
  assumes "http_keeps X H client view" "separate cas view"
  shows "preserves (\<lambda>w. view w = v) (fetch_call (NewHTTPFetcher X H n client cas) d req)"
proof -
  have "preserves (\<lambda>w. view w = v) (httpFetcher_FetchBlob X H \<lparr>httpClient = client, httpStorage = cas\<rparr> n req)"
    unfolding httpFetcher_FetchBlob_def using assms
    by (auto intro!: frame_rules preserves_replyM httpFetchUris_keeps simp del: ret_run lift_run)
  moreover have "preserves (\<lambda>w. view w = v) (httpFetcher_FetchDirectory req)"
    unfolding httpFetcher_FetchDirectory_def by (rule preserves_ret)
  ultimately show ?thesis
    by (cases d) (simp_all add: fetch_call_def FetchBlob_HTTP, simp add: NewHTTPFetcher_def Let_def)
qed

text \<open>What it answers, it answers under the qualifiers of the request.\<close>

lemma httpFetchUris_qualifiers:
  "httpFetchUris X H hf n dl auth qs err uris w = (Done (Inr resp), w') \<Longrightarrow> ResponseQualifiers resp = qs"
  by (induction uris arbitrary: err w)
     (auto elim!: bindM_DoneE split: sum.split_asm option.split_asm if_split_asm)

lemma http_backend_response:
  assumes "keeps_blobs X cas contents" "error_buffers X H"
    and "fetch_call (NewHTTPFetcher X H n client cas) d req w = (Done (Some rsp, None), w')"
  shows "\<not> d \<and> verified_download X H n client cas contents req rsp w w' \<and> ResponseQualifiers rsp = Qualifiers req"
proof (cases d)
  case True
  with assms(3) show ?thesis
    by (simp add: fetch_call_def NewHTTPFetcher_def httpFetcher_FetchDirectory_def Let_def)
next
  case False
  with assms(3) have run: "FetchBlob (NewHTTPFetcher X H n client cas) req w = (Done (Some rsp, None), w')"
    by (simp add: fetch_call_def)
  then have "ResponseQualifiers rsp = Qualifiers req"
    by (auto simp: FetchBlob_HTTP httpFetcher_FetchBlob_def replyM_success tryM_Inr_iff dest: httpFetchUris_qualifiers)
  with FetchBlob_HTTP_success [OF assms(1,2) run] False show ?thesis by simp
qed

subsection \<open>The service over HTTP\<close>

text \<open>What is assumed of the code outside: the asset storage keeps what is put in it, buffers
  give back their message, the content addressable storage and HTTP transfers do not touch the
  asset storage.\<close>

definition http_environment ::
  "('i, 'f, 'd, 'b, 'w) ext \<Rightarrow> ('f, 'd, 'b, 'o, 't, 'w) http_ext \<Rightarrow> ('o, 'w) HttpClient \<Rightarrow> ('d, 'b, 'w) BlobAccess \<Rightarrow>
     ('w \<Rightarrow> 'd \<rightharpoonup> 'b) \<Rightarrow> ('d, 'b, 'w) BlobAccess \<Rightarrow> ('w \<Rightarrow> 'd \<rightharpoonup> 'b) \<Rightarrow> ('i, 'w) Authorizer \<Rightarrow> ('i, 'w) Authorizer \<Rightarrow> bool" where
  "http_environment X H client cas contents ba assets fa pa \<longleftrightarrow>
     keeps_blobs X ba assets \<and> refusals_keep ba assets \<and> typed_buffers X \<and> faithful_buffers X \<and>
     keeps_blobs X cas contents \<and> separate cas assets \<and> error_buffers X H \<and> http_keeps X H client assets \<and>
     clock_keeps X assets \<and> auth_keeps fa assets \<and> auth_keeps pa assets"

text \<open>The configuration: assets in the blob access \<open>ba\<close>, downloads by \<open>client\<close>, pushes
  for the instance names \<open>allow\<close>.\<close>

definition http_configured ::
  "('i, 'f, 'd, 'b, 'w) ext \<Rightarrow> ('g, 'h, 'r, 'f, 'd, 'b, 'o, 't, 's, 'w) factories \<Rightarrow>
     ('g, 'h, 'r) ApplicationConfiguration \<Rightarrow> ('d, 'b, 'w) BlobAccess \<Rightarrow> ('o, 'w) HttpClient \<Rightarrow> ('i \<rightharpoonup> bool) \<Rightarrow> bool" where
  "http_configured X env config ba client allow \<longleftrightarrow>
     (\<exists>cache g h. AssetCache config = Some cache \<and> CacheBackend cache = BackendBlobAccess g \<and>
        NewAssetBlobAccess env g = Inr ba \<and> FetcherConf config = Some (BackendHttp h) \<and>
        NewHttpClient env h = Inr client) \<and>
     allowUpdates X (AllowUpdatesForInstances config) Map.empty = Inr allow"

text \<open>Its parts, and that its store keeps the contract.\<close>

lemma http_service_parts:
  fixes env :: "('g, 'h, 'r, 'f, 'd, 'b, 'o, 't, 's, 'w) factories"
  defines "H \<equiv> HttpLibrary env"
  assumes built: "newServers X env n config cas fa pa = Inr (fs, ps)" "http_configured X env config ba client allow"
    and env: "http_environment X H client cas contents ba assets fa pa"
  defines "c \<equiv> (X, (X, ba, MaximumMessageSizeBytes config, assets), fa, pa)"
    and "f \<equiv> NewHTTPFetcher X H n client cas"
  shows "fs = fetch_layers X fa (NewCachingFetcher X f (auth_store blob_store c))"
    "ps = NewMetricsAssetPushServer X (NewAssetPushServer X (auth_store blob_store c) allow)"
    "auth_ok blob_ok blob_view c" "auth_inner blob_settled c"
    "clock_keeps X (auth_inner blob_view c)" "log_keeps X (auth_inner blob_view c)" "auth_keeps fa (auth_inner blob_view c)"
    "\<And>d req v. preserves (\<lambda>w. auth_inner blob_view c w = v) (fetch_call f d req)"
    "\<And>w w'. assets w' = assets w \<Longrightarrow> auth_inner blob_view c w' = auth_inner blob_view c w"
proof -
  let ?st = "NewAuthorizingAssetStore X (NewBlobAccessAssetStore X ba (MaximumMessageSizeBytes config)) fa pa"
  have st: "auth_store blob_store c = ?st" by (simp add: c_def blob_config_simps(1))
  from built(2) obtain cache g h where conf: "AssetCache config = Some cache" "CacheBackend cache = BackendBlobAccess g"
      "NewAssetBlobAccess env g = Inr ba" "FetcherConf config = Some (BackendHttp h)" "NewHttpClient env h = Inr client"
    and allow: "allowUpdates X (AllowUpdatesForInstances config) Map.empty = Inr allow"
    unfolding http_configured_def by blast
  show "fs = fetch_layers X fa (NewCachingFetcher X f (auth_store blob_store c))"
    unfolding st f_def H_def using newServers_http [OF built(1) conf] .
  show "ps = NewMetricsAssetPushServer X (NewAssetPushServer X (auth_store blob_store c) allow)"
    unfolding st using built(1) conf allow
    by (auto simp: newServers_def NewAssetStoreFromConfiguration_def Let_def split: sum.split_asm)
  from env have sep: "separate cas assets" and http: "http_keeps X H client assets"
    and keeps: "keeps_blobs X ba assets" "refusals_keep ba assets" "typed_buffers X" "faithful_buffers X"
      "clock_keeps X assets" "auth_keeps fa assets" "auth_keeps pa assets"
    unfolding http_environment_def by blast+
  from http have logs: "log_keeps X assets" by (simp add: http_keeps_def transfers_keep_def)
  show "auth_ok blob_ok blob_view c" "auth_inner blob_settled c"
    "clock_keeps X (auth_inner blob_view c)" "log_keeps X (auth_inner blob_view c)" "auth_keeps fa (auth_inner blob_view c)"
    using keeps logs by (simp_all add: c_def blob_config_simps(2) blob_view_keeps)
  show view: "auth_inner blob_view c w' = auth_inner blob_view c w" if "assets w' = assets w" for w w'
    using that unfolding c_def auth_inner.simps by (rule blob_view_same)
  show "preserves (\<lambda>w. auth_inner blob_view c w = v) (fetch_call f d req)" for d req v
  proof (rule preservesI)
    fix w r w'
    assume "auth_inner blob_view c w = v" "fetch_call f d req w = (r, w')"
    moreover from this have "assets w' = assets w"
      using preservesD [OF http_backend_keeps [OF http sep]] unfolding f_def by blast
    ultimately show "auth_inner blob_view c w' = v" using view by metis
  qed
qed

lemma blob_key_same: "blob_key (X, ba, lim, contents) = same_digest X"
  by (intro ext) simp

text \<open>Looking up the URI of a response, no other reference has the same digest.\<close>

definition unshared :: "('i, 'f, 'd, 'b, 'w) ext \<Rightarrow> AssetReference \<Rightarrow> bool" where
  "unshared X ref \<longleftrightarrow> (\<forall>df df' ref'. same_digest X df' ref' df ref \<longrightarrow> ref' = ref)"

subsection \<open>An example history\<close>

text \<open>A push and then a download service that answers with what was pushed.\<close>

lemma digest_of_inj: "digest_of bs = digest_of cs \<Longrightarrow> bs = cs"
proof -
  have "inj (\<lambda>b::8 word. char_of (unat b) :: char)"
  proof (rule injI)
    fix x y :: "8 word"
    assume "(char_of (unat x) :: char) = char_of (unat y)"
    then have "(of_char (char_of (unat x) :: char) :: nat) = of_char (char_of (unat y) :: char)" by simp
    moreover have "unat x < 256" "unat y < 256" using unsigned_less [of x] unsigned_less [of y] by simp_all
    ultimately show "x = y" by (simp add: of_char_of word_unat_eq_iff)
  qed
  then show "digest_of bs = digest_of cs \<Longrightarrow> bs = cs" by (simp add: digest_of_def inj_map_eq_map)
qed
lemma text_bytes_cons: "text_bytes s @ bs = c # cs \<longleftrightarrow> (s = [] \<and> c = 0 \<and> bs = cs) \<or> (\<exists>x t. s = x # t \<and> of_char x = c \<and> text_bytes t @ bs = cs)"
  by (cases s) (auto simp: text_bytes_def)
lemma of_char_u: "(of_char x :: 8 word) = 117 \<longleftrightarrow> x = CHR ''u''"
proof
  assume "(of_char x :: 8 word) = 117"
  then have "unat (of_char x :: 8 word) = 117" by simp
  moreover have "unat (of_char x :: 8 word) = of_char x"
  proof -
    have "(of_char x :: 8 word) = word_of_nat (of_char x)" by (simp add: of_nat_of_char)
    then show ?thesis by (simp add: unat_of_nat take_bit_eq_mod)
  qed
  ultimately have "(of_char x :: nat) = of_char (CHR ''u'')" by simp
  then show "x = CHR ''u''" by (simp only: of_char_eq_iff)
qed simp
lemma text_bytes_Nil: "text_bytes s \<noteq> []"
  by (simp add: text_bytes_def)

lemma example_unshared: "unshared world_X (cache_ref [] ''u'')"
  unfolding unshared_def
proof (intro allI impI)
  fix df df' ref'
  let ?ref = "\<lparr>RefUris = [''u''], RefQualifiers = []\<rparr>"
  have ref: "cache_ref [] ''u'' = ?ref"
    by (simp add: cache_ref_def NewAssetReference_def SortQualifiers_def Let_def)
  assume "same_digest world_X df' ref' df (cache_ref [] ''u'')"
  then have "message_bytes (MAssetReference ref') = message_bytes (MAssetReference ?ref)"
    by (auto simp: same_digest_def message_digest_def ref dest: digest_of_inj simp del: message_bytes.simps)
  then have bytes: "concat (map text_bytes (RefUris ref')) @ 1 # concat (map qualifier_bytes (RefQualifiers ref')) = [117, 0, 1]"
    by (simp add: text_bytes_def)
  have "RefUris ref' = [''u''] \<and> RefQualifiers ref' = []"
  proof (cases "RefUris ref'")
    case (Cons u us)
    with bytes have "u = ''u'' \<and> concat (map text_bytes us) @ 1 # concat (map qualifier_bytes (RefQualifiers ref')) = [1]"
      by (auto simp: text_bytes_cons of_char_u text_bytes_Nil)
    with Cons show ?thesis
      by (cases us; cases "RefQualifiers ref'") (auto simp: text_bytes_cons text_bytes_Nil qualifier_bytes_def)
  qed (use bytes in simp)
  then show "ref' = cache_ref [] ''u''" by (simp add: ref)
qed

lemma http_example:
  "http_configured world_X example_env http_config stored_ba web [''inst'' \<mapsto> True]"
  "http_environment world_X (HttpLibrary example_env) web objects_ba objects stored_ba stored always always"
  by (auto simp: http_configured_def http_config_def example_config_def example_env_def http_environment_def
      refusals_keep_def faithful_buffers_def http_keeps_def world_transfers world_error_buffers fun_eq_iff
      split: if_split_asm)

lemma example_history:
  assumes "PushBlob (example_pusher example_store) push0 world0 = (Done (Some (), None), w1)"
  shows "history stored http_service (example_pusher example_store) world0 [PushCall False push0] w1"
  using assms by (intro history.pushed [OF history.begun]) (simp add: push_call_def)

subsection \<open>Where assets come from\<close>

lemma history_source:
  assumes "newServers X env n config cas fa pa = Inr (fs, ps)" "http_configured X env config ba client allow"
    and "http_environment X (HttpLibrary env) client cas contents ba assets fa pa"
    and "history assets fs ps w0 h w"
    and "blob_view (X, ba, MaximumMessageSizeBytes config, assets) w df ref = Some a"
  shows "blob_view (X, ba, MaximumMessageSizeBytes config, assets) w0 df ref = Some a \<or>
    pushed_origin X (same_digest X) allow h df ref a \<or>
    fetched_origin X (same_digest X) (NewHTTPFetcher X (HttpLibrary env) n client cas) h df ref a"
proof -
  note parts = http_service_parts [OF assms(1-3)]
  have "kaas.came_from X (X, (X, ba, MaximumMessageSizeBytes config, assets), fa, pa) allow
      (NewHTTPFetcher X (HttpLibrary env) n client cas) w0 h df ref a"
    using kaas.history_origin [OF parts(3-9) assms(4) [unfolded parts(1,2)]] assms(5)
    unfolding kaas.holds_only_def by simp
  then show ?thesis by (simp add: kaas.came_from_def blob_key_same)
qed

text \<open>After any history of calls of the service, every asset in the store was there at the
  beginning, was pushed for an instance name that allows updates, or was given by a download
  for an earlier request and stored under its own URI and qualifiers, whatever calls failed or
  panicked in between. (References with the same digest are one key.)\<close>

theorem history_provenance:
  assumes "newServers X env n config cas fa pa = Inr (fs, ps)" "http_configured X env config ba client allow"
    and "http_environment X (HttpLibrary env) client cas contents ba assets fa pa"
    and "history assets fs ps w0 h w"
    and "blob_view (X, ba, MaximumMessageSizeBytes config, assets) w df ref = Some a"
  shows "blob_view (X, ba, MaximumMessageSizeBytes config, assets) w0 df ref = Some a \<or>
    pushed_origin X (same_digest X) allow h df ref a \<or>
    fetched_origin X (same_digest X) (NewHTTPFetcher X (HttpLibrary env) n client cas) h df ref a"
  by (rule history_source [OF assms])

theorem history_provenance_witness:
  "\<exists>w1 a. history stored http_service (example_pusher example_store) world0 [PushCall False push0] w1 \<and>
     (blob_view (world_X, stored_ba, MaximumMessageSizeBytes http_config, stored) world0 (''inst'', DF_SHA256) (cache_ref [] ''u'') = Some a \<or>
      pushed_origin world_X (same_digest world_X) [''inst'' \<mapsto> True] [PushCall False push0] (''inst'', DF_SHA256) (cache_ref [] ''u'') a \<or>
      fetched_origin world_X (same_digest world_X) (NewHTTPFetcher world_X (HttpLibrary example_env) 2 web objects_ba)
        [PushCall False push0] (''inst'', DF_SHA256) (cache_ref [] ''u'') a)"
proof -
  from example_pushed obtain w1 a where push: "PushBlob (example_pusher example_store) push0 world0 = (Done (Some (), None), w1)"
    and held: "blob_view (world_X, stored_ba, 100, stored) w1 (''inst'', DF_SHA256) (cache_ref [] ''u'') = Some a" by blast
  have "MaximumMessageSizeBytes http_config = 100" by (simp add: http_config_def example_config_def)
  with held history_provenance [OF http_servers http_example example_history [OF push]] example_history [OF push]
  show ?thesis by metis
qed

text \<open>C5: a service that downloads over HTTP and has its assets in a blob access, and whose asset store
  was empty at the beginning, keeps its assets well typed, after any calls that may have failed or
  panicked: an asset of the type DIRECTORY was pushed as a directory, with this digest; one of the type
  BLOB was pushed as a blob, with this digest, or is the digest of a download, verified as C8 says, for a
  fetch of a blob; there is no third type, and no download makes a directory. (Remote execution fetches
  directories too, and they are cached; it is not the backend here.)\<close>

theorem history_types:
  assumes "newServers X env n config cas fa pa = Inr (fs, ps)" "http_configured X env config ba client allow"
    and env: "http_environment X (HttpLibrary env) client cas contents ba assets fa pa"
    and "history assets fs ps w0 h w"
    and empty: "\<And>df ref. blob_view (X, ba, MaximumMessageSizeBytes config, assets) w0 df ref = None"
    and "blob_view (X, ba, MaximumMessageSizeBytes config, assets) w df ref = Some a"
  shows "(case AssetTypeOf a of
      DIRECTORY \<Rightarrow> \<exists>preq. PushCall True preq \<in> set h \<and> PushDigest preq = AssetDigest a
    | BLOB \<Rightarrow> (\<exists>preq. PushCall False preq \<in> set h \<and> PushDigest preq = AssetDigest a) \<or>
        (\<exists>req rsp w1 w2. FetchCall False req \<in> set h \<and>
          verified_download X (HttpLibrary env) n client cas contents req rsp w1 w2 \<and> ResponseDigest rsp = AssetDigest a)
    | OtherType t \<Rightarrow> False)"
proof -
  from env have backend: "keeps_blobs X cas contents" "error_buffers X (HttpLibrary env)"
    by (simp_all add: http_environment_def)
  from history_source [OF assms(1-4,6)] empty
  consider "pushed_origin X (same_digest X) allow h df ref a"
    | "fetched_origin X (same_digest X) (NewHTTPFetcher X (HttpLibrary env) n client cas) h df ref a" by auto
  then show ?thesis
  proof cases
    case 1
    then obtain d preq where "PushCall d preq \<in> set h" "pushed_asset preq (if d then DIRECTORY else BLOB) a"
      unfolding pushed_origin_def by blast
    then show ?thesis by (cases d) (auto simp: pushed_asset_def intro: exI [of _ preq])
  next
    case 2
    then obtain d req rsp w1 w2 where call: "FetchCall d req \<in> set h" and a: "fetched_asset X d rsp a"
      and run: "fetch_call (NewHTTPFetcher X (HttpLibrary env) n client cas) d req w1 = (Done (Some rsp, None), w2)"
      unfolding fetched_origin_def by blast
    from http_backend_response [OF backend run] call a show ?thesis
      by (auto simp: fetched_asset_def intro!: disjI2 exI [of _ req] exI [of _ rsp])
  qed
qed

theorem history_types_witness:
  "\<exists>w1 a. history stored http_service (example_pusher example_store) world0 [PushCall False push0] w1 \<and>
     blob_view (world_X, stored_ba, 100, stored) w1 (''inst'', DF_SHA256) (cache_ref [] ''u'') = Some a \<and>
     (case AssetTypeOf a of DIRECTORY \<Rightarrow> False | BLOB \<Rightarrow> True | OtherType t \<Rightarrow> False)"
proof -
  from example_pushed obtain w1 a where push: "PushBlob (example_pusher example_store) push0 world0 = (Done (Some (), None), w1)"
    and held: "blob_view (world_X, stored_ba, 100, stored) w1 (''inst'', DF_SHA256) (cache_ref [] ''u'') = Some a" by blast
  have "MaximumMessageSizeBytes http_config = 100" by (simp add: http_config_def example_config_def)
  with held history_types [OF http_servers http_example example_history [OF push], of "(''inst'', DF_SHA256)" "cache_ref [] ''u''" a]
  have "case AssetTypeOf a of DIRECTORY \<Rightarrow> False | BLOB \<Rightarrow> True | OtherType t \<Rightarrow> False"
    by (cases "AssetTypeOf a") auto
  with held example_history [OF push] show ?thesis by blast
qed

lemma cache_ref_pushed:
  assumes "cache_ref qs u \<in> set (pushed_refs preq)"
  shows "u \<in> set (PushUris preq) \<and> mset (PushQualifiers preq) = mset (removeVolatileQualifiers qs)"
  using assms
  by (auto simp: pushed_refs_def cache_ref_def NewAssetReference_eq_iff split: if_split_asm)

lemma cache_ref_fetched:
  assumes "cache_ref qs u \<in> set (cache_refs req rsp)"
  shows "ResponseUri rsp = u \<and>
    mset (removeVolatileQualifiers (ResponseQualifiers rsp)) = mset (removeVolatileQualifiers qs)"
  using assms
  by (auto simp: cache_refs_def cache_ref_def NewAssetReference_eq_iff split: if_split_asm)

text \<open>Whatever was called before, a response to a request for a blob carries the digest of
  content that was downloaded from its URI with the checksum asked for, now or for an earlier
  request with the same URI and qualifiers; unless the digest was pushed for that URI and those
  qualifiers by a client that may, or was in the store at the beginning.\<close>

theorem history_verified:
  assumes "newServers X env n config cas fa pa = Inr (fs, ps)" "http_configured X env config ba client allow"
    and env: "http_environment X (HttpLibrary env) client cas contents ba assets fa pa"
    and "history assets fs ps w0 h w"
    and unshared: "\<And>u. u \<in> set (Uris req) \<Longrightarrow> unshared X (cache_ref (Qualifiers req) u)"
    and fetch: "FetchBlob fs req w = (Done (Some r, e), w')"
  shows "(\<exists>df a. blob_view (X, ba, MaximumMessageSizeBytes config, assets) w0 df (cache_ref (Qualifiers req) (ResponseUri r)) =
        Some a \<and> AssetDigest a = ResponseDigest r) \<or>
    (\<exists>d preq df. PushCall d preq \<in> set h \<and> PushDigest preq = ResponseDigest r \<and> ResponseUri r \<in> set (PushUris preq) \<and>
        mset (PushQualifiers preq) = mset (removeVolatileQualifiers (Qualifiers req)) \<and>
        push_getDigestFunction X (PushDigestFunction preq) (PushInstanceName preq) (PushDigest preq) = Inr df \<and>
        allow (GetInstanceName X df) = Some True) \<or>
    (\<exists>req' rsp w1 w2. (req' = req \<or> FetchCall False req' \<in> set h) \<and>
        verified_download X (HttpLibrary env) n client cas contents req' rsp w1 w2 \<and>
        ResponseUri rsp = ResponseUri r \<and> ResponseDigest rsp = ResponseDigest r \<and>
        mset (removeVolatileQualifiers (Qualifiers req')) = mset (removeVolatileQualifiers (Qualifiers req)))"
proof -
  note parts = http_service_parts [OF assms(1-3)]
  from env have backend: "keeps_blobs X cas contents" "error_buffers X (HttpLibrary env)"
    by (simp_all add: http_environment_def)
  from parts(3-9) assms(4) [unfolded parts(1,2)] fetch [unfolded parts(1)] show ?thesis
  proof (rule kaas.response_origin)
    fix w1 w2
    assume "FetchBlob (NewHTTPFetcher X (HttpLibrary env) n client cas) req w1 = (Done (Some r, None), w2)"
    then have "verified_download X (HttpLibrary env) n client cas contents req r w1 w2"
      by (rule FetchBlob_HTTP_success [OF backend])
    then show ?thesis by blast
  next
    fix u df a
    assume u: "u \<in> set (Uris req)" and r: "r = cached_response False req u a"
      and origin: "kaas.came_from X (X, (X, ba, MaximumMessageSizeBytes config, assets), fa, pa) allow
        (NewHTTPFetcher X (HttpLibrary env) n client cas) w0 h df (cache_ref (Qualifiers req) u) a"
    have key: "same_digest X df' ref' df (cache_ref (Qualifiers req) u) \<Longrightarrow> ref' = cache_ref (Qualifiers req) u" for df' ref'
      using unshared [OF u] by (simp add: unshared_def)
    have fields: "ResponseUri r = u" "ResponseDigest r = AssetDigest a" by (simp_all add: r cached_response_def)
    from origin consider "blob_view (X, ba, MaximumMessageSizeBytes config, assets) w0 df (cache_ref (Qualifiers req) u) = Some a"
      | "pushed_origin X (same_digest X) allow h df (cache_ref (Qualifiers req) u) a"
      | "fetched_origin X (same_digest X) (NewHTTPFetcher X (HttpLibrary env) n client cas) h df (cache_ref (Qualifiers req) u) a"
      by (auto simp: kaas.came_from_def blob_key_same)
    then show ?thesis
    proof cases
      case 2
      then show ?thesis
        using key cache_ref_pushed fields unfolding pushed_origin_def pushed_asset_def by metis
    next
      case 3
      then obtain d req' rsp w1 w2 where call: "FetchCall d req' \<in> set h"
        and run: "fetch_call (NewHTTPFetcher X (HttpLibrary env) n client cas) d req' w1 = (Done (Some rsp, None), w2)"
        and ref: "cache_ref (Qualifiers req) u \<in> set (cache_refs req' rsp)" and a: "fetched_asset X d rsp a"
        using key unfolding fetched_origin_def by metis
      from http_backend_response [OF backend run] cache_ref_fetched [OF ref] call a fields show ?thesis
        by (intro disjI2 exI [of _ req'] exI [of _ rsp] exI [of _ w1] exI [of _ w2]) (simp add: fetched_asset_def)
    qed (use fields in auto)
  qed
qed

theorem history_verified_witness:
  "\<exists>w1 (r::FetchResponse). history stored http_service (example_pusher example_store) world0 [PushCall False push0] w1 \<and>
    ((\<exists>df a. blob_view (world_X, stored_ba, MaximumMessageSizeBytes http_config, stored) world0 df
          (cache_ref (Qualifiers request0) (ResponseUri r)) = Some a \<and> AssetDigest a = ResponseDigest r) \<or>
     (\<exists>d preq df. PushCall d preq \<in> set [PushCall False push0] \<and> PushDigest preq = ResponseDigest r \<and>
        ResponseUri r \<in> set (PushUris preq) \<and>
        mset (PushQualifiers preq) = mset (removeVolatileQualifiers (Qualifiers request0)) \<and>
        push_getDigestFunction world_X (PushDigestFunction preq) (PushInstanceName preq) (PushDigest preq) = Inr df \<and>
        [''inst'' \<mapsto> True] (GetInstanceName world_X df) = Some True) \<or>
     (\<exists>req' rsp w1 w2. (req' = request0 \<or> FetchCall False req' \<in> set [PushCall False push0]) \<and>
        verified_download world_X (HttpLibrary example_env) 2 web objects_ba objects req' rsp w1 w2 \<and>
        ResponseUri rsp = ResponseUri r \<and> ResponseDigest rsp = ResponseDigest r \<and>
        mset (removeVolatileQualifiers (Qualifiers req')) = mset (removeVolatileQualifiers (Qualifiers request0))))"
proof -
  from example_pushed obtain w1 r w2 where push: "PushBlob (example_pusher example_store) push0 world0 = (Done (Some (), None), w1)"
    and fetch: "FetchBlob http_service request0 w1 = (Done (Some r, None), w2)" by blast
  note verified = history_verified [OF http_servers http_example example_history [OF push] _ fetch]
  show ?thesis
    by (rule exI [of _ w1], rule exI [of _ r], rule conjI [OF example_history [OF push] verified])
       (simp add: example_unshared)
qed

end
