(* ===== verification/Startup.thy ===== *)
theory Startup
  imports Configuration
begin

section \<open>The process (cmd/bb_remote_asset/main.go)\<close>

text \<open>
  \<open>main\<close> reads the configuration, has the libraries build what it asks for, builds the two
  servers, and has them served. Each step may fail, and then the process ends with an error
  that says which. What the libraries do is \<open>process\<close>: their configuration messages are of
  type \<open>'c\<close>, the gRPC client factory \<open>'k\<close>, the pool for compression \<open>'p\<close>. The
  termination groups and the life cycle are part of the world.
\<close>

datatype 'w service = FetchService "'w Fetcher" | PushService "'w PushServer"

record ('c, 'g, 'h, 'r) ServerConfiguration = "('g, 'h, 'r) ApplicationConfiguration" +
  Global :: 'c
  FetchAuthorizer :: 'c
  PushAuthorizer :: 'c
  ZstdPool :: 'c
  ContentAddressableStorage :: 'c
  GrpcServers :: 'c

record ('c, 'k, 'p, 'g, 'h, 'r, 'i, 'f, 'd, 'b, 'o, 't, 's, 'w) process =
  UnmarshalConfigurationFromFile :: "string \<Rightarrow> 'w \<Rightarrow> (error + ('c, 'g, 'h, 'r) ServerConfiguration) \<times> 'w"
  ApplyConfiguration :: "'c \<Rightarrow> 'w \<Rightarrow> (error + 'k) \<times> 'w"
  NewAuthorizerFromConfiguration :: "'c \<Rightarrow> 'k \<Rightarrow> 'w \<Rightarrow> (error + ('i, 'w) Authorizer) \<times> 'w"
  NewPoolFromConfiguration :: "'c \<Rightarrow> 'w \<Rightarrow> 'p \<times> 'w"
  NewCASBlobAccess :: "'c \<Rightarrow> 'k \<Rightarrow> int \<Rightarrow> 'p \<Rightarrow> 'w \<Rightarrow> (error + ('d, 'b, 'w) BlobAccess) \<times> 'w"
  Libraries :: "'k \<Rightarrow> ('g, 'h, 'r, 'f, 'd, 'b, 'o, 't, 's, 'w) factories"
  NewServersAndServe :: "'c \<Rightarrow> ('w service list \<Rightarrow> 'w service list) \<Rightarrow> 'k \<Rightarrow> 'w \<Rightarrow> error option \<times> 'w"
  MarkReadyAndWait :: "'w \<Rightarrow> unit \<times> 'w"

text \<open>The function that registers the servers, on the services registered so far.\<close>

definition registerServices :: "'w Fetcher \<Rightarrow> 'w PushServer \<Rightarrow> 'w service list \<Rightarrow> 'w service list" where
  "registerServices fetchServer metricsPushServer s = s @ [FetchService fetchServer, PushService metricsPushServer]"

definition wrapped :: "('i, 'f, 'd, 'b, 'w) ext \<Rightarrow> string \<Rightarrow> ('w \<Rightarrow> (error + 'a) \<times> 'w) \<Rightarrow> ('w, error + 'a) comp" where
  "wrapped X message f = bindM (call f) (\<lambda>r. ret (case r of
     Inl err \<Rightarrow> Inl (StatusWrapf X err message) | Inr a \<Rightarrow> Inr a))"

text \<open>The first part of \<open>main\<close>: all that is built before anything is served.\<close>

definition prepareServers ::
  "('i, 'f, 'd, 'b, 'w) ext \<Rightarrow> ('c, 'k, 'p, 'g, 'h, 'r, 'i, 'f, 'd, 'b, 'o, 't, 's, 'w) process \<Rightarrow> nat \<Rightarrow> string \<Rightarrow>
     ('w, error + ('c, 'g, 'h, 'r) ServerConfiguration \<times> 'k \<times> 'w Fetcher \<times> 'w PushServer) comp" where
  "prepareServers X S n path =
     tryM (wrapped X (''Failed to read configuration from '' @ path) (UnmarshalConfigurationFromFile S path)) (\<lambda>config.
     tryM (wrapped X ''Failed to apply global configuration options'' (ApplyConfiguration S (Global config))) (\<lambda>grpcClientFactory.
     tryM (wrapped X ''Failed to create Fetch Authorizer from Configuration''
       (NewAuthorizerFromConfiguration S (FetchAuthorizer config) grpcClientFactory)) (\<lambda>fetchAuthorizer.
     tryM (wrapped X ''Failed to create Push Authorizer from Configuration''
       (NewAuthorizerFromConfiguration S (PushAuthorizer config) grpcClientFactory)) (\<lambda>pushAuthorizer.
     bindM (call (NewPoolFromConfiguration S (ZstdPool config))) (\<lambda>zstdPool.
     tryM (wrapped X ''Failed to create CAS blob access''
       (NewCASBlobAccess S (ContentAddressableStorage config) grpcClientFactory (MaximumMessageSizeBytes config) zstdPool)) (\<lambda>cas.
     tryM (ret (newServers X (Libraries S grpcClientFactory) n (ApplicationConfiguration.truncate config) cas
       fetchAuthorizer pushAuthorizer)) (\<lambda>(fetchServer, metricsPushServer).
     ret (Inr (config, grpcClientFactory, fetchServer, metricsPushServer)))))))))"

definition main ::
  "('i, 'f, 'd, 'b, 'w) ext \<Rightarrow> ('c, 'k, 'p, 'g, 'h, 'r, 'i, 'f, 'd, 'b, 'o, 't, 's, 'w) process \<Rightarrow> nat \<Rightarrow>
     string list \<Rightarrow> ('w, error + unit) comp" where
  "main X S n args =
    (if length args \<noteq> 2 then
       ret (Inl (StatusError code_InvalidArgument ''Usage: bb_remote_asset bb_remote_asset.jsonnet''))
     else
       tryM (prepareServers X S n (args ! 1)) (\<lambda>(config, grpcClientFactory, fetchServer, metricsPushServer).
       bindM (call (NewServersAndServe S (GrpcServers config) (registerServices fetchServer metricsPushServer)
         grpcClientFactory)) (\<lambda>e.
       case e of
         Some err \<Rightarrow> ret (Inl (StatusWrapf X err ''gRPC server failure''))
       | None \<Rightarrow> bindM (call (MarkReadyAndWait S)) (\<lambda>_. ret (Inr ())))))"

subsection \<open>What is served\<close>

lemma wrapped_Inr: "wrapped X m f w = (Done (Inr a), w') \<longleftrightarrow> f w = (Inr a, w')"
  by (cases "f w") (auto simp: wrapped_def bindM_Done call_run split: sum.split)

text \<open>What the libraries made of a field of the configuration, in whatever world they were
  asked.\<close>

definition authorizer_of ::
  "('c, 'k, 'p, 'g, 'h, 'r, 'i, 'f, 'd, 'b, 'o, 't, 's, 'w) process \<Rightarrow> 'c \<Rightarrow> 'k \<Rightarrow> ('i, 'w) Authorizer \<Rightarrow> bool" where
  "authorizer_of S c k auth \<longleftrightarrow> (\<exists>w w'. NewAuthorizerFromConfiguration S c k w = (Inr auth, w'))"

definition storage_of ::
  "('c, 'k, 'p, 'g, 'h, 'r, 'i, 'f, 'd, 'b, 'o, 't, 's, 'w) process \<Rightarrow> ('c, 'g, 'h, 'r) ServerConfiguration \<Rightarrow> 'k \<Rightarrow>
     ('d, 'b, 'w) BlobAccess \<Rightarrow> bool" where
  "storage_of S config k cas \<longleftrightarrow> (\<exists>p w w'.
     NewCASBlobAccess S (ContentAddressableStorage config) k (MaximumMessageSizeBytes config) p w = (Inr cas, w'))"

definition built ::
  "('i, 'f, 'd, 'b, 'w) ext \<Rightarrow> ('c, 'k, 'p, 'g, 'h, 'r, 'i, 'f, 'd, 'b, 'o, 't, 's, 'w) process \<Rightarrow> nat \<Rightarrow>
     ('c, 'g, 'h, 'r) ServerConfiguration \<Rightarrow> 'k \<Rightarrow> 'w Fetcher \<Rightarrow> 'w PushServer \<Rightarrow> bool" where
  "built X S n config k fs ps \<longleftrightarrow>
     (\<exists>fa pa cas. authorizer_of S (FetchAuthorizer config) k fa \<and> authorizer_of S (PushAuthorizer config) k pa \<and>
        storage_of S config k cas \<and>
        newServers X (Libraries S k) n (ApplicationConfiguration.truncate config) cas fa pa = Inr (fs, ps))"

lemma prepareServers_Inr:
  assumes "prepareServers X S n path w = (Done (Inr (config, k, fs, ps)), w')"
  shows "(\<exists>w1 w2. UnmarshalConfigurationFromFile S path w = (Inr config, w1) \<and>
      ApplyConfiguration S (Global config) w1 = (Inr k, w2)) \<and> built X S n config k fs ps"
  using assms unfolding prepareServers_def built_def authorizer_of_def storage_of_def
  by (auto simp: tryM_Inr_iff wrapped_Inr bindM_Done_iff call_run) metis

text \<open>The set-up does not serve.\<close>

lemma prepareServers_serves_nothing: "prepareServers X (S\<lparr>NewServersAndServe := g\<rparr>) n path = prepareServers X S n path"
  by (simp add: prepareServers_def)

lemma main_cases:
  assumes run: "main X S n args w = (Done r, w')"
  obtains (unserved) e where "r = Inl e" "\<And>g. main X (S\<lparr>NewServersAndServe := g\<rparr>) n args w = (Done r, w')"
    | (served) config k fs ps w1 e w2 where "length args = 2"
      "prepareServers X S n (args ! 1) w = (Done (Inr (config, k, fs, ps)), w1)"
      "NewServersAndServe S (GrpcServers config) (registerServices fs ps) k w1 = (e, w2)"
      "case e of Some err \<Rightarrow> r = Inl (StatusWrapf X err ''gRPC server failure'') \<and> w' = w2
       | None \<Rightarrow> r = Inr () \<and> w' = snd (MarkReadyAndWait S w2)"
proof (cases "length args = 2")
  case True
  obtain x w1 where prepared: "prepareServers X S n (args ! 1) w = (x, w1)" by fastforce
  show thesis
  proof (cases "\<exists>c. x = Done (Inr c)")
    case False
    with run prepared True that(1) show thesis
      by (auto simp: main_def prepareServers_serves_nothing tryM_def bindM_def split: run.split_asm run.split sum.split_asm sum.split)
  next
    case ok: True
    then obtain config k fs ps where x: "x = Done (Inr (config, k, fs, ps))" by (metis prod_cases4)
    obtain e w2 where served: "NewServersAndServe S (GrpcServers config) (registerServices fs ps) k w1 = (e, w2)" by fastforce
    with run prepared x True have "case e of Some err \<Rightarrow> r = Inl (StatusWrapf X err ''gRPC server failure'') \<and> w' = w2
        | None \<Rightarrow> r = Inr () \<and> w' = snd (MarkReadyAndWait S w2)"
      by (auto simp: main_def tryM_Inr bindM_Done call_run split: option.split)
    with that(2) True prepared x served show thesis by blast
  qed
qed (use run that(1) in \<open>auto simp: main_def\<close>)

end
