(* ===== verification/StartupProperties.thy ===== *)
theory StartupProperties
  imports Startup ExampleService
begin

section \<open>Properties of the process\<close>

subsection \<open>An example process\<close>

text \<open>Its configuration messages are numbers; serving counts as one log line, in which the
  number of services registered is kept.\<close>

definition example_server_config :: "(nat, bool, unit, unit) ServerConfiguration" where
  "example_server_config = ApplicationConfiguration.extend (example_config (BackendBlobAccess True))
     \<lparr>Global = 0, FetchAuthorizer = 1, PushAuthorizer = 2, ZstdPool = 3, ContentAddressableStorage = 4, GrpcServers = 5\<rparr>"

definition example_process ::
  "(nat, unit, unit, bool, unit, unit, string, string \<times> DigestFunction_Value, Digest, blob, nat, nat, unit, world) process" where
  "example_process = \<lparr>
     UnmarshalConfigurationFromFile = (\<lambda>path w.
       (if path = ''conf.jsonnet'' then Inr example_server_config else Inl (PlainError ''no such file''), w)),
     ApplyConfiguration = (\<lambda>c w. (Inr (), w)),
     NewAuthorizerFromConfiguration = (\<lambda>c k w. (if c = 1 \<or> c = 2 then Inr always else Inl (PlainError ''authorizer''), w)),
     NewPoolFromConfiguration = (\<lambda>c w. ((), w)),
     NewCASBlobAccess = (\<lambda>c k lim p w. (if c = 4 \<and> lim = 100 then Inr objects_ba else Inl (PlainError ''storage''), w)),
     Libraries = (\<lambda>k. example_env),
     NewServersAndServe = (\<lambda>c register k w. (None, w\<lparr>logged := length (register [])\<rparr>)),
     MarkReadyAndWait = (\<lambda>w. ((), w))\<rparr>"

lemma example_main:
  "main world_X example_process 3 [''bb_remote_asset'', ''conf.jsonnet''] world0 =
     (Done (Inr ()), world0\<lparr>logged := 2\<rparr>)"
proof -
  have [simp]: "ApplicationConfiguration.truncate example_server_config = example_config (BackendBlobAccess True)"
    by (simp add: example_server_config_def ApplicationConfiguration.defs example_config_def)
  have [simp]: "FetchAuthorizer example_server_config = 1" "PushAuthorizer example_server_config = 2"
    "ContentAddressableStorage example_server_config = 4" "MaximumMessageSizeBytes example_server_config = 100"
    by (simp_all add: example_server_config_def ApplicationConfiguration.defs example_config_def)
  show ?thesis
    by (simp add: main_def prepareServers_def wrapped_def example_process_def example_servers registerServices_def
        tryM_def bindM_assoc bindM_def call_run)
qed

lemma example_main_fails:
  "main world_X example_process 3 [''bb_remote_asset'', ''other''] world0 =
     (Done (Inl (StatusWrapf world_X (PlainError ''no such file'') ''Failed to read configuration from other'')), world0)"
  by (simp add: main_def prepareServers_def wrapped_def example_process_def tryM_def bindM_assoc bindM_def call_run)

subsection \<open>What the process serves\<close>

text \<open>C32: the process ends with an error and has served nothing, or it has served exactly the fetch
  and push server that the configuration describes, each behind the authorizer of its own field;
  it then returns the error of serving, if there was one, and waits otherwise.\<close>

theorem main_serves_configuration:
  assumes "main X S n args w = (Done r, w')"
  shows "(isl r \<and> (\<forall>g. main X (S\<lparr>NewServersAndServe := g\<rparr>) n args w = (Done r, w'))) \<or>
    (\<exists>config k fa pa cas fs ps w1 w2 w3 w4 e.
       length args = 2 \<and> UnmarshalConfigurationFromFile S (args ! 1) w = (Inr config, w1) \<and>
       ApplyConfiguration S (Global config) w1 = (Inr k, w2) \<and>
       authorizer_of S (FetchAuthorizer config) k fa \<and> authorizer_of S (PushAuthorizer config) k pa \<and>
       storage_of S config k cas \<and>
       newServers X (Libraries S k) n (ApplicationConfiguration.truncate config) cas fa pa = Inr (fs, ps) \<and>
       NewServersAndServe S (GrpcServers config) (\<lambda>s. s @ [FetchService fs, PushService ps]) k w3 = (e, w4) \<and>
       (case e of Some err \<Rightarrow> r = Inl (StatusWrapf X err ''gRPC server failure'') \<and> w' = w4
        | None \<Rightarrow> r = Inr () \<and> w' = snd (MarkReadyAndWait S w4)))"
  using assms
proof (cases rule: main_cases)
  case (served config k fs ps w1 e w2)
  from prepareServers_Inr [OF served(2)] obtain v1 v2 where
    "UnmarshalConfigurationFromFile S (args ! 1) w = (Inr config, v1)"
    "ApplyConfiguration S (Global config) v1 = (Inr k, v2)" "built X S n config k fs ps" by blast
  moreover have "registerServices fs ps = (\<lambda>s. s @ [FetchService fs, PushService ps])"
    by (simp add: fun_eq_iff registerServices_def)
  ultimately show ?thesis using served(1,3,4) unfolding built_def by metis
qed simp

theorem main_serves_configuration_witness:
  "\<exists>config k fa pa cas fs ps w1 w2 w3 w4 e.
     UnmarshalConfigurationFromFile example_process ([''bb_remote_asset'', ''conf.jsonnet''] ! 1) world0 = (Inr config, w1) \<and>
     ApplyConfiguration example_process (Global config) w1 = (Inr k, w2) \<and>
     authorizer_of example_process (FetchAuthorizer config) k fa \<and>
     authorizer_of example_process (PushAuthorizer config) k pa \<and> storage_of example_process config k cas \<and>
     newServers world_X (Libraries example_process k) 3 (ApplicationConfiguration.truncate config) cas fa pa = Inr (fs, ps) \<and>
     NewServersAndServe example_process (GrpcServers config) (\<lambda>s. s @ [FetchService fs, PushService ps]) k w3 = (e, w4)"
  using main_serves_configuration [OF example_main]
  by (elim disjE exE conjE) (simp, intro exI conjI, assumption+)

end
