(* ===== verification/AssetStorage.thy ===== *)
theory AssetStorage
  imports Messages
begin

section \<open>Asset storage (pkg/storage/blobstore)\<close>

text \<open>
  What bb-storage is told in order to build blob accesses that hold assets: how to make buffers
  of what they hold, and which backends there are. Of bb-storage's own types only what passes
  through here has a name: buffers \<open>'b\<close>, digests \<open>'d\<close>, the callback for integrity errors
  \<open>'k\<close>; its constructors are \<open>buffer_ext\<close> and \<open>access_ext\<close>.

  A storage backend may hold an asset as a \<open>ReaderAt\<close>, which reads at an offset; bb-storage
  wants a \<open>Reader\<close>, which reads on. \<open>io.SectionReader\<close> of the standard library makes the
  one of the other. Its offsets are of 64 bits, signed, and so they are here.
\<close>

unbundle bit_operations_syntax

type_synonym int64 = "64 word"

definition MaxInt64 :: int64 where "MaxInt64 = 0x7FFFFFFFFFFFFFFF"

text \<open>\<open>io.EOF\<close> and the other errors of a read.\<close>

datatype io_error = EOF | OtherError error

text \<open>A \<open>Reader\<close> reads into a slice of a given length; it has a state of its own (\<open>'r\<close>).
  A \<open>ReaderAt\<close> has none.\<close>

record ('r, 'w) ReadCloser =
  Read :: "'r \<Rightarrow> nat \<Rightarrow> 'w \<Rightarrow> (bytes \<times> io_error option) \<times> 'r \<times> 'w"
  Close :: "'w \<Rightarrow> error option \<times> 'w"
  reader :: 'r

record 'w ReadAtCloser =
  ReadAt :: "nat \<Rightarrow> int64 \<Rightarrow> 'w \<Rightarrow> (bytes \<times> io_error option) \<times> 'w"
  CloseAt :: "'w \<Rightarrow> error option \<times> 'w"

subsection \<open>io.SectionReader\<close>

record 'w SectionReader =
  sectionReaderAt :: "nat \<Rightarrow> int64 \<Rightarrow> 'w \<Rightarrow> (bytes \<times> io_error option) \<times> 'w"
  base :: int64
  off :: int64
  limit :: int64

definition NewSectionReader ::
  "(nat \<Rightarrow> int64 \<Rightarrow> 'w \<Rightarrow> (bytes \<times> io_error option) \<times> 'w) \<Rightarrow> int64 \<Rightarrow> int64 \<Rightarrow> 'w SectionReader" where
  "NewSectionReader r start n =
     \<lparr>sectionReaderAt = r, base = start, off = start,
      limit = if start \<le>s MaxInt64 - n then n + start else MaxInt64\<rparr>"

text \<open>The length of a slice is a non-negative \<open>int\<close>; a \<open>len\<close> beyond it does not occur.\<close>

definition SectionReader_Read ::
  "'w SectionReader \<Rightarrow> nat \<Rightarrow> 'w \<Rightarrow> (bytes \<times> io_error option) \<times> 'w SectionReader \<times> 'w" where
  "SectionReader_Read s len w =
    (if limit s \<le>s off s then (([], Some EOF), s, w)
     else
       let max = limit s - off s;
           len = (if max <s word_of_nat len then unat max else len);
           ((p, err), w) = sectionReaderAt s len (off s) w
       in ((p, err), s\<lparr>off := off s + word_of_nat (length p)\<rparr>, w))"

definition newReaderFromReaderAt :: "'w ReadAtCloser \<Rightarrow> ('w SectionReader, 'w) ReadCloser" where
  "newReaderFromReaderAt r =
     \<lparr>Read = SectionReader_Read, Close = CloseAt r, reader = NewSectionReader (ReadAt r) 0 MaxInt64\<rparr>"

subsection \<open>The read buffer factory (asset_read_buffer_factory.go)\<close>

record ('k, 's, 'w, 'b) buffer_ext =
  BackendProvided :: "'k \<Rightarrow> 's"
  NewProtoBufferFromByteSlice :: "message_kind \<Rightarrow> bytes \<Rightarrow> 's \<Rightarrow> 'b"
  NewProtoBufferFromReader :: "message_kind \<Rightarrow> ('w SectionReader, 'w) ReadCloser \<Rightarrow> 's \<Rightarrow> 'b"

record ('d, 'k, 'w, 'b) ReadBufferFactory =
  NewBufferFromByteSlice :: "'d \<Rightarrow> bytes \<Rightarrow> 'k \<Rightarrow> 'b"
  NewBufferFromReader :: "'d \<Rightarrow> ('w SectionReader, 'w) ReadCloser \<Rightarrow> 'k \<Rightarrow> 'b"
  NewBufferFromReaderAt :: "'d \<Rightarrow> 'w ReadAtCloser \<Rightarrow> int64 \<Rightarrow> 'k \<Rightarrow> 'b"

definition asset_NewBufferFromByteSlice :: "('k, 's, 'w, 'b) buffer_ext \<Rightarrow> 'd \<Rightarrow> bytes \<Rightarrow> 'k \<Rightarrow> 'b" where
  "asset_NewBufferFromByteSlice B digest data dataIntegrityCallback =
     NewProtoBufferFromByteSlice B KAsset data (BackendProvided B dataIntegrityCallback)"

definition asset_NewBufferFromReader ::
  "('k, 's, 'w, 'b) buffer_ext \<Rightarrow> 'd \<Rightarrow> ('w SectionReader, 'w) ReadCloser \<Rightarrow> 'k \<Rightarrow> 'b" where
  "asset_NewBufferFromReader B digest r dataIntegrityCallback =
     NewProtoBufferFromReader B KAsset r (BackendProvided B dataIntegrityCallback)"

definition asset_NewBufferFromReaderAt ::
  "('k, 's, 'w, 'b) buffer_ext \<Rightarrow> 'd \<Rightarrow> 'w ReadAtCloser \<Rightarrow> int64 \<Rightarrow> 'k \<Rightarrow> 'b" where
  "asset_NewBufferFromReaderAt B digest r sizeBytes dataIntegrityCallback =
     asset_NewBufferFromReader B digest (newReaderFromReaderAt r) dataIntegrityCallback"

definition AssetReadBufferFactory :: "('k, 's, 'w, 'b) buffer_ext \<Rightarrow> ('d, 'k, 'w, 'b) ReadBufferFactory" where
  "AssetReadBufferFactory B =
     \<lparr>NewBufferFromByteSlice = asset_NewBufferFromByteSlice B,
      NewBufferFromReader = asset_NewBufferFromReader B,
      NewBufferFromReaderAt = asset_NewBufferFromReaderAt B\<rparr>"

subsection \<open>The creators (asset_blob_access_creator.go, asset_blob_access_replicator.go)\<close>

text \<open>bb-storage builds a blob access from its configuration and asks a creator for what depends
  on the kind of object. Assets are kept per instance name, have no backends or replicators of
  their own, and in local storage there is one block for new objects. The client factory and the
  message size that the creator is made with are never read.\<close>

datatype KeyFormat = KeyWithInstance | KeyWithoutInstance

record ('r, 'x) BlobReplicatorCreator =
  GetDigestKeyFormat :: KeyFormat
  NewCustomBlobReplicator :: "'r \<Rightarrow> error + 'x"

record ('r, 'x, 'q, 'a, 'i, 'd, 'k, 'w, 'b, 'v, 'g, 'l) BlobAccessCreator = "('r, 'x) BlobReplicatorCreator" +
  GetBaseDigestKeyFormat :: KeyFormat
  GetReadBufferFactory :: "('d, 'k, 'w, 'b) ReadBufferFactory"
  GetStorageTypeName :: string
  NewCustomBlobAccess :: "'q \<Rightarrow> error + 'i \<times> string"
  WrapTopLevelBlobAccess :: "'a \<Rightarrow> 'a"
  GetDefaultCapabilitiesProvider :: 'v
  NewBlockListGrowthPolicy :: "int \<Rightarrow> int \<Rightarrow> error + 'g"
  NewHierarchicalInstanceNamesLocalBlobAccess :: "'l \<Rightarrow> error + 'a"

record ('v, 'g) access_ext =
  NewStaticProvider :: 'v
  NewMutableBlockListGrowthPolicy :: "int \<Rightarrow> 'g"

definition asset_NewCustomBlobReplicator :: "'r \<Rightarrow> error + 'x" where
  "asset_NewCustomBlobReplicator configuration =
     Inl (StatusError code_InvalidArgument ''Configuration did not contain a supported replicator'')"

definition AssetBlobReplicatorCreator :: "('r, 'x) BlobReplicatorCreator" where
  "AssetBlobReplicatorCreator =
     \<lparr>GetDigestKeyFormat = KeyWithInstance, NewCustomBlobReplicator = asset_NewCustomBlobReplicator\<rparr>"

definition asset_NewCustomBlobAccess :: "'q \<Rightarrow> error + 'i \<times> string" where
  "asset_NewCustomBlobAccess config =
     Inl (StatusError code_InvalidArgument ''Configuration did not contain a supported storage backend'')"

definition asset_NewBlockListGrowthPolicy :: "('v, 'g) access_ext \<Rightarrow> int \<Rightarrow> int \<Rightarrow> error + 'g" where
  "asset_NewBlockListGrowthPolicy L currentBlocks newBlocks =
    (if newBlocks \<noteq> 1 then
       Inl (StatusError code_InvalidArgument (''The number of '' @ [CHR 0x22] @ ''new'' @ [CHR 0x22] @
         '' blocks must be set to 1 for this storage type, as objects cannot be updated reliably otherwise''))
     else Inr (NewMutableBlockListGrowthPolicy L currentBlocks))"

definition asset_NewHierarchicalInstanceNamesLocalBlobAccess :: "'l \<Rightarrow> error + 'a" where
  "asset_NewHierarchicalInstanceNamesLocalBlobAccess maps = Inl (StatusError code_Unimplemented
     ''NewHierarchicalInstanceNamesLocalBlobAccess unimplemeted for assetBlobAccessCreator'')"

text \<open>The embedded replicator creator's methods are promoted, but for the type name, which is the
  access creator's own.\<close>

definition NewAssetBlobAccessCreator ::
  "('v, 'g) access_ext \<Rightarrow> ('k, 's, 'w, 'b) buffer_ext \<Rightarrow>
     ('r, 'x, 'q, 'a, 'i, 'd, 'k, 'w, 'b, 'v, 'g, 'l) BlobAccessCreator" where
  "NewAssetBlobAccessCreator L B =
     \<lparr>GetDigestKeyFormat = GetDigestKeyFormat AssetBlobReplicatorCreator,
      NewCustomBlobReplicator = NewCustomBlobReplicator AssetBlobReplicatorCreator,
      GetBaseDigestKeyFormat = KeyWithInstance,
      GetReadBufferFactory = AssetReadBufferFactory B,
      GetStorageTypeName = ''asset'',
      NewCustomBlobAccess = asset_NewCustomBlobAccess,
      WrapTopLevelBlobAccess = (\<lambda>blobAccess. blobAccess),
      GetDefaultCapabilitiesProvider = NewStaticProvider L,
      NewBlockListGrowthPolicy = asset_NewBlockListGrowthPolicy L,
      NewHierarchicalInstanceNamesLocalBlobAccess = asset_NewHierarchicalInstanceNamesLocalBlobAccess\<rparr>"

subsection \<open>What a reader of a ReaderAt reads\<close>

text \<open>The contract of \<open>io.ReaderAt\<close>, for one that holds the bytes \<open>content w\<close>: it fills the
  slice as far as there are bytes, and says \<open>EOF\<close> if it could not fill it, and at most when it
  reached the end.\<close>

definition reads_at :: "'w ReadAtCloser \<Rightarrow> ('w \<Rightarrow> bytes) \<Rightarrow> bool" where
  "reads_at r content \<longleftrightarrow> (\<forall>len pos w p err w'. 0 \<le> sint pos \<longrightarrow> ReadAt r len pos w = ((p, err), w') \<longrightarrow>
     content w' = content w \<and> p = take len (drop (nat (sint pos)) (content w)) \<and>
     (length p < len \<longrightarrow> err = Some EOF) \<and>
     (err = None \<or> err = Some EOF \<and> length (content w) \<le> nat (sint pos) + len))"

lemma reads_atD:
  assumes "reads_at r content" "ReadAt r len pos w = ((p, err), w')" "sint pos = int k"
  shows "content w' = content w" "p = take len (drop k (content w))" "length p < len \<Longrightarrow> err = Some EOF"
    "err = None \<or> err = Some EOF \<and> length (content w) \<le> k + len"
  using assms unfolding reads_at_def by (metis nat_int of_nat_0_le_iff)+

lemma sint_nat: "n < 2 ^ 63 \<Longrightarrow> sint (word_of_nat n :: int64) = int n"
  by (simp add: sint_uint unsigned_of_nat take_bit_nat_eq_self signed_take_bit_int_eq_self)

lemma unat_nat: "n < 2 ^ 63 \<Longrightarrow> unat (word_of_nat n :: int64) = n"
  by (simp add: unsigned_of_nat take_bit_nat_eq_self)

lemma MaxInt64_nat: "MaxInt64 = word_of_nat (2 ^ 63 - 1)"
  by (simp add: MaxInt64_def)

lemma minus_nat: "m \<le> n \<Longrightarrow> (word_of_nat n :: int64) - word_of_nat m = word_of_nat (n - m)"
  by (simp add: of_nat_diff)

text \<open>A reader that has read \<open>k\<close> bytes.\<close>

definition reader_at :: "'w ReadAtCloser \<Rightarrow> nat \<Rightarrow> 'w SectionReader" where
  "reader_at r k = \<lparr>sectionReaderAt = ReadAt r, base = 0, off = word_of_nat k, limit = MaxInt64\<rparr>"

lemma new_reader: "reader (newReaderFromReaderAt r) = reader_at r 0"
  by (simp add: newReaderFromReaderAt_def NewSectionReader_def reader_at_def word_sle_eq)

lemma SectionReader_Read_run:
  assumes at: "reads_at r content" and sizes: "k \<le> length (content w)" "length (content w) < 2 ^ 63" "n < 2 ^ 63"
    and run: "SectionReader_Read (reader_at r k) n w = ((p, err), s, w')"
  shows "p = take n (drop k (content w)) \<and> s = reader_at r (k + length p) \<and> content w' = content w \<and>
    (err = None \<or> err = Some EOF) \<and> (err = Some EOF \<longrightarrow> k + length p = length (content w)) \<and>
    (p = [] \<longrightarrow> 0 < n \<longrightarrow> err = Some EOF)"
proof (cases "k = 2 ^ 63 - 1")
  case True
  with sizes run show ?thesis
    by (auto simp: SectionReader_Read_def reader_at_def MaxInt64_nat word_sle_eq)
next
  case False
  with sizes have k: "k < 2 ^ 63 - 1" by linarith
  define m where "m = 2 ^ 63 - 1 - k"
  have m: "0 < m" "m < 2 ^ 63" "length (content w) \<le> k + m" using k sizes(2) by (simp_all add: m_def)
  have small: "k < 2 ^ 63" using k by simp
  have sk: "sint (word_of_nat k :: int64) = int k" by (rule sint_nat) (rule small)
  have open_end: "\<not> MaxInt64 \<le>s word_of_nat k"
    using k by (simp add: word_sle_eq MaxInt64_nat sint_nat small del: of_nat_diff of_nat_numeral of_nat_power)
  have left: "MaxInt64 - word_of_nat k = (word_of_nat m :: int64)"
    unfolding MaxInt64_nat m_def by (rule minus_nat) (use k in simp)
  define l where "l = (if m < n then m else n)"
  have l: "(if MaxInt64 - word_of_nat k <s (word_of_nat n :: int64) then unat (MaxInt64 - word_of_nat k :: int64) else n) = l"
    using m(2) sizes(3) unfolding left by (simp add: l_def word_sless_alt sint_nat unat_nat)
  obtain q e v where read: "ReadAt r l (word_of_nat k) w = ((q, e), v)" by (metis surj_pair)
  from run read have res: "p = q" "err = e" "w' = v" "s = reader_at r (k + length q)"
    by (auto simp: SectionReader_Read_def reader_at_def open_end l Let_def)
  note at = reads_atD [OF at read sk]
  have "take l (drop k (content w)) = take n (drop k (content w))" using m(3) by (simp add: l_def)
  moreover have "k + length q = length (content w)" if "e = Some EOF"
    using at(2,4) that sizes(1) by auto
  moreover have "e = Some EOF" if "q = []" "0 < n"
    using at(3) that m(1) by (simp add: l_def split: if_split_asm)
  ultimately show ?thesis
    using at(1,2,4) unfolding res by blast
qed

text \<open>Reading on with slices of the lengths \<open>ns\<close>.\<close>

fun reads :: "('r, 'w) ReadCloser \<Rightarrow> 'r \<Rightarrow> nat list \<Rightarrow> 'w \<Rightarrow> (bytes \<times> io_error option) list \<times> 'w" where
  "reads R s [] w = ([], w)"
| "reads R s (n # ns) w =
     (let (x, s, w) = Read R s n w; (xs, w) = reads R s ns w in (x # xs, w))"

lemma reads_reader_at:
  assumes at: "reads_at r content" and ns: "\<forall>n\<in>set ns. n < 2 ^ 63"
    and sizes: "k \<le> length (content w)" "length (content w) < 2 ^ 63"
    and run: "reads (newReaderFromReaderAt r) (reader_at r k) ns w = (xs, w')"
  shows "concat (map fst xs) = take (sum_list ns) (drop k (content w)) \<and>
    list_all2 (\<lambda>n (p, err). (err = None \<or> err = Some EOF) \<and> (p = [] \<longrightarrow> 0 < n \<longrightarrow> err = Some EOF)) ns xs \<and>
    (\<forall>i<length xs. snd (xs ! i) = Some EOF \<longrightarrow> concat (map fst (take (Suc i) xs)) = drop k (content w))"
  using ns sizes run
proof (induction ns arbitrary: k w xs)
  case (Cons n ns)
  obtain p err s v where first: "SectionReader_Read (reader_at r k) n w = ((p, err), s, v)" by (metis surj_pair)
  have "n < 2 ^ 63" using Cons.prems(1) by simp
  from SectionReader_Read_run [OF at Cons.prems(2,3) this first]
  have p: "p = take n (drop k (content w))" and s: "s = reader_at r (k + length p)" and same: "content v = content w"
    and err: "err = None \<or> err = Some EOF" "err = Some EOF \<longrightarrow> k + length p = length (content w)"
      "p = [] \<longrightarrow> 0 < n \<longrightarrow> err = Some EOF" by blast+
  obtain ys where rest: "reads (newReaderFromReaderAt r) (reader_at r (k + length p)) ns v = (ys, w')"
    and xs: "xs = (p, err) # ys"
    using Cons.prems(4) first unfolding s
    by (auto simp: newReaderFromReaderAt_def split: prod.split_asm)
  have bound: "k + length p \<le> length (content w)" using p Cons.prems(2) by simp
  have drop: "drop (k + length p) (content w) = drop n (drop k (content w))"
    unfolding p by (cases "n \<le> length (content w) - k") (simp_all add: add.commute)
  note ih = Cons.IH [OF _ _ _ rest, unfolded same drop]
  have split: "p @ drop n (drop k (content w)) = drop k (content w)" unfolding p by (rule append_take_drop_id)
  show ?case
  proof (intro conjI allI impI)
    show "concat (map fst xs) = take (sum_list (n # ns)) (drop k (content w))"
      using ih Cons.prems(1,3) bound by (simp add: xs p take_add)
    show "list_all2 (\<lambda>n (p, err). (err = None \<or> err = Some EOF) \<and> (p = [] \<longrightarrow> 0 < n \<longrightarrow> err = Some EOF)) (n # ns) xs"
      using ih Cons.prems(1,3) bound err by (simp add: xs)
    fix i assume "i < length xs" "snd (xs ! i) = Some EOF"
    then show "concat (map fst (take (Suc i) xs)) = drop k (content w)"
      using ih Cons.prems(1,3) bound err(2) split drop by (cases i) (auto simp: xs)
  qed
qed simp

subsection \<open>Property\<close>

text \<open>C33: an asset that storage holds as a \<open>ReaderAt\<close> is read whole: the reader that the
  factory makes of it gives, for slices of any lengths, the bytes from the first on, none missing
  and none twice, whatever the size the factory is told; it says \<open>EOF\<close> only when it gave all of
  them, and says so at the latest when asked again. Offsets do not overflow.\<close>

theorem asset_reader_complete:
  assumes "reads_at r content" "length (content w) < 2 ^ 63" "\<forall>n\<in>set ns. n < 2 ^ 63"
  shows "\<exists>R. NewBufferFromReaderAt (AssetReadBufferFactory B) d r sizeBytes k =
      NewProtoBufferFromReader B KAsset R (BackendProvided B k) \<and>
    (\<forall>xs w'. reads R (reader R) ns w = (xs, w') \<longrightarrow>
      concat (map fst xs) = take (sum_list ns) (content w) \<and>
      list_all2 (\<lambda>n (p, err). (err = None \<or> err = Some EOF) \<and> (p = [] \<longrightarrow> 0 < n \<longrightarrow> err = Some EOF)) ns xs \<and>
      (\<forall>i<length xs. snd (xs ! i) = Some EOF \<longrightarrow> concat (map fst (take (Suc i) xs)) = content w))"
proof (intro exI [of _ "newReaderFromReaderAt r"] conjI allI impI)
  show "NewBufferFromReaderAt (AssetReadBufferFactory B) d r sizeBytes k =
      NewProtoBufferFromReader B KAsset (newReaderFromReaderAt r) (BackendProvided B k)"
    by (simp add: AssetReadBufferFactory_def asset_NewBufferFromReaderAt_def asset_NewBufferFromReader_def)
qed (use reads_reader_at [OF assms(1,3) _ assms(2), of 0] in \<open>simp_all add: new_reader\<close>)

text \<open>A file of five bytes, read two bytes at a time.\<close>

definition example_file :: "unit ReadAtCloser" where
  "example_file = \<lparr>ReadAt = (\<lambda>n pos w. let p = take n (drop (nat (sint pos)) [1, 2, 3, 4, 5])
     in ((p, if length p < n then Some EOF else None), w)), CloseAt = (\<lambda>w. (None, w))\<rparr>"

lemma example_file_reads: "reads_at example_file (\<lambda>w. [1, 2, 3, 4, 5])"
  by (auto simp: reads_at_def example_file_def Let_def)

definition reader_kept :: "(unit, unit, unit, (unit SectionReader, unit) ReadCloser) buffer_ext" where
  "reader_kept = \<lparr>BackendProvided = id, NewProtoBufferFromByteSlice = \<lambda>k b s. newReaderFromReaderAt example_file,
     NewProtoBufferFromReader = \<lambda>k r s. r\<rparr>"

theorem asset_reader_complete_witness:
  "\<exists>R xs w'. NewBufferFromReaderAt (AssetReadBufferFactory reader_kept) () example_file 0 () = R \<and>
    reads R (reader R) [2, 2, 2] () = (xs, w') \<and> concat (map fst xs) = [1, 2, 3, 4, 5]"
proof -
  obtain R where R: "NewBufferFromReaderAt (AssetReadBufferFactory reader_kept) () example_file 0 () = R"
    and run: "\<And>xs w'. reads R (reader R) [2, 2, 2] () = (xs, w') \<Longrightarrow> concat (map fst xs) = take (sum_list [2, 2, 2]) [1, 2, 3, 4, 5]"
    using asset_reader_complete [OF example_file_reads, where w = "()" and ns = "[2, 2, 2]" and k = "()"
        and d = "()" and sizeBytes = 0 and B = reader_kept]
    by (auto simp: reader_kept_def simp del: reads.simps)
  obtain xs w' where "reads R (reader R) [2, 2, 2] () = (xs, w')" by (metis surj_pair)
  with R run [OF this] show ?thesis by (intro exI [of _ R] exI [of _ xs] exI [of _ w'] conjI) simp_all
qed

end
