(* ===== verification/Metrics.thy ===== *)
theory Metrics
  imports ObserverFetchers PushServer
begin

section \<open>Registration of metrics (metrics_fetcher.go, metrics_push_server.go)\<close>

text \<open>
  The vectors of histograms are variables of the package; a \<open>sync.Once\<close> guards that each is
  registered once, however many fetchers or servers are made. A vector that gets some of its
  labels (\<open>MustCurryWith\<close>) is used with values for the rest. Registering twice and the wrong
  number of labels are panics of Prometheus, which is \<open>prometheus\<close>; its registry is
  \<open>'p\<close>, an observer vector \<open>'v\<close>, an observer \<open>'o\<close>. The buckets are left out.
\<close>

record HistogramVec =
  Namespace :: string
  Subsystem :: string
  MetricName :: string
  Help :: string
  Labels :: "string list"

record ('p, 'v, 'o) prometheus =
  ObserverVec :: "HistogramVec \<Rightarrow> 'v"
  MustRegister :: "HistogramVec \<Rightarrow> 'p \<Rightarrow> unit run \<times> 'p"
  MustCurryWith :: "'v \<Rightarrow> (string \<rightharpoonup> string) \<Rightarrow> 'v run"
  WithLabelValues :: "'v \<Rightarrow> string list \<Rightarrow> 'o run"

text \<open>The variables of the two packages, with the registry.\<close>

record 'p package_vars =
  httpFetcherOperationsPrometheusMetrics :: bool
  assetStoreOperationsPrometheusMetrics :: bool
  registry :: 'p

text \<open>\<open>(*sync.Once).Do\<close>: a call of \<open>f\<close> that panics counts as done, too.\<close>

definition once_Do :: "('s \<Rightarrow> bool) \<Rightarrow> ('s \<Rightarrow> 's) \<Rightarrow> ('s, unit) comp \<Rightarrow> ('s, unit) comp" where
  "once_Do is_done mark f = (\<lambda>s. if is_done s then (Done (), s) else (case f s of (r, s') \<Rightarrow> (r, mark s')))"

definition register :: "('p, 'v, 'o) prometheus \<Rightarrow> HistogramVec \<Rightarrow> ('p package_vars, unit) comp" where
  "register P h = (\<lambda>s. case MustRegister P h (registry s) of (r, p) \<Rightarrow> (r, s\<lparr>registry := p\<rparr>))"

subsection \<open>The fetcher's metrics\<close>

definition httpFetcherOperationsBlobSizeBytes :: HistogramVec where
  "httpFetcherOperationsBlobSizeBytes = \<lparr>Namespace = ''buildbarn'', Subsystem = ''remote_asset'',
     MetricName = ''http_fetcher_blob_size_bytes'', Help = ''Size of blobs fetched using the http fetcher, in bytes'',
     Labels = [''name'', ''operation'', ''resource_type'']\<rparr>"

definition blobAccessOperationsDurationSeconds :: HistogramVec where
  "blobAccessOperationsDurationSeconds = \<lparr>Namespace = ''buildbarn'', Subsystem = ''remote_asset'',
     MetricName = ''http_fetcher_duration_seconds'',
     Help = ''Amount of time spent per operation on fetching remote assets, in seconds.'',
     Labels = [''name'', ''operation'', ''status'', ''resource_type'']\<rparr>"

record 'v observers =
  blobBlobSizeBytes :: 'v
  blobDurationSeconds :: 'v
  directoryDurationSeconds :: 'v

definition fetcher_metrics :: "('p, 'v, 'o) prometheus \<Rightarrow> string \<Rightarrow> ('p package_vars, 'v observers) comp" where
  "fetcher_metrics P name =
     bindM (once_Do httpFetcherOperationsPrometheusMetrics (\<lambda>s. s\<lparr>httpFetcherOperationsPrometheusMetrics := True\<rparr>)
       (bindM (register P httpFetcherOperationsBlobSizeBytes) (\<lambda>_.
        register P blobAccessOperationsDurationSeconds))) (\<lambda>_.
     bindM (lift (MustCurryWith P (ObserverVec P httpFetcherOperationsBlobSizeBytes)
       [''name'' \<mapsto> name, ''operation'' \<mapsto> ''Fetch Blob''])) (\<lambda>fetchBlobBlobSizeBytes.
     bindM (lift (MustCurryWith P (ObserverVec P blobAccessOperationsDurationSeconds)
       [''name'' \<mapsto> name, ''operation'' \<mapsto> ''FetchBlob''])) (\<lambda>fetchBlobDurationSeconds.
     bindM (lift (MustCurryWith P (ObserverVec P blobAccessOperationsDurationSeconds)
       [''name'' \<mapsto> name, ''operation'' \<mapsto> ''FetchDirectory''])) (\<lambda>fetchDirectoryDurationSeconds.
     ret \<lparr>blobBlobSizeBytes = fetchBlobBlobSizeBytes, blobDurationSeconds = fetchBlobDurationSeconds,
       directoryDurationSeconds = fetchDirectoryDurationSeconds\<rparr>))))"

subsection \<open>The push server's metrics\<close>

definition pushServerOperationsBlobSizeBytes :: HistogramVec where
  "pushServerOperationsBlobSizeBytes = \<lparr>Namespace = ''buildbarn'', Subsystem = ''push_server'',
     MetricName = ''push_server_blob_size_bytes'', Help = ''Size of blobs being pushed, in bytes.'',
     Labels = [''name'', ''operation'', ''resource_type'']\<rparr>"

definition pushServerOperationsDurationSeconds :: HistogramVec where
  "pushServerOperationsDurationSeconds = \<lparr>Namespace = ''buildbarn'', Subsystem = ''push_server'',
     MetricName = ''blob_access_duration_seconds'',
     Help = ''Amount of time spent per operation on pushing remote assets, in seconds.'',
     Labels = [''name'', ''operation'', ''grpc_code'', ''resource_type'']\<rparr>"

definition push_metrics :: "('p, 'v, 'o) prometheus \<Rightarrow> string \<Rightarrow> ('p package_vars, 'v observers) comp" where
  "push_metrics P name =
     bindM (once_Do assetStoreOperationsPrometheusMetrics (\<lambda>s. s\<lparr>assetStoreOperationsPrometheusMetrics := True\<rparr>)
       (bindM (register P pushServerOperationsBlobSizeBytes) (\<lambda>_.
        register P pushServerOperationsDurationSeconds))) (\<lambda>_.
     bindM (lift (MustCurryWith P (ObserverVec P pushServerOperationsBlobSizeBytes)
       [''name'' \<mapsto> name, ''operation'' \<mapsto> ''PushBlob''])) (\<lambda>pushBlobBlobSizeBytes.
     bindM (lift (MustCurryWith P (ObserverVec P pushServerOperationsDurationSeconds)
       [''name'' \<mapsto> name, ''operation'' \<mapsto> ''PushBlob''])) (\<lambda>pushBlobDurationSeconds.
     bindM (lift (MustCurryWith P (ObserverVec P pushServerOperationsDurationSeconds)
       [''name'' \<mapsto> name, ''operation'' \<mapsto> ''PushDirectory''])) (\<lambda>pushDirectoryDurationSeconds.
     ret \<lparr>blobBlobSizeBytes = pushBlobBlobSizeBytes, blobDurationSeconds = pushBlobDurationSeconds,
       directoryDurationSeconds = pushDirectoryDurationSeconds\<rparr>))))"

text \<open>The observers that \<open>updateDurationSeconds\<close> and \<open>updateBlobSizeBytes\<close> look up;
  \<open>codeName\<close> is \<open>codes.Code.String\<close>.\<close>

definition durationObserver ::
  "('p, 'v, 'o) prometheus \<Rightarrow> (Code \<Rightarrow> string) \<Rightarrow> 'v \<Rightarrow> Code \<Rightarrow> string \<Rightarrow> 'o run" where
  "durationObserver P codeName vec code resourceType = WithLabelValues P vec [codeName code, resourceType]"

definition sizeObserver :: "('p, 'v, 'o) prometheus \<Rightarrow> 'v \<Rightarrow> string \<Rightarrow> 'o run" where
  "sizeObserver P vec resourceType = WithLabelValues P vec [resourceType]"

subsection \<open>What Prometheus promises\<close>

definition fullName :: "HistogramVec \<Rightarrow> string" where
  "fullName h = Namespace h @ ''_'' @ Subsystem h @ ''_'' @ MetricName h"

text \<open>\<open>free v\<close> are the labels of a vector that have no value yet, \<open>names p\<close> the metrics that
  are registered. Label values have to be valid UTF-8 (\<open>utf8\<close>), which ASCII is.\<close>

definition ascii :: "string \<Rightarrow> bool" where "ascii s \<longleftrightarrow> list_all (\<lambda>c. of_char c < (128 :: nat)) s"

definition prometheus_ok ::
  "('p, 'v, 'o) prometheus \<Rightarrow> ('v \<Rightarrow> string list) \<Rightarrow> ('p \<Rightarrow> string set) \<Rightarrow> (string \<Rightarrow> bool) \<Rightarrow> bool" where
  "prometheus_ok P free names utf8 \<longleftrightarrow>
     (\<forall>s. ascii s \<longrightarrow> utf8 s) \<and> (\<forall>h. free (ObserverVec P h) = Labels h) \<and>
     (\<forall>h p. fullName h \<notin> names p \<longrightarrow>
        (\<exists>p'. MustRegister P h p = (Done (), p') \<and> names p' = insert (fullName h) (names p))) \<and>
     (\<forall>v m. dom m \<subseteq> set (free v) \<longrightarrow> Ball (ran m) utf8 \<longrightarrow>
        (\<exists>v'. MustCurryWith P v m = Done v' \<and> free v' = filter (\<lambda>l. l \<notin> dom m) (free v))) \<and>
     (\<forall>v vals. length vals = length (free v) \<longrightarrow> list_all utf8 vals \<longrightarrow> (\<exists>x. WithLabelValues P v vals = Done x))"

lemma prometheus_okD:
  assumes "prometheus_ok P free names utf8"
  shows "ascii s \<Longrightarrow> utf8 s" "free (ObserverVec P h) = Labels h"
    "fullName h \<notin> names p \<Longrightarrow> \<exists>p'. MustRegister P h p = (Done (), p') \<and> names p' = insert (fullName h) (names p)"
    "dom m \<subseteq> set (free v) \<Longrightarrow> Ball (ran m) utf8 \<Longrightarrow>
       \<exists>v'. MustCurryWith P v m = Done v' \<and> free v' = filter (\<lambda>l. l \<notin> dom m) (free v)"
    "length vals = length (free v) \<Longrightarrow> list_all utf8 vals \<Longrightarrow> \<exists>x. WithLabelValues P v vals = Done x"
  using assms unfolding prometheus_ok_def by blast+

subsection \<open>Registration and labels\<close>

text \<open>Registering two vectors with new names, once.\<close>

lemma register_two:
  assumes ok: "prometheus_ok P free names utf8" and new: "fullName h \<notin> names (registry s)" "fullName k \<notin> names (registry s)"
    "fullName h \<noteq> fullName k"
  shows "\<exists>p. bindM (register P h) (\<lambda>_. register P k) s = (Done (), s\<lparr>registry := p\<rparr>) \<and>
    names p = {fullName h, fullName k} \<union> names (registry s)"
proof -
  obtain p where p: "MustRegister P h (registry s) = (Done (), p)" "names p = insert (fullName h) (names (registry s))"
    using prometheus_okD(3) [OF ok new(1)] by blast
  moreover have "fullName k \<notin> names p" using p(2) new by simp
  then obtain q where "MustRegister P k p = (Done (), q)" "names q = insert (fullName k) (names p)"
    using prometheus_okD(3) [OF ok] by blast
  ultimately show ?thesis by (auto simp: bindM_def register_def)
qed

lemma curry_run:
  assumes "prometheus_ok P free names utf8" "''name'' \<in> set (Labels h)" "''operation'' \<in> set (Labels h)" "utf8 n" "utf8 op"
  shows "\<exists>v. MustCurryWith P (ObserverVec P h) [''name'' \<mapsto> n, ''operation'' \<mapsto> op] = Done v \<and>
    free v = filter (\<lambda>l. l \<noteq> ''name'' \<and> l \<noteq> ''operation'') (Labels h)"
proof -
  let ?m = "[''name'' \<mapsto> n, ''operation'' \<mapsto> op]"
  have "ran ?m \<subseteq> {n, op}" by (auto simp: ran_def split: if_split_asm)
  moreover have "dom ?m = {''name'', ''operation''}" by auto
  ultimately show ?thesis
    using prometheus_okD(4) [OF assms(1), of ?m "ObserverVec P h"] assms(2-5)
    by (auto simp: prometheus_okD(2) [OF assms(1)] conj_commute)
qed

text \<open>A vector flag that is not set means that its metrics are not registered.\<close>

abbreviation fetcher_names :: "string set" where
  "fetcher_names \<equiv> {fullName httpFetcherOperationsBlobSizeBytes, fullName blobAccessOperationsDurationSeconds}"

abbreviation push_names :: "string set" where
  "push_names \<equiv> {fullName pushServerOperationsBlobSizeBytes, fullName pushServerOperationsDurationSeconds}"

lemma names_distinct:
  "fullName httpFetcherOperationsBlobSizeBytes \<noteq> fullName blobAccessOperationsDurationSeconds"
  "fullName pushServerOperationsBlobSizeBytes \<noteq> fullName pushServerOperationsDurationSeconds"
  "fetcher_names \<inter> push_names = {}"
  by (simp_all add: fullName_def httpFetcherOperationsBlobSizeBytes_def blobAccessOperationsDurationSeconds_def
      pushServerOperationsBlobSizeBytes_def pushServerOperationsDurationSeconds_def)

definition unregistered_ok :: "('p \<Rightarrow> string set) \<Rightarrow> 'p package_vars \<Rightarrow> bool" where
  "unregistered_ok names s \<longleftrightarrow>
     (\<not> httpFetcherOperationsPrometheusMetrics s \<longrightarrow> fetcher_names \<inter> names (registry s) = {}) \<and>
     (\<not> assetStoreOperationsPrometheusMetrics s \<longrightarrow> push_names \<inter> names (registry s) = {})"

definition labelled :: "('v \<Rightarrow> string list) \<Rightarrow> 'v observers \<Rightarrow> bool" where
  "labelled free v \<longleftrightarrow> length (free (blobBlobSizeBytes v)) = 1 \<and> length (free (blobDurationSeconds v)) = 2 \<and>
     length (free (directoryDurationSeconds v)) = 2"

text \<open>Both constructors are one program.\<close>

definition metrics_with ::
  "('p package_vars \<Rightarrow> bool) \<Rightarrow> ('p package_vars \<Rightarrow> 'p package_vars) \<Rightarrow> HistogramVec \<Rightarrow> HistogramVec \<Rightarrow>
     string \<times> string \<times> string \<Rightarrow> ('p, 'v, 'o) prometheus \<Rightarrow> string \<Rightarrow> ('p package_vars, 'v observers) comp" where
  "metrics_with is_done mark A B ops P name =
     bindM (once_Do is_done mark (bindM (register P A) (\<lambda>_. register P B))) (\<lambda>_.
     bindM (lift (MustCurryWith P (ObserverVec P A) [''name'' \<mapsto> name, ''operation'' \<mapsto> fst ops])) (\<lambda>a.
     bindM (lift (MustCurryWith P (ObserverVec P B) [''name'' \<mapsto> name, ''operation'' \<mapsto> fst (snd ops)])) (\<lambda>b.
     bindM (lift (MustCurryWith P (ObserverVec P B) [''name'' \<mapsto> name, ''operation'' \<mapsto> snd (snd ops)])) (\<lambda>c.
     ret \<lparr>blobBlobSizeBytes = a, blobDurationSeconds = b, directoryDurationSeconds = c\<rparr>))))"

lemma metrics_instances:
  "fetcher_metrics = metrics_with httpFetcherOperationsPrometheusMetrics
     (\<lambda>s. s\<lparr>httpFetcherOperationsPrometheusMetrics := True\<rparr>) httpFetcherOperationsBlobSizeBytes
     blobAccessOperationsDurationSeconds (''Fetch Blob'', ''FetchBlob'', ''FetchDirectory'')"
  "push_metrics = metrics_with assetStoreOperationsPrometheusMetrics
     (\<lambda>s. s\<lparr>assetStoreOperationsPrometheusMetrics := True\<rparr>) pushServerOperationsBlobSizeBytes
     pushServerOperationsDurationSeconds (''PushBlob'', ''PushBlob'', ''PushDirectory'')"
  by (simp_all add: fun_eq_iff fetcher_metrics_def push_metrics_def metrics_with_def)

lemma metrics_with_run:
  assumes ok: "prometheus_ok P free names utf8" and name: "utf8 name"
    and labels: "\<forall>h\<in>{A, B}. ''name'' \<in> set (Labels h) \<and> ''operation'' \<in> set (Labels h)"
      "length (filter (\<lambda>l. l \<noteq> ''name'' \<and> l \<noteq> ''operation'') (Labels A)) = 1"
      "length (filter (\<lambda>l. l \<noteq> ''name'' \<and> l \<noteq> ''operation'') (Labels B)) = 2"
    and ops: "ascii (fst ops)" "ascii (fst (snd ops))" "ascii (snd (snd ops))"
    and new: "fullName A \<noteq> fullName B" "\<not> is_done s \<longrightarrow> {fullName A, fullName B} \<inter> names (registry s) = {}"
  shows "\<exists>v p. metrics_with is_done mark A B ops P name s =
      (Done v, if is_done s then s else mark (s\<lparr>registry := p\<rparr>)) \<and> labelled free v \<and>
    (\<not> is_done s \<longrightarrow> names p = {fullName A, fullName B} \<union> names (registry s))"
proof -
  have curried: "\<exists>v. MustCurryWith P (ObserverVec P h) [''name'' \<mapsto> name, ''operation'' \<mapsto> op] = Done v \<and>
      length (free v) = length (filter (\<lambda>l. l \<noteq> ''name'' \<and> l \<noteq> ''operation'') (Labels h))"
    if "ascii op" "h \<in> {A, B}" for op h
    using curry_run [OF ok _ _ name, of h op] prometheus_okD(1) [OF ok that(1)] labels(1) that(2) by auto
  obtain a where a: "MustCurryWith P (ObserverVec P A) [''name'' \<mapsto> name, ''operation'' \<mapsto> fst ops] = Done a"
      "length (free a) = 1"
    using curried [OF ops(1), of A] labels(2) by auto
  obtain b where b: "MustCurryWith P (ObserverVec P B) [''name'' \<mapsto> name, ''operation'' \<mapsto> fst (snd ops)] = Done b"
      "length (free b) = 2"
    using curried [OF ops(2), of B] labels(3) by auto
  obtain c where c: "MustCurryWith P (ObserverVec P B) [''name'' \<mapsto> name, ''operation'' \<mapsto> snd (snd ops)] = Done c"
      "length (free c) = 2"
    using curried [OF ops(3), of B] labels(3) by auto
  have "\<exists>p. once_Do is_done mark (bindM (register P A) (\<lambda>_. register P B)) s =
      (Done (), if is_done s then s else mark (s\<lparr>registry := p\<rparr>)) \<and>
      (\<not> is_done s \<longrightarrow> names p = {fullName A, fullName B} \<union> names (registry s))"
    using register_two [OF ok, of A s B] new by (cases "is_done s") (force simp: once_Do_def)+
  then obtain p where "once_Do is_done mark (bindM (register P A) (\<lambda>_. register P B)) s =
      (Done (), if is_done s then s else mark (s\<lparr>registry := p\<rparr>))"
      "\<not> is_done s \<longrightarrow> names p = {fullName A, fullName B} \<union> names (registry s)" by blast
  with a b c show ?thesis by (auto simp: metrics_with_def bindM_def labelled_def)
qed

lemma fetcher_metrics_run:
  assumes ok: "prometheus_ok P free names utf8" and s: "unregistered_ok names s" and name: "utf8 name"
  shows "\<exists>v s'. fetcher_metrics P name s = (Done v, s') \<and> labelled free v \<and> unregistered_ok names s' \<and>
    httpFetcherOperationsPrometheusMetrics s' \<and>
    assetStoreOperationsPrometheusMetrics s' = assetStoreOperationsPrometheusMetrics s \<and>
    names (registry s') = (if httpFetcherOperationsPrometheusMetrics s then {} else fetcher_names) \<union> names (registry s)"
  using metrics_with_run [OF ok name, of httpFetcherOperationsBlobSizeBytes blobAccessOperationsDurationSeconds
      "(''Fetch Blob'', ''FetchBlob'', ''FetchDirectory'')" httpFetcherOperationsPrometheusMetrics s
      "\<lambda>s. s\<lparr>httpFetcherOperationsPrometheusMetrics := True\<rparr>"] names_distinct s
  unfolding metrics_instances
  by (auto simp: httpFetcherOperationsBlobSizeBytes_def blobAccessOperationsDurationSeconds_def ascii_def unregistered_ok_def)

lemma push_metrics_run:
  assumes ok: "prometheus_ok P free names utf8" and s: "unregistered_ok names s" and name: "utf8 name"
  shows "\<exists>v s'. push_metrics P name s = (Done v, s') \<and> labelled free v \<and> unregistered_ok names s' \<and>
    httpFetcherOperationsPrometheusMetrics s' = httpFetcherOperationsPrometheusMetrics s \<and>
    assetStoreOperationsPrometheusMetrics s' \<and>
    names (registry s') = (if assetStoreOperationsPrometheusMetrics s then {} else push_names) \<union> names (registry s)"
  using metrics_with_run [OF ok name, of pushServerOperationsBlobSizeBytes pushServerOperationsDurationSeconds
      "(''PushBlob'', ''PushBlob'', ''PushDirectory'')" assetStoreOperationsPrometheusMetrics s
      "\<lambda>s. s\<lparr>assetStoreOperationsPrometheusMetrics := True\<rparr>"] names_distinct s
  unfolding metrics_instances
  by (auto simp: pushServerOperationsBlobSizeBytes_def pushServerOperationsDurationSeconds_def ascii_def unregistered_ok_def)

text \<open>Any number of fetchers and push servers, in any order.\<close>

datatype decorator = FetcherMetrics | PushMetrics

fun construct :: "('p, 'v, 'o) prometheus \<Rightarrow> decorator \<Rightarrow> string \<Rightarrow> ('p package_vars, 'v observers) comp" where
  "construct P FetcherMetrics name = fetcher_metrics P name"
| "construct P PushMetrics name = push_metrics P name"

fun constructs :: "('p, 'v, 'o) prometheus \<Rightarrow> (decorator \<times> string) list \<Rightarrow> ('p package_vars, 'v observers list) comp" where
  "constructs P [] = ret []"
| "constructs P ((d, name) # ds) = bindM (construct P d name) (\<lambda>v. bindM (constructs P ds) (\<lambda>vs. ret (v # vs)))"

definition named_by :: "(decorator \<Rightarrow> bool) \<Rightarrow> 'p package_vars \<Rightarrow> string set" where
  "named_by made s =
     (if made FetcherMetrics \<and> \<not> httpFetcherOperationsPrometheusMetrics s then fetcher_names else {}) \<union>
     (if made PushMetrics \<and> \<not> assetStoreOperationsPrometheusMetrics s then push_names else {})"

lemma construct_run:
  assumes "prometheus_ok P free names utf8" "unregistered_ok names s" "utf8 name"
  shows "\<exists>v s'. construct P d name s = (Done v, s') \<and> labelled free v \<and> unregistered_ok names s' \<and>
    httpFetcherOperationsPrometheusMetrics s' = (d = FetcherMetrics \<or> httpFetcherOperationsPrometheusMetrics s) \<and>
    assetStoreOperationsPrometheusMetrics s' = (d = PushMetrics \<or> assetStoreOperationsPrometheusMetrics s) \<and>
    names (registry s') = names (registry s) \<union> named_by (\<lambda>e. e = d) s"
proof (cases d)
  case FetcherMetrics
  obtain v s' where "fetcher_metrics P name s = (Done v, s')" "labelled free v" "unregistered_ok names s'"
    "httpFetcherOperationsPrometheusMetrics s'" "assetStoreOperationsPrometheusMetrics s' = assetStoreOperationsPrometheusMetrics s"
    "names (registry s') = (if httpFetcherOperationsPrometheusMetrics s then {} else fetcher_names) \<union> names (registry s)"
    using fetcher_metrics_run [OF assms] by blast
  with FetcherMetrics show ?thesis by (intro exI [of _ v] exI [of _ s']) (auto simp: named_by_def)
next
  case PushMetrics
  obtain v s' where "push_metrics P name s = (Done v, s')" "labelled free v" "unregistered_ok names s'"
    "httpFetcherOperationsPrometheusMetrics s' = httpFetcherOperationsPrometheusMetrics s" "assetStoreOperationsPrometheusMetrics s'"
    "names (registry s') = (if assetStoreOperationsPrometheusMetrics s then {} else push_names) \<union> names (registry s)"
    using push_metrics_run [OF assms] by blast
  with PushMetrics show ?thesis by (intro exI [of _ v] exI [of _ s']) (auto simp: named_by_def)
qed

lemma constructs_run:
  assumes ok: "prometheus_ok P free names utf8" and s: "unregistered_ok names s" and valid: "\<forall>(d, name)\<in>set ds. utf8 name"
  shows "\<exists>vs s'. constructs P ds s = (Done vs, s') \<and> length vs = length ds \<and> (\<forall>v\<in>set vs. labelled free v) \<and>
    names (registry s') = names (registry s) \<union> named_by (\<lambda>d. d \<in> fst ` set ds) s"
  using s valid
proof (induction ds arbitrary: s)
  case Nil
  then show ?case by (simp add: named_by_def)
next
  case (Cons x ds)
  obtain d name where x: "x = (d, name)" by fastforce
  with Cons.prems(2) have name: "utf8 name" and rest: "\<forall>(d, name)\<in>set ds. utf8 name" by auto
  obtain v s1 where first: "construct P d name s = (Done v, s1)" "labelled free v" "unregistered_ok names s1"
    and flags: "httpFetcherOperationsPrometheusMetrics s1 = (d = FetcherMetrics \<or> httpFetcherOperationsPrometheusMetrics s)"
      "assetStoreOperationsPrometheusMetrics s1 = (d = PushMetrics \<or> assetStoreOperationsPrometheusMetrics s)"
    and reg: "names (registry s1) = names (registry s) \<union> named_by (\<lambda>e. e = d) s"
    using construct_run [OF ok Cons.prems(1) name] by blast
  from Cons.IH [OF first(3) rest] obtain vs s' where
    then_run: "constructs P ds s1 = (Done vs, s')" "length vs = length ds" "\<forall>v\<in>set vs. labelled free v"
    and then_reg: "names (registry s') = names (registry s1) \<union> named_by (\<lambda>d. d \<in> fst ` set ds) s1"
    by blast
  have "constructs P (x # ds) s = (Done (v # vs), s')"
    using first(1) then_run(1) by (simp add: x bindM_def)
  moreover have "names (registry s') = names (registry s) \<union> named_by (\<lambda>d. d \<in> fst ` set (x # ds)) s"
    unfolding then_reg reg named_by_def flags by (cases d) (auto simp: x)
  ultimately show ?case using first(2) then_run(2,3) by (intro exI [of _ "v # vs"] exI [of _ s']) simp
qed

subsection \<open>Property\<close>

text \<open>C34: making fetchers and push servers never panics in Prometheus, however many are made, in
  whatever order and under whatever names: each metric is registered once, when the first
  decorator of its package is made. Nor do the observations made with them: the label values that
  the code gives are as many as the labels that are left.\<close>

theorem metrics_never_panic:
  assumes "prometheus_ok P free names utf8" "\<forall>(d, name)\<in>set ds. utf8 name"
    and "(fetcher_names \<union> push_names) \<inter> names (registry s) = {}"
    and "utf8 (codeName code)" "utf8 (fetch_resourceTypeLabel qualifiers)"
  shows "\<exists>vs s'. constructs P ds s = (Done vs, s') \<and> length vs = length ds \<and>
    names (registry s') = names (registry s) \<union> named_by (\<lambda>d. d \<in> fst ` set ds) s \<and>
    (\<forall>v\<in>set vs. (\<exists>x. sizeObserver P (blobBlobSizeBytes v) (fetch_resourceTypeLabel qualifiers) = Done x) \<and>
      (\<forall>vec\<in>{blobDurationSeconds v, directoryDurationSeconds v}.
        \<exists>x. durationObserver P codeName vec code (fetch_resourceTypeLabel qualifiers) = Done x))"
proof -
  have "unregistered_ok names s" using assms(3) by (auto simp: unregistered_ok_def)
  from constructs_run [OF assms(1) this assms(2)] show ?thesis
    using prometheus_okD(5) [OF assms(1)] assms(4,5)
    by (auto simp: labelled_def sizeObserver_def durationObserver_def)
qed

text \<open>A Prometheus whose registry is the list of names, and whose vectors are their free labels.\<close>

definition example_prometheus :: "(string list, string list, string list) prometheus" where
  "example_prometheus = \<lparr>ObserverVec = Labels,
     MustRegister = (\<lambda>h p. if fullName h \<in> set p then (Panic ExplicitPanic, p) else (Done (), fullName h # p)),
     MustCurryWith = (\<lambda>v m. if dom m \<subseteq> set v \<and> Ball (ran m) ascii then Done (filter (\<lambda>l. l \<notin> dom m) v) else Panic ExplicitPanic),
     WithLabelValues = (\<lambda>v vals. if length vals = length v \<and> list_all ascii vals then Done vals else Panic ExplicitPanic)\<rparr>"

lemma example_prometheus_ok: "prometheus_ok example_prometheus id set ascii"
  by (simp add: prometheus_ok_def example_prometheus_def)

theorem metrics_never_panic_witness:
  "\<exists>vs s'. constructs example_prometheus [(FetcherMetrics, ''fetch''), (PushMetrics, ''push''), (FetcherMetrics, ''fetch'')]
      \<lparr>httpFetcherOperationsPrometheusMetrics = False, assetStoreOperationsPrometheusMetrics = False, registry = []\<rparr> =
      (Done vs, s') \<and> length vs = 3 \<and> set (registry s') = fetcher_names \<union> push_names"
proof -
  note metrics_never_panic [OF example_prometheus_ok, where qualifiers = "[]" and code = 0 and codeName = "\<lambda>c. ''OK''"
      and s = "\<lparr>httpFetcherOperationsPrometheusMetrics = False, assetStoreOperationsPrometheusMetrics = False, registry = []\<rparr>"
      and ds = "[(FetcherMetrics, ''fetch''), (PushMetrics, ''push''), (FetcherMetrics, ''fetch'')]"]
  from this show ?thesis by (auto simp: ascii_def named_by_def simp del: constructs.simps)
qed

end
