(* ===== verification/HTTPLiveness.thy ===== *)
theory HTTPLiveness
  imports HTTPProperties
begin

section \<open>When a fetch over HTTP succeeds\<close>

text \<open>
  The theorems on the HTTP fetcher say what an answer means; this one says that there is an
  answer: with a file system, a storage and connections that work, the URIs of a request are
  tried until one can be reached.
\<close>

text \<open>\<open>up\<close> are the worlds in which the outside works: bodies are read without an error, files
  are written, blobs are stored.\<close>

definition healthy ::
  "('i, 'f, 'd, 'b, 'w) ext \<Rightarrow> ('f, 'd, 'b, 'o, 't, 'w) http_ext \<Rightarrow> ('d, 'b, 'w) BlobAccess \<Rightarrow> ('w \<Rightarrow> bool) \<Rightarrow> bool" where
  "healthy X H cas up \<longleftrightarrow>
     (\<forall>w body p err w'. up w \<longrightarrow> BodyRead H body w \<noteq> ((p, ReadError err), w')) \<and>
     (\<forall>w f p. up w \<longrightarrow> fst (FileWrite H f p w) = None) \<and>
     (\<forall>w body. up w \<longrightarrow> fst (BodyClose H body w) = None) \<and>
     (\<forall>w. up w \<longrightarrow> (\<exists>t. fst (CreateTemp H w) = Inr t)) \<and>
     (\<forall>w d b. up w \<longrightarrow> fst (BlobPut cas d b w) = None) \<and>
     (\<forall>f k chunks p. WriteGenerator X f k chunks p = None) \<and>
     (\<forall>f k. \<exists>m. GetSizeBytes X (NewValidatedBufferFromReaderAt H f k) = Inr m)"

lemma healthyD:
  assumes "healthy X H cas up"
  shows "up w \<Longrightarrow> BodyRead H body w \<noteq> ((p, ReadError err), w')" "up w \<Longrightarrow> fst (FileWrite H f p w) = None"
    "up w \<Longrightarrow> fst (BodyClose H body w) = None" "up w \<Longrightarrow> \<exists>t. fst (CreateTemp H w) = Inr t"
    "up w \<Longrightarrow> fst (BlobPut cas d b w) = None" "WriteGenerator X g k chunks p = None"
    "\<exists>m. GetSizeBytes X (NewValidatedBufferFromReaderAt H f k) = Inr m"
  using assms unfolding healthy_def by blast+

text \<open>Requests for a URI are always answered with its content, or never.\<close>

definition reachable ::
  "('i, 'f, 'd, 'b, 'w) ext \<Rightarrow> ('f, 'd, 'b, 'o, 't, 'w) http_ext \<Rightarrow> ('o, 'w) HttpClient \<Rightarrow> ('w \<Rightarrow> bool) \<Rightarrow>
     AuthHeaders \<Rightarrow> string \<Rightarrow> bool" where
  "reachable X H client up auth uri \<longleftrightarrow> (\<exists>req. NewGetRequest H uri = Inr req \<and>
     (\<forall>w. up w \<longrightarrow> (\<exists>resp. fst (HttpDo client (ApplyHeaders X auth uri req) w) = Inr resp \<and>
        HttpStatusCode resp = 200)))"

definition unreachable ::
  "('i, 'f, 'd, 'b, 'w) ext \<Rightarrow> ('f, 'd, 'b, 'o, 't, 'w) http_ext \<Rightarrow> ('o, 'w) HttpClient \<Rightarrow> ('w \<Rightarrow> bool) \<Rightarrow>
     AuthHeaders \<Rightarrow> string \<Rightarrow> bool" where
  "unreachable X H client up auth uri \<longleftrightarrow> (\<forall>req. NewGetRequest H uri = Inr req \<longrightarrow>
     (\<forall>w resp. up w \<longrightarrow> fst (HttpDo client (ApplyHeaders X auth uri req) w) = Inr resp \<longrightarrow>
        HttpStatusCode resp \<noteq> 200))"

subsection \<open>Downloads\<close>

lemma copyBody_succeeds:
  assumes keeps: "transfers_keep X H up" and health: "healthy X H cas up" and rank: "ranked_bodies H rank"
  shows "up w \<Longrightarrow> rank body w < n \<Longrightarrow>
    \<exists>chunks' w'. copyBody X H dl clen f body n chunks w = (Done (Inr chunks'), w') \<and> up w'"
proof (induction n arbitrary: chunks w)
  case (Suc n)
  obtain p er w1 where read: "BodyRead H body w = ((p, er), w1)" by (metis prod.collapse)
  have w1: "up w1" using transfers_keepD(1) [OF keeps, of body w] read Suc.prems(1) by simp
  let ?w2 = "if p = [] then w1 else snd (FileWrite H f p w1)"
  have w2: "up ?w2" using transfers_keepD(2) [OF keeps, of f p w1] w1 by simp
  have put: "(if p = [] then ret (Inr chunks) else writeAll X H dl clen f chunks p) w1 =
      (Done (Inr (if p = [] then chunks else chunks @ [p])), ?w2)"
    using healthyD(2) [OF health w1, of f p] healthyD(6) [OF health]
    by (cases "FileWrite H f p w1") (simp add: writeAll_def checkM_def)
  have run: "copyBody X H dl clen f body (Suc n) chunks w =
      (case er of MoreToRead \<Rightarrow> copyBody X H dl clen f body n (if p = [] then chunks else chunks @ [p])
       | EndOfFile \<Rightarrow> ret (Inr (if p = [] then chunks else chunks @ [p])) | ReadError err \<Rightarrow> ret (Inl err)) ?w2"
    using read put by (simp add: tryM_Inr)
  show ?case
  proof (cases er)
    case MoreToRead
    with rank read have "rank body ?w2 < rank body w" unfolding ranked_bodies_def by simp
    with Suc.prems(2) Suc.IH [OF w2] MoreToRead show ?thesis unfolding run by simp
  next
    case EndOfFile
    with w2 show ?thesis unfolding run by simp
  next
    case (ReadError err)
    with read healthyD(1) [OF health Suc.prems(1)] show ?thesis by blast
  qed
qed simp

lemma downloadBlob_reachable:
  assumes keeps: "http_keeps X H (httpClient hf) up" and health: "healthy X H (httpStorage hf) up"
    and rank: "ranked_bodies H rank" "\<And>body w. rank body w < n"
    and uri: "reachable X H (httpClient hf) up auth uri" and w: "up w" and dl: "expectedDigest dl = []"
  shows "\<exists>f d w'. downloadBlob X H hf n dl auth uri w =
    (Done (NewValidatedBufferFromReaderAt H f (DigestSizeBytes H d), d, []), w') \<and> up w'"
proof -
  from uri w obtain req resp where req: "NewGetRequest H uri = Inr req"
    and fst_do: "fst (HttpDo (httpClient hf) (ApplyHeaders X auth uri req) w) = Inr resp"
    and ok: "HttpStatusCode resp = 200"
    unfolding reachable_def by blast
  obtain w1 where do: "HttpDo (httpClient hf) (ApplyHeaders X auth uri req) w = (Inr resp, w1)"
    using fst_do by (metis prod.collapse)
  have w1: "up w1" using http_keepsD(2) [OF keeps, of _ w] do w by (metis snd_conv)
  obtain t w2 where temp: "CreateTemp H w1 = (Inr t, w2)"
    using healthyD(4) [OF health w1] by (metis prod.collapse)
  have w2: "up w2" using http_keepsD(4) [OF keeps, of w1] temp w1 by simp
  obtain chunks w3 where copy: "copyBody X H dl (ContentLength resp) t (Body resp) n [] w2 = (Done (Inr chunks), w3)"
    and w3: "up w3"
    using copyBody_succeeds [OF http_keepsD(1) [OF keeps] health rank(1) w2 rank(2)] by blast
  obtain w4 where closed: "BodyClose H (Body resp) w3 = (None, w4)"
    using healthyD(3) [OF health w3, of "Body resp"] by (metis prod.collapse)
  have w4: "up w4" using http_keepsD(3) [OF keeps, of "Body resp" w3] closed w3 by simp
  let ?d = "SumGenerator X (digestFunction dl) (ContentLength resp) chunks"
  have "downloadBlob X H hf n dl auth uri w =
      (Done (NewValidatedBufferFromReaderAt H t (DigestSizeBytes H ?d), ?d, []), w4)"
    by (simp add: downloadBlob_def req do ok downloadBody_def temp storeBody_def copy closed dl Let_def bindM_assoc
        bindM_def call_run)
  with w4 show ?thesis by blast
qed

lemma downloadBlob_unreachable:
  assumes keeps: "http_keeps X H (httpClient hf) up" and w: "up w"
    and uri: "unreachable X H (httpClient hf) up auth uri"
  shows "\<exists>e w'. downloadBlob X H hf n dl auth uri w = (Done (failed_download X H e), w') \<and> up w'"
proof (cases "NewGetRequest H uri")
  case (Inr req)
  obtain r w1 where do: "HttpDo (httpClient hf) (ApplyHeaders X auth uri req) w = (r, w1)"
    by fastforce
  have w1: "up w1" using http_keepsD(2) [OF keeps, of _ w] do w by (metis snd_conv)
  have "HttpStatusCode resp \<noteq> 200" if "r = Inr resp" for resp
    using uri w do that Inr unfolding unreachable_def by force
  then show ?thesis
    using w1 transfers_keepD(4) [OF http_keepsD(1) [OF keeps]]
    by (cases r) (auto simp: downloadBlob_def Inr do)
qed (use w in \<open>auto simp: downloadBlob_def\<close>)

subsection \<open>Fetches\<close>

lemma httpFetchUris_reachable:
  assumes keeps: "http_keeps X H (httpClient hf) up" and health: "healthy X H (httpStorage hf) up"
    and rank: "ranked_bodies H rank" "\<And>body w. rank body w < n"
    and errors: "error_buffers X H" and dl: "expectedDigest dl = []"
    and uri: "reachable X H (httpClient hf) up auth uri"
  shows "up w \<Longrightarrow> \<forall>u\<in>set down. unreachable X H (httpClient hf) up auth u \<Longrightarrow>
    \<exists>r w'. httpFetchUris X H hf n dl auth qs err (down @ uri # rest) w = (Done (Inr r), w') \<and>
      ResponseUri r = uri \<and> ResponseStatus r = Some \<lparr>status_Code = code_OK, status_Message = ''Blob fetched successfully!''\<rparr>"
proof (induction down arbitrary: err w)
  case Nil
  obtain f d w1 where run: "downloadBlob X H hf n dl auth uri w =
      (Done (NewValidatedBufferFromReaderAt H f (DigestSizeBytes H d), d, []), w1)" and w1: "up w1"
    using downloadBlob_reachable [OF keeps health rank uri Nil(1) dl] by blast
  obtain m where m: "GetSizeBytes X (NewValidatedBufferFromReaderAt H f (DigestSizeBytes H d)) = Inr m"
    using healthyD(7) [OF health] by blast
  obtain w2 where put: "BlobPut (httpStorage hf) d (NewValidatedBufferFromReaderAt H f (DigestSizeBytes H d)) w1 = (None, w2)"
    using healthyD(5) [OF health w1] by (metis prod.collapse)
  show ?case by (simp add: bindM_def call_run run m dl put)
next
  case (Cons u down)
  obtain e w1 where run: "downloadBlob X H hf n dl auth u w = (Done (failed_download X H e), w1)" and w1: "up w1"
    using downloadBlob_unreachable [OF keeps Cons.prems(1)] Cons.prems(2) by force
  obtain err' where bad: "GetSizeBytes X (NewBufferFromError H e) = Inl err'"
    using errors unfolding error_buffers_def isl_def by blast
  let ?w2 = "snd (LogPrintf X (LogDownloadError u err') w1)"
  have "up ?w2" using transfers_keepD(4) [OF http_keepsD(1) [OF keeps]] w1 by simp
  with Cons.IH Cons.prems(2) show ?case
    by (simp add: bindM_def call_run run failed_download_def bad split: prod.split)
qed

text \<open>C9: a fetch over HTTP ends in success when one of its URIs can be reached and the files, the
  bodies and the storage work: the URIs before it that cannot be reached are passed over, and the
  response is of the first that can. (For a request without a checksum; with one, the content
  decides.)\<close>

theorem http_first_reachable:
  assumes "http_keeps X H client up" "healthy X H cas up" "error_buffers X H"
    and "ranked_bodies H rank" "\<And>body w. rank body w < n"
    and "getDigestFunction X (DigestFunction req) (InstanceName req) = Inr df"
    and "\<forall>q\<in>set (Qualifiers req). Name q \<noteq> ''checksum.sri''"
    and "getAuthHeaders X (JsonError H) (Uris req) (Qualifiers req) = Inr auth"
    and "Uris req = down @ uri # rest" "\<forall>u\<in>set down. unreachable X H client up auth u"
    and "reachable X H client up auth uri" "up w"
  shows "\<exists>r w'. FetchBlob (NewHTTPFetcher X H n client cas) req w = (Done (Some r, None), w') \<and>
    ResponseUri r = uri \<and> ResponseStatus r = Some \<lparr>status_Code = code_OK, status_Message = ''Blob fetched successfully!''\<rparr>"
proof -
  let ?hf = "\<lparr>httpClient = client, httpStorage = cas\<rparr>"
  let ?dl = "\<lparr>digestFunction = df, checksumFunction = ZeroFunction H, expectedDigest = []\<rparr>"
  have sri: "getChecksumSri X H (Qualifiers req) = Done (Inr ([], ZeroFunction H))"
    using getChecksumSri_prefix [OF assms(7), of X "ZeroFunction H" DF_UNKNOWN "[]"] by (simp add: getChecksumSri_def)
  obtain r w' where "httpFetchUris X H ?hf n ?dl auth (Qualifiers req) None (Uris req) w = (Done (Inr r), w')"
    "ResponseUri r = uri" "ResponseStatus r = Some \<lparr>status_Code = code_OK, status_Message = ''Blob fetched successfully!''\<rparr>"
    using httpFetchUris_reachable [of X H ?hf up rank n ?dl auth uri w down "Qualifiers req" None rest]
      assms(1-5,9-12) by auto
  then show ?thesis
    by (auto simp: FetchBlob_HTTP httpFetcher_FetchBlob_def assms(6,8) sri replyM_run)
qed

text \<open>In the example web, where one page is missing and the storage is not read only.\<close>

lemma world_http_up: "http_keeps world_X world_H web (\<lambda>w. \<not> readonly w)"
  by (auto simp: http_keeps_def transfers_keep_def log_keeps_def)

lemma world_healthy: "healthy world_X world_H objects_ba (\<lambda>w. \<not> readonly w)"
  by (auto simp: healthy_def)

theorem http_first_reachable_witness:
  "\<exists>r w'. FetchBlob (NewHTTPFetcher world_X world_H 2 web objects_ba) (request0\<lparr>Uris := [''missing'', ''bad uri'', ''v'']\<rparr>) world0 =
      (Done (Some r, None), w') \<and> ResponseUri r = ''v'' \<and>
    ResponseStatus r = Some \<lparr>status_Code = code_OK, status_Message = ''Blob fetched successfully!''\<rparr>"
  by (rule http_first_reachable [OF world_http_up world_healthy world_error_buffers world_ranked_bodies,
        where df = "(''inst'', DF_SHA256)" and auth = Mapping.empty and down = "[''missing'', ''bad uri'']" and rest = "[]"])
     (auto simp: read_rank_def getDigestFunction_def getAuthHeaders_def reachable_def unreachable_def ApplyHeaders_def
       lookup_empty)

end
