(* ===== verification/Interleaving.thy ===== *)
theory Interleaving
  imports ServiceHistory
begin

section \<open>Calls that run at the same time\<close>

text \<open>
  gRPC serves every call in a goroutine of its own, so the effects of several calls mix: another
  call may push, or fill the cache, between two steps of a fetch. The handlers share no variable
  that they write, only the world, and touch it through calls of the code outside. Here each such call is one step
  (a fetch of the wrapped fetcher, which leaves the assets alone, is one too) and the steps of
  different calls come in any order.

  The handlers are functions of any world, so the same definitions give the steps: run in a world
  that is the list of answers a call has got so far, a handler uses them up and asks for its next
  effect.
\<close>

subsection \<open>Effects\<close>

datatype ('i, 'd, 'b) effect =
    ReadClock
  | WriteLog log_line
  | ObserveMetric string "Code option" string int
  | AskAuthorizer bool 'i
  | GetBlob 'd
  | PutBlob 'd 'b
  | AskBackend bool FetchRequest

datatype 'b answer =
    TimeAnswer time
  | UnitAnswer
  | ErrorAnswer "error option"
  | BufferAnswer 'b
  | ReplyAnswer "FetchResponse reply run"

text \<open>The service with its assets in a blob access, and what it is built on.\<close>

record ('i, 'f, 'd, 'b, 'w) deployment =
  Outside :: "('i, 'f, 'd, 'b, 'w) ext"
  FetchAuthorizer :: "('i, 'w) Authorizer"
  PushAuthorizer :: "('i, 'w) Authorizer"
  AssetAccess :: "('d, 'b, 'w) BlobAccess"
  SizeLimit :: int
  UpdatesAllowed :: "'i \<rightharpoonup> bool"
  Backend :: "'w Fetcher"

definition deployed_store :: "('i, 'f, 'd, 'b, 'w) deployment \<Rightarrow> ('f, 'w) AssetStore" where
  "deployed_store D = NewAuthorizingAssetStore (Outside D)
     (NewBlobAccessAssetStore (Outside D) (AssetAccess D) (SizeLimit D)) (FetchAuthorizer D) (PushAuthorizer D)"

definition deployed_fetcher :: "('i, 'f, 'd, 'b, 'w) deployment \<Rightarrow> 'w Fetcher" where
  "deployed_fetcher D = fetch_layers (Outside D) (FetchAuthorizer D)
     (NewCachingFetcher (Outside D) (Backend D) (deployed_store D))"

definition deployed_pusher :: "('i, 'f, 'd, 'b, 'w) deployment \<Rightarrow> 'w PushServer" where
  "deployed_pusher D = NewMetricsAssetPushServer (Outside D)
     (NewAssetPushServer (Outside D) (deployed_store D) (UpdatesAllowed D))"

datatype outcome = Fetched "FetchResponse reply run" | Pushed "unit reply run"

fun serve :: "('i, 'f, 'd, 'b, 'w) deployment \<Rightarrow> service_call \<Rightarrow> 'w \<Rightarrow> outcome \<times> 'w" where
  "serve D (FetchCall d req) w = map_prod Fetched id (fetch_call (deployed_fetcher D) d req w)"
| "serve D (PushCall d req) w = map_prod Pushed id (push_call (deployed_pusher D) d req w)"

fun perform :: "('i, 'f, 'd, 'b, 'w) deployment \<Rightarrow> ('i, 'd, 'b) effect \<Rightarrow> 'w \<Rightarrow> 'b answer \<times> 'w" where
  "perform D ReadClock w = map_prod TimeAnswer id (TimeNow (Outside D) w)"
| "perform D (WriteLog l) w = map_prod (\<lambda>_. UnitAnswer) id (LogPrintf (Outside D) l w)"
| "perform D (ObserveMetric v c t n) w = map_prod (\<lambda>_. UnitAnswer) id (Observe (Outside D) v c t n w)"
| "perform D (AskAuthorizer push i) w =
     map_prod ErrorAnswer id (AuthorizeSingleInstanceName (if push then PushAuthorizer D else FetchAuthorizer D) i w)"
| "perform D (GetBlob d) w = map_prod BufferAnswer id (BlobGet (AssetAccess D) d w)"
| "perform D (PutBlob d b) w = map_prod ErrorAnswer id (BlobPut (AssetAccess D) d b w)"
| "perform D (AskBackend d req) w = map_prod ReplyAnswer id (fetch_call (Backend D) d req w)"

subsection \<open>Handlers in steps\<close>

text \<open>\<open>awaited\<close> is the effect whose answer is not there yet. A handler goes on with a dummy
  answer then, but asks for nothing more.\<close>

record ('i, 'd, 'b) replay =
  recorded :: "(('i, 'd, 'b) effect \<times> 'b answer) list"
  awaited :: "('i, 'd, 'b) effect option"

definition consult :: "('i, 'd, 'b) effect \<Rightarrow> ('i, 'd, 'b) replay \<Rightarrow> 'b answer option \<times> ('i, 'd, 'b) replay" where
  "consult e s = (case awaited s of
     Some _ \<Rightarrow> (None, s)
   | None \<Rightarrow>
       (case recorded s of
          [] \<Rightarrow> (None, s\<lparr>awaited := Some e\<rparr>)
        | (e', a) # rest \<Rightarrow>
            if e' = e then (Some a, s\<lparr>recorded := rest\<rparr>) else (None, s\<lparr>awaited := Some e\<rparr>)))"

fun time_of :: "'b answer option \<Rightarrow> time" where
  "time_of (Some (TimeAnswer t)) = t"
| "time_of _ = Unix_0_0"

fun error_of :: "'b answer option \<Rightarrow> error option" where
  "error_of (Some (ErrorAnswer e)) = e"
| "error_of _ = Some (PlainError ''awaited'')"

fun buffer_of :: "'b \<Rightarrow> 'b answer option \<Rightarrow> 'b" where
  "buffer_of b (Some (BufferAnswer b')) = b'"
| "buffer_of b _ = b"

fun reply_of :: "'b answer option \<Rightarrow> FetchResponse reply run" where
  "reply_of (Some (ReplyAnswer r)) = r"
| "reply_of _ = Unfinished"

definition dummy_buffer :: "('i, 'f, 'd, 'b, 'w) ext \<Rightarrow> 'b" where
  "dummy_buffer X = NewProtoBufferFromProto X
     (MAsset \<lparr>AssetDigest = None, ExpireAt = None, LastUpdated = None, AssetTypeOf = BLOB\<rparr>)"

definition replayed_ext :: "('i, 'f, 'd, 'b, 'w) ext \<Rightarrow> ('i, 'f, 'd, 'b, ('i, 'd, 'b) replay) ext" where
  "replayed_ext X = \<lparr>
     NewInstanceName = NewInstanceName X, GetDigestFunction = GetDigestFunction X,
     GetInstanceName = GetInstanceName X, NewDigestFromProto = NewDigestFromProto X, GetProto = GetProto X,
     BadDigest = BadDigest X, WriteGenerator = WriteGenerator X, SumGenerator = SumGenerator X,
     NewProtoBufferFromProto = NewProtoBufferFromProto X, GetSizeBytes = GetSizeBytes X,
     ToByteSlice = ToByteSlice X, ToProto = ToProto X, StatusWrapf = StatusWrapf X,
     StatusWrapWithCode = StatusWrapWithCode X, StatusCode = StatusCode X, StatusMessage = StatusMessage X,
     ErrorText = ErrorText X, ErrorProto = ErrorProto X, WithDetails = WithDetails X, GoQuote = GoQuote X,
     TimeText = TimeText X, AsTime = AsTime X, CheckValid = CheckValid X, TimestampNew = TimestampNew X,
     TimeNow = (\<lambda>s. map_prod time_of id (consult ReadClock s)),
     LogPrintf = (\<lambda>l s. map_prod (\<lambda>_. ()) id (consult (WriteLog l) s)),
     Observe = (\<lambda>v c t n s. map_prod (\<lambda>_. ()) id (consult (ObserveMetric v c t n) s)),
     RangeKeys = RangeKeys X\<rparr>"

definition replayed_auth :: "bool \<Rightarrow> ('i, ('i, 'd, 'b) replay) Authorizer" where
  "replayed_auth push =
     \<lparr>AuthorizeSingleInstanceName = (\<lambda>i s. map_prod error_of id (consult (AskAuthorizer push i) s))\<rparr>"

definition replayed_access :: "'b \<Rightarrow> ('d, 'b, ('i, 'd, 'b) replay) BlobAccess" where
  "replayed_access b = \<lparr>BlobGet = (\<lambda>d s. map_prod (buffer_of b) id (consult (GetBlob d) s)),
     BlobPut = (\<lambda>d b s. map_prod error_of id (consult (PutBlob d b) s))\<rparr>"

definition replayed_backend :: "'w Fetcher \<Rightarrow> ('i, 'd, 'b) replay Fetcher" where
  "replayed_backend f = \<lparr>
     FetchBlob = (\<lambda>req s. map_prod reply_of id (consult (AskBackend False req) s)),
     FetchDirectory = (\<lambda>req s. map_prod reply_of id (consult (AskBackend True req) s)),
     CheckQualifiers = CheckQualifiers f\<rparr>"

definition replayed :: "('i, 'f, 'd, 'b, 'w) deployment \<Rightarrow> ('i, 'f, 'd, 'b, ('i, 'd, 'b) replay) deployment" where
  "replayed D = \<lparr>Outside = replayed_ext (Outside D), FetchAuthorizer = replayed_auth False,
     PushAuthorizer = replayed_auth True, AssetAccess = replayed_access (dummy_buffer (Outside D)),
     SizeLimit = SizeLimit D, UpdatesAllowed = UpdatesAllowed D, Backend = replayed_backend (Backend D)\<rparr>"

text \<open>What a call that got these answers does next, or how it ended.\<close>

definition progress ::
  "('i, 'f, 'd, 'b, 'w) deployment \<Rightarrow> service_call \<Rightarrow> (('i, 'd, 'b) effect \<times> 'b answer) list \<Rightarrow>
     ('i, 'd, 'b) effect + outcome" where
  "progress D c tr = (case serve (replayed D) c \<lparr>recorded = tr, awaited = None\<rparr> of
     (r, s) \<Rightarrow> (case awaited s of Some e \<Rightarrow> Inl e | None \<Rightarrow> Inr r))"

type_synonym ('i, 'd, 'b) running = "service_call \<times> (('i, 'd, 'b) effect \<times> 'b answer) list"

text \<open>Calls arrive and take steps, in any order; the last one to arrive is the first of the list.\<close>

inductive concurrent ::
  "('w \<Rightarrow> 'v) \<Rightarrow> ('i, 'f, 'd, 'b, 'w) deployment \<Rightarrow> 'w \<Rightarrow> ('i, 'd, 'b) running list \<Rightarrow> 'w \<Rightarrow> bool"
  for contents :: "'w \<Rightarrow> 'v" and D :: "('i, 'f, 'd, 'b, 'w) deployment" and w0 :: 'w where
  started: "concurrent contents D w0 [] w0"
| waited: "concurrent contents D w0 ts w \<Longrightarrow> contents w' = contents w \<Longrightarrow> concurrent contents D w0 ts w'"
| arrived: "concurrent contents D w0 ts w \<Longrightarrow> concurrent contents D w0 ((c, []) # ts) w"
| stepped: "concurrent contents D w0 ts w \<Longrightarrow> i < length ts \<Longrightarrow> ts ! i = (c, tr) \<Longrightarrow> progress D c tr = Inl e \<Longrightarrow>
    perform D e w = (a, w') \<Longrightarrow> concurrent contents D w0 (ts[i := (c, tr @ [(e, a)])]) w'"

subsection \<open>Consulting the answers\<close>

lemma replayed_fields [simp]:
  "Outside (replayed D) = replayed_ext (Outside D)" "FetchAuthorizer (replayed D) = replayed_auth False"
  "PushAuthorizer (replayed D) = replayed_auth True"
  "AssetAccess (replayed D) = replayed_access (dummy_buffer (Outside D))"
  "SizeLimit (replayed D) = SizeLimit D" "UpdatesAllowed (replayed D) = UpdatesAllowed D"
  "Backend (replayed D) = replayed_backend (Backend D)"
  by (simp_all add: replayed_def)

lemma replayed_ext_fields [simp]:
  "NewInstanceName (replayed_ext X) = NewInstanceName X" "GetDigestFunction (replayed_ext X) = GetDigestFunction X"
  "WriteGenerator (replayed_ext X) = WriteGenerator X" "SumGenerator (replayed_ext X) = SumGenerator X"
  "GetSizeBytes (replayed_ext X) = GetSizeBytes X" "ToByteSlice (replayed_ext X) = ToByteSlice X"
  "StatusWrapf (replayed_ext X) = StatusWrapf X" "ErrorText (replayed_ext X) = ErrorText X"
  "WithDetails (replayed_ext X) = WithDetails X" "CheckValid (replayed_ext X) = CheckValid X"
  "RangeKeys (replayed_ext X) = RangeKeys X" "GetInstanceName (replayed_ext X) = GetInstanceName X"
  "NewProtoBufferFromProto (replayed_ext X) = NewProtoBufferFromProto X" "ToProto (replayed_ext X) = ToProto X"
  "StatusCode (replayed_ext X) = StatusCode X" "StatusMessage (replayed_ext X) = StatusMessage X"
  "ErrorProto (replayed_ext X) = ErrorProto X" "GoQuote (replayed_ext X) = GoQuote X"
  "TimeText (replayed_ext X) = TimeText X" "AsTime (replayed_ext X) = AsTime X"
  "TimestampNew (replayed_ext X) = TimestampNew X"
  by (simp_all add: replayed_ext_def)

lemma replayed_ext_effects [simp]:
  "TimeNow (replayed_ext X) s = map_prod time_of id (consult ReadClock s)"
  "LogPrintf (replayed_ext X) l s = map_prod (\<lambda>_. ()) id (consult (WriteLog l) s)"
  "Observe (replayed_ext X) v k t n s = map_prod (\<lambda>_. ()) id (consult (ObserveMetric v k t n) s)"
  by (simp_all add: replayed_ext_def)

lemma replayed_pure [simp]:
  "getDigestFunction (replayed_ext X) = getDigestFunction X"
  "push_getDigestFunction (replayed_ext X) = push_getDigestFunction X"
  "ProtoSerialise (replayed_ext X) = ProtoSerialise X"
  "message_digest (replayed_ext X) = message_digest X"
  "getDefaultTimestamp (replayed_ext X) = getDefaultTimestamp X"
  "fetched_asset (replayed_ext X) = fetched_asset X"
  "oldest_accepted (replayed_ext X) = oldest_accepted X"
  "joinedErrors (replayed_ext X) = joinedErrors X"
  "unsupported_error (replayed_ext X) = unsupported_error X"
  by (simp_all add: getDigestFunction_def push_getDigestFunction_def ProtoSerialise_def message_digest_def
      getDefaultTimestamp_def fetched_asset_def oldest_accepted_def joinedErrors_def unsupported_error_def violations_def
      fun_eq_iff Let_def split: sum.split option.split)

lemma replayed_effects [simp]:
  "AuthorizeSingleInstanceName (replayed_auth push) i s = map_prod error_of id (consult (AskAuthorizer push i) s)"
  "BlobGet (replayed_access b) d s = map_prod (buffer_of b) id (consult (GetBlob d) s)"
  "BlobPut (replayed_access b) d b' s = map_prod error_of id (consult (PutBlob d b') s)"
  "fetch_call (replayed_backend f) q req s = map_prod reply_of id (consult (AskBackend q req) s)"
  "CheckQualifiers (replayed_backend f) = CheckQualifiers f"
  by (simp_all add: replayed_auth_def replayed_access_def replayed_backend_def fetch_call_def)

text \<open>What is left of the record was in it, and what is awaited was asked for.\<close>

lemma consult_cases:
  assumes "consult e s = (x, s')"
  obtains (told) a rest where "awaited s = None" "recorded s = (e, a) # rest" "x = Some a" "s' = s\<lparr>recorded := rest\<rparr>"
    | (asked) "awaited s = None" "x = None" "s' = s\<lparr>awaited := Some e\<rparr>"
    | (stuck) e' where "awaited s = Some e'" "x = None" "s' = s"
  using assms by (auto simp: consult_def split: option.splits list.splits if_splits)

definition waits :: "(('i, 'd, 'b) effect \<times> 'b answer \<Rightarrow> bool) \<Rightarrow> (('i, 'd, 'b) effect \<Rightarrow> bool) \<Rightarrow> ('i, 'd, 'b) replay \<Rightarrow> bool" where
  "waits R Q s \<longleftrightarrow> (\<forall>p\<in>set (recorded s). R p) \<and> (\<forall>e. awaited s = Some e \<longrightarrow> Q e)"

lemma waits_consult: "Q e \<Longrightarrow> waits R Q s \<Longrightarrow> waits R Q (snd (consult e s))"
  by (cases "consult e s") (auto simp: waits_def elim!: consult_cases)

definition waiting :: "('i, 'd, 'b) replay \<Rightarrow> bool" where
  "waiting s \<longleftrightarrow> awaited s \<noteq> None"

lemma waiting_consult: "waiting s \<Longrightarrow> snd (consult e s) = s"
  by (auto simp: waiting_def consult_def)

subsection \<open>What a call asks for\<close>

lemma deployed_Get_preserves:
  assumes "auth_preserves (FetchAuthorizer D) P" "\<And>d. preserves P (call (BlobGet (AssetAccess D) d))"
  shows "preserves P (Get (deployed_store D) ref df)"
  using assms(2)
  by (auto simp: deployed_store_def NewAuthorizingAssetStore_def AuthorizingAssetStore_Get_def NewBlobAccessAssetStore_def
      blobAccessAssetStore_Get_def Let_def case_prod_beta intro!: frame_rules auth_preservesD [OF assms(1)]
      split: sum.split message.split simp del: ret_run panicM_run bindM_call)

lemma deployed_Put_preserves:
  assumes "auth_preserves (PushAuthorizer D) P"
    and "\<And>d. message_digest (Outside D) df (MAssetReference ref) = Some d \<Longrightarrow>
      preserves P (call (BlobPut (AssetAccess D) d (NewProtoBufferFromProto (Outside D) (MAsset a))))"
  shows "preserves P (Put (deployed_store D) ref a df)"
proof (cases "ProtoSerialise (Outside D) (MAssetReference ref) df")
  case (Inr bd)
  with assms(2) have "preserves P (call (BlobPut (AssetAccess D) (snd bd) (NewProtoBufferFromProto (Outside D) (MAsset a))))"
    by (simp add: message_digest_def split: prod.split)
  with Inr show ?thesis
    by (auto simp: deployed_store_def NewAuthorizingAssetStore_def AuthorizingAssetStore_Put_def NewBlobAccessAssetStore_def
        blobAccessAssetStore_Put_def Let_def case_prod_beta intro!: frame_rules auth_preservesD [OF assms(1)]
        simp del: ret_run bindM_call checkM_call)
qed (auto simp: deployed_store_def NewAuthorizingAssetStore_def AuthorizingAssetStore_Put_def NewBlobAccessAssetStore_def
    blobAccessAssetStore_Put_def Let_def intro!: frame_rules auth_preservesD [OF assms(1)] simp del: ret_run bindM_call checkM_call)

text \<open>The pairs of a record are effects that were performed, in worlds with a property; what is
  asked to be put has an origin under every reference with its digest.\<close>

fun performed :: "('i, 'f, 'd, 'b, 'w) deployment \<Rightarrow> ('w \<Rightarrow> bool) \<Rightarrow> ('i, 'd, 'b) effect \<times> 'b answer \<Rightarrow> bool" where
  "performed D I (e, a) \<longleftrightarrow> (\<exists>w w'. I w \<and> perform D e w = (a, w'))"

lemma map_prod_answer [simp]:
  "map_prod ReplyAnswer id x = (ReplyAnswer r, w) \<longleftrightarrow> x = (r, w)"
  "map_prod BufferAnswer id y = (BufferAnswer b, w) \<longleftrightarrow> y = (b, w)"
  by (cases x, auto) (cases y, auto)

definition may_put ::
  "('i, 'f, 'd, 'b, 'w) deployment \<Rightarrow> ('f \<Rightarrow> AssetReference \<Rightarrow> Asset \<Rightarrow> bool) \<Rightarrow> ('i, 'd, 'b) effect \<Rightarrow> bool" where
  "may_put D G e \<longleftrightarrow> (\<forall>d b. e = PutBlob d b \<longrightarrow>
     (\<exists>df ref a. message_digest (Outside D) df (MAssetReference ref) = Some d \<and>
        b = NewProtoBufferFromProto (Outside D) (MAsset a) \<and>
        (\<forall>df' ref'. same_digest (Outside D) df ref df' ref' \<longrightarrow> G df' ref' a)))"

lemma may_put_others [simp]:
  "may_put D G ReadClock" "may_put D G (WriteLog l)" "may_put D G (ObserveMetric v c t n)"
  "may_put D G (AskAuthorizer p i)" "may_put D G (GetBlob d)" "may_put D G (AskBackend q req)"
  by (simp_all add: may_put_def)

lemma may_putI:
  "message_digest (Outside D) df (MAssetReference ref) = Some d \<Longrightarrow>
     (\<And>df' ref'. same_digest (Outside D) df ref df' ref' \<Longrightarrow> G df' ref' a) \<Longrightarrow>
     may_put D G (PutBlob d (NewProtoBufferFromProto (Outside D) (MAsset a)))"
  unfolding may_put_def by blast

lemma replay_frames:
  shows "effects_preserve (replayed_ext X) (waits R (may_put D G))" "auth_preserves (replayed_auth p) (waits R (may_put D G))"
    "preserves (waits R (may_put D G)) (call (BlobGet (replayed_access b') d'))"
    "preserves (waits R (may_put D G)) (fetch_call (replayed_backend f) q req)"
  by (simp_all add: effects_preserve_def auth_preserves_def preserves_def call_run waits_consult)

lemma replay_put:
  assumes "\<And>df' ref'. same_digest (Outside D) df ref df' ref' \<Longrightarrow> G df' ref' a"
  shows "preserves (waits R (may_put D G)) (Put (deployed_store (replayed D)) ref a df)"
proof (rule deployed_Put_preserves)
  fix d
  assume "message_digest (Outside (replayed D)) df (MAssetReference ref) = Some d"
  with assms have "may_put D G (PutBlob d (NewProtoBufferFromProto (Outside D) (MAsset a)))"
    by (intro may_putI) simp_all
  then show "preserves (waits R (may_put D G))
      (call (BlobPut (AssetAccess (replayed D)) d (NewProtoBufferFromProto (Outside (replayed D)) (MAsset a))))"
    by (simp add: preserves_def call_run waits_consult)
qed (simp add: replay_frames)

lemma replay_backend:
  assumes "fetch_call (replayed_backend f) q req s = (Done p, s')"
  shows "(AskBackend q req, ReplyAnswer (Done p)) \<in> set (recorded s)"
proof -
  obtain x where "consult (AskBackend q req) s = (x, s')" "reply_of x = Done p"
    using assms by (cases "consult (AskBackend q req) s") auto
  then show ?thesis
    by (cases x rule: reply_of.cases) (auto elim!: consult_cases)
qed

text \<open>One of these calls pushed the asset, or fetched it from the backend.\<close>

definition call_origin ::
  "('i, 'f, 'd, 'b, 'w) deployment \<Rightarrow> service_call list \<Rightarrow> 'f \<Rightarrow> AssetReference \<Rightarrow> Asset \<Rightarrow> bool" where
  "call_origin D h df ref a \<longleftrightarrow>
     pushed_origin (Outside D) (same_digest (Outside D)) (UpdatesAllowed D) h df ref a \<or>
     fetched_origin (Outside D) (same_digest (Outside D)) (Backend D) h df ref a"

lemma call_originI:
  "PushCall q preq \<in> set h \<Longrightarrow>
     push_getDigestFunction (Outside D) (PushDigestFunction preq) (PushInstanceName preq) (PushDigest preq) = Inr df' \<Longrightarrow>
     UpdatesAllowed D (GetInstanceName (Outside D) df') = Some True \<Longrightarrow> ref' \<in> set (pushed_refs preq) \<Longrightarrow>
     same_digest (Outside D) df' ref' df ref \<Longrightarrow> pushed_asset preq (if q then DIRECTORY else BLOB) a \<Longrightarrow>
     call_origin D h df ref a"
  "FetchCall q req \<in> set h \<Longrightarrow>
     getDigestFunction (Outside D) (DigestFunction req) (InstanceName req) = Inr df' \<Longrightarrow>
     fetch_call (Backend D) q req w1 = (Done (Some rsp, None), w2) \<Longrightarrow> ref' \<in> set (cache_refs req rsp) \<Longrightarrow>
     same_digest (Outside D) df' ref' df ref \<Longrightarrow> fetched_asset (Outside D) q rsp a \<Longrightarrow>
     call_origin D h df ref a"
  unfolding call_origin_def pushed_origin_def fetched_origin_def by blast+

lemma serve_preserves:
  assumes effects: "effects_preserve (Outside D) P" "auth_preserves (FetchAuthorizer D) P"
    and gets: "\<And>d. preserves P (call (BlobGet (AssetAccess D) d))"
    and backend: "\<And>q req. preserves P (fetch_call (Backend D) q req)"
    and fetched: "\<And>q req df rsp w1 w2 ref a. c = FetchCall q req \<Longrightarrow>
      getDigestFunction (Outside D) (DigestFunction req) (InstanceName req) = Inr df \<Longrightarrow> P w1 \<Longrightarrow>
      fetch_call (Backend D) q req w1 = (Done (Some rsp, None), w2) \<Longrightarrow> ref \<in> set (cache_refs req rsp) \<Longrightarrow>
      fetched_asset (Outside D) q rsp a \<Longrightarrow> preserves P (Put (deployed_store D) ref a df)"
    and pushed: "\<And>q req df ref a. c = PushCall q req \<Longrightarrow>
      push_getDigestFunction (Outside D) (PushDigestFunction req) (PushInstanceName req) (PushDigest req) = Inr df \<Longrightarrow>
      UpdatesAllowed D (GetInstanceName (Outside D) df) = Some True \<Longrightarrow> ref \<in> set (pushed_refs req) \<Longrightarrow>
      pushed_asset req (if q then DIRECTORY else BLOB) a \<Longrightarrow> preserves P (Put (deployed_store D) ref a df)"
    and "P w"
  shows "P (snd (serve D c w))"
proof (cases c)
  case (FetchCall q req)
  have "preserves P (fetch_call (deployed_fetcher D) q req)"
    unfolding deployed_fetcher_def
    by (rule fetch_call_preserves [OF effects deployed_Get_preserves [OF effects(2) gets] backend])
       (rule fetched [OF FetchCall], assumption+)
  with FetchCall assms(7) show ?thesis
    by (cases "fetch_call (deployed_fetcher D) q req w") (auto dest: preservesD)
next
  case (PushCall q req)
  have "preserves P (push_call (deployed_pusher D) q req)"
    unfolding deployed_pusher_def
    by (rule push_call_preserves [OF effects(1)]) (rule pushed [OF PushCall], assumption+)
  with PushCall assms(7) show ?thesis
    by (cases "push_call (deployed_pusher D) q req w") (auto dest: preservesD)
qed

lemma serve_waits:
  assumes "c \<in> set h" and G: "\<And>df ref a. call_origin D h df ref a \<Longrightarrow> G df ref a"
    and "waits (performed D I) (may_put D G) s"
  shows "waits (performed D I) (may_put D G) (snd (serve (replayed D) c s))"
proof (rule serve_preserves [where P = "waits (performed D I) (may_put D G)"], goal_cases)
  case (5 q req df rsp w1 w2 ref a)
  then have "performed D I (AskBackend q req, ReplyAnswer (Done (Some rsp, None)))"
    using replay_backend [of "Backend D" q req w1] by (auto simp: waits_def)
  then obtain v1 v2 where "fetch_call (Backend D) q req v1 = (Done (Some rsp, None), v2)"
    by auto
  with 5 assms(1) show ?case
    by (intro replay_put G) (rule call_originI(2) [of q req], simp_all)
next
  case (6 q req df ref a)
  with assms(1) show ?case
    by (intro replay_put G) (rule call_originI(1) [of q req], simp_all)
qed (simp_all add: replay_frames assms(3))

text \<open>So what a call asks for next it may put.\<close>

lemma progress_may_put:
  assumes "progress D c tr = Inl e" "c \<in> set h" "\<And>df ref a. call_origin D h df ref a \<Longrightarrow> G df ref a"
    and "\<forall>p\<in>set tr. performed D I p"
  shows "may_put D G e"
proof -
  obtain r s where run: "serve (replayed D) c \<lparr>recorded = tr, awaited = None\<rparr> = (r, s)" by fastforce
  have "waits (performed D I) (may_put D G) \<lparr>recorded = tr, awaited = None\<rparr>"
    using assms(4) by (simp add: waits_def)
  from serve_waits [where G = G, OF assms(2,3) this] run have "waits (performed D I) (may_put D G) s" by simp
  with assms(1) run show ?thesis by (auto simp: progress_def waits_def split: option.splits)
qed

subsection \<open>Whatever the order of the steps\<close>

text \<open>What is assumed of the code outside, as for histories of whole calls.\<close>

definition service_ok :: "('i, 'f, 'd, 'b, 'w) deployment \<Rightarrow> ('w \<Rightarrow> 'd \<rightharpoonup> 'b) \<Rightarrow> bool" where
  "service_ok D contents \<longleftrightarrow>
     keeps_blobs (Outside D) (AssetAccess D) contents \<and> refusals_keep (AssetAccess D) contents \<and>
     typed_buffers (Outside D) \<and> faithful_buffers (Outside D) \<and> clock_keeps (Outside D) contents \<and>
     log_keeps (Outside D) contents \<and> auth_keeps (FetchAuthorizer D) contents \<and>
     auth_keeps (PushAuthorizer D) contents \<and>
     (\<forall>q req v. preserves (\<lambda>w. contents w = v) (fetch_call (Backend D) q req))"

definition held_assets ::
  "('i, 'f, 'd, 'b, 'w) deployment \<Rightarrow> ('w \<Rightarrow> 'd \<rightharpoonup> 'b) \<Rightarrow> 'w \<Rightarrow> 'f \<Rightarrow> AssetReference \<Rightarrow> Asset option" where
  "held_assets D contents = blob_view (Outside D, AssetAccess D, SizeLimit D, contents)"

lemma held_same: "contents w' = contents w \<Longrightarrow> held_assets D contents w' = held_assets D contents w"
  unfolding held_assets_def by (rule blob_view_same)

lemma perform_others:
  assumes "service_ok D contents" "\<not> (\<exists>d b. e = PutBlob d b)"
  shows "contents (snd (perform D e w)) = contents w"
proof -
  have "contents (snd (fetch_call (Backend D) q req w)) = contents w" for q req
    using assms(1) by (simp add: service_ok_def preserves_def)
  with assms show ?thesis
    by (cases e) (simp_all add: service_ok_def keeps_blobs_def clock_keeps_def log_keeps_def auth_keeps_def)
qed

lemma perform_keeps:
  assumes ok: "service_ok D contents" and "kbs.holds_only G (held_assets D contents w)" "may_put D G e"
    and run: "perform D e w = (a, w')"
  shows "kbs.holds_only G (held_assets D contents w')"
proof (cases "\<exists>d b. e = PutBlob d b")
  case False
  from perform_others [OF ok False, of w] run have "contents w' = contents w" by simp
  with assms(2) show ?thesis by (metis held_same)
next
  case True
  let ?X = "Outside D" and ?c = "(Outside D, AssetAccess D, SizeLimit D, contents)"
  from True assms(3) obtain d df ref asset where e: "e = PutBlob d (NewProtoBufferFromProto ?X (MAsset asset))"
    and d: "message_digest ?X df (MAssetReference ref) = Some d"
    and G: "\<And>df' ref'. same_digest ?X df ref df' ref' \<Longrightarrow> G df' ref' asset"
    unfolding may_put_def by blast
  have "preserves (\<lambda>w. kbs.holds_only G (blob_view ?c w)) (Put (blob_store ?c) ref asset df)"
    using ok G by (intro kbs.Put_only) (simp_all add: blob_config_simps(2) service_ok_def)
  moreover have "snd (Put (blob_store ?c) ref asset df w) = w'"
    using run d
    by (auto simp: e blob_config_simps(1) NewBlobAccessAssetStore_Put message_digest_Some map_prod_def
        split: prod.splits option.splits)
  ultimately show ?thesis
    using assms(2) unfolding held_assets_def preserves_def by metis
qed

text \<open>At every moment the store holds what it held at the beginning and what has an origin in
  the calls that arrived; and every effect was performed at such a moment.\<close>

definition sourced ::
  "('i, 'f, 'd, 'b, 'w) deployment \<Rightarrow> ('w \<Rightarrow> 'd \<rightharpoonup> 'b) \<Rightarrow> 'w \<Rightarrow> service_call list \<Rightarrow> 'w \<Rightarrow> bool" where
  "sourced D contents w0 h w \<longleftrightarrow> kbs.holds_only
     (\<lambda>df ref a. held_assets D contents w0 df ref = Some a \<or> call_origin D h df ref a) (held_assets D contents w)"

lemma sourced_same: "contents w' = contents w \<Longrightarrow> sourced D contents w0 h w \<Longrightarrow> sourced D contents w0 h w'"
  unfolding sourced_def using held_same [of contents w' w D] by simp

lemma sourced_mono: "sourced D contents w0 h w \<Longrightarrow> sourced D contents w0 (c # h) w"
  unfolding sourced_def call_origin_def by (erule kbs.holds_only_mono) (auto intro: origin_mono)

lemma performed_mono: "performed D I p \<Longrightarrow> (\<And>w. I w \<Longrightarrow> J w) \<Longrightarrow> performed D J p"
  by (cases p) auto

definition accounted ::
  "('i, 'f, 'd, 'b, 'w) deployment \<Rightarrow> ('w \<Rightarrow> 'd \<rightharpoonup> 'b) \<Rightarrow> 'w \<Rightarrow> ('i, 'd, 'b) running list \<Rightarrow> bool" where
  "accounted D contents w0 ts \<longleftrightarrow>
     (\<forall>(c, tr)\<in>set ts. \<forall>p\<in>set tr. performed D (sourced D contents w0 (map fst ts)) p)"

lemma sourced_begin: "sourced D contents w0 h w0"
  unfolding sourced_def kbs.holds_only_def by blast

lemma concurrent_sourced:
  assumes ok: "service_ok D contents" and run: "concurrent contents D w0 ts w"
  shows "sourced D contents w0 (map fst ts) w \<and> accounted D contents w0 ts"
  using run
proof (induction rule: concurrent.induct)
  case started
  show ?case by (simp add: sourced_begin accounted_def)
next
  case (waited ts w w')
  from waited.IH show ?case by (auto intro: sourced_same [OF waited.hyps(2)])
next
  case (arrived ts w c)
  have "performed D (sourced D contents w0 (c # map fst ts)) p"
    if "performed D (sourced D contents w0 (map fst ts)) p" for p
    using that by (rule performed_mono) (rule sourced_mono)
  with arrived.IH show ?case
    by (simp add: accounted_def case_prod_beta sourced_mono del: performed.simps)
next
  case (stepped ts w i c tr e a w')
  then have here: "(c, tr) \<in> set ts" by (metis nth_mem)
  have fsts: "map fst (ts[i := (c, tr')]) = map fst ts" for tr'
    using stepped.hyps(2,3) by (simp add: map_update list_update_same_conv)
  have "may_put D (\<lambda>df ref a. held_assets D contents w0 df ref = Some a \<or> call_origin D (map fst ts) df ref a) e"
  proof (rule progress_may_put [OF stepped.hyps(4)])
    show "\<forall>p\<in>set tr. performed D (sourced D contents w0 (map fst ts)) p"
      using stepped.IH here by (auto simp: accounted_def)
    show "c \<in> set (map fst ts)" using here by force
  qed simp
  then have "sourced D contents w0 (map fst ts) w'"
    using perform_keeps [OF ok _ _ stepped.hyps(5)] stepped.IH unfolding sourced_def by blast
  moreover have "performed D (sourced D contents w0 (map fst ts)) (e, a)"
    using stepped.IH stepped.hyps(5) by auto
  moreover have "x \<in> set ts \<or> x = (c, tr @ [(e, a)])" if "x \<in> set (ts[i := (c, tr @ [(e, a)])])" for x
    using that set_update_subset_insert [of ts i] by auto
  ultimately show ?case
    using stepped.IH here unfolding accounted_def fsts by fastforce
qed

end
