(* ===== verification/InterleavedRuns.thy ===== *)
theory InterleavedRuns
  imports Interleaving
begin

section \<open>Runs of interleaved calls\<close>

text \<open>
  Where the response of a call that ended comes from, whatever ran beside it; and that a call
  whose steps nothing interrupts does what the handler does in one go.
\<close>

subsection \<open>What a call was told\<close>

text \<open>Between the beginning of a computation and its end: \<open>F\<close> holds from the beginning on,
  \<open>P\<close>, which stays once it holds, does not hold at the end.\<close>

lemma bindM_between:
  assumes "bindM m k w = (Done b, w')" "F w" "preserves F m" "\<And>a. preserves P (k a)" "\<not> P w'"
  obtains a w1 where "m w = (Done a, w1)" "k a w1 = (Done b, w')" "F w1" "\<not> P w1"
  using assms(1)
proof (rule bindM_DoneE)
  fix a w1
  assume run: "m w = (Done a, w1)" "k a w1 = (Done b, w')"
  with assms(2-5) show thesis by (meson preservesD that)
qed

lemma logCompleted_preserves: "effects_preserve X P \<Longrightarrow> preserves P (logCompleted X req p)"
  by (auto simp: logCompleted_def case_prod_beta intro!: frame_rules effects_preserveD split: option.split
      simp del: ret_run panicM_run bindM_call)

lemma logging_response_between:
  assumes run: "FetchBlob (NewLoggingFetcher X f) req w = (Done p, w')"
    and effects: "effects_preserve X F" "effects_preserve X P" and "F w" "preserves F (FetchBlob f req)" "\<not> P w'"
  obtains w1 w2 where "FetchBlob f req w1 = (Done p, w2)" "F w1" "\<not> P w2"
proof -
  let ?w1 = "logging_before X False req w"
  have rest: "bindM (FetchBlob f req) (logCompleted X req) ?w1 = (Done p, w')"
    using run by (simp add: logging_defs)
  have F1: "F ?w1"
    using effects_preserveD(2) [OF effects(1)] assms(4) by (simp add: preserves_def call_run)
  from bindM_between [OF rest F1 assms(5) logCompleted_preserves [OF effects(2)] assms(6)]
  obtain q w2 where "FetchBlob f req ?w1 = (Done q, w2)" "logCompleted X req q w2 = (Done p, w')" "\<not> P w2" by metis
  with F1 that show thesis by (auto dest: logCompleted_same)
qed

lemma metrics_response_between:
  assumes run: "FetchBlob (NewMetricsFetcher X f) req w = (Done (Some r, e), w')"
    and effects: "effects_preserve X F" "effects_preserve X P" and "F w" "preserves F (FetchBlob f req)" "\<not> P w'"
  obtains w1 w2 where "FetchBlob f req w1 = (Done (Some r, None), w2)" "F w1" "\<not> P w2"
proof -
  let ?w1 = "metrics_before X False req w"
  obtain k where rest: "bindM (FetchBlob f req) k ?w1 = (Done (Some r, e), w')" and k: "\<And>p. preserves P (k p)"
    and same: "\<And>p w2. k p w2 = (Done (Some r, e), w') \<Longrightarrow> p = (Some r, None)"
  proof
    let ?k = "\<lambda>(resp, err).
      if err \<noteq> None then
        bindM (metricsFetcher_updateDurationSeconds X ''fetchBlobDurationSeconds'' (StatusCode X err)
          (fst (TimeNow X w)) (Qualifiers req)) (\<lambda>_. ret (None, err))
      else
        bindM (deref resp) (\<lambda>r.
        bindM (deref (ResponseStatus r)) (\<lambda>st.
        bindM (metricsFetcher_updateDurationSeconds X ''fetchBlobDurationSeconds'' (status_Code st)
          (fst (TimeNow X w)) (Qualifiers req)) (\<lambda>_.
        bindM (deref (ResponseDigest r)) (\<lambda>digest.
        bindM (metricsFetcher_updateBlobSizeBytes X ''fetchBlobBlobSizeBytes'' (SizeBytes digest)
          (Qualifiers req)) (\<lambda>_. ret (resp, err))))))"
    show "bindM (FetchBlob f req) ?k ?w1 = (Done (Some r, e), w')"
      using run by (simp add: NewMetricsFetcher_def metricsFetcher_FetchBlob_def)
    show "preserves P (?k p)" for p
      by (auto simp: metricsFetcher_updateDurationSeconds_def metricsFetcher_updateBlobSizeBytes_def Let_def case_prod_beta
          intro!: frame_rules effects_preserveD [OF effects(2)] simp del: ret_run bindM_call)
    show "?k p w2 = (Done (Some r, e), w') \<Longrightarrow> p = (Some r, None)" for p w2
      by (auto simp: case_prod_beta elim!: bindM_DoneE split: if_split_asm) (metis prod.collapse)+
  qed
  have F1: "F ?w1"
    using effects_preserveD(1) [OF effects(1)] assms(4) by (simp add: preserves_def call_run)
  from bindM_between [OF rest F1 assms(5) k assms(6)]
  obtain q w2 where "FetchBlob f req ?w1 = (Done q, w2)" "k q w2 = (Done (Some r, e), w')" "\<not> P w2" by metis
  with F1 that same show thesis by blast
qed

lemma layers_response_between:
  assumes run: "FetchBlob (fetch_layers X A f) req w = (Done (Some r, e), w')"
    and effects: "effects_preserve X F" "effects_preserve X P" "auth_preserves A F"
    and "F w" "preserves F (FetchBlob f req)" "\<not> P w'"
  obtains w1 w2 where "FetchBlob f req w1 = (Done (Some r, None), w2)" "F w1" "\<not> P w2"
proof -
  let ?v = "NewValidatingFetcher X f"
  let ?m = "NewMetricsFetcher X (NewLoggingFetcher X ?v)"
  have "FetchBlob (authorized_fetcher (X, A) ?m) req w = (Done (Some r, e), w')"
    using run by (simp add: fetch_layers_def)
  then obtain w1 where auth: "authorization (X, A) False ?m req w = (Done None, w1)"
    and metrics: "FetchBlob ?m req w1 = (Done (Some r, e), w')" by (rule af.gate_response)
  have "F w1"
    using auth assms(5) auth_preservesD [OF effects(3)]
    by (auto simp: preserves_def call_run split: sum.splits)
  have v: "preserves F (FetchBlob ?v req)"
    using assms(6) by (auto simp: vf.wrap_blob gated_def validation_def intro!: frame_rules split: option.split simp del: ret_run)
  have l: "preserves F (FetchBlob (NewLoggingFetcher X ?v) req)"
    unfolding logging_defs using v
    by (auto intro!: frame_rules effects_preserveD [OF effects(1)] logCompleted_preserves [OF effects(1)]
        simp del: ret_run bindM_call)
  from metrics_response_between [OF metrics effects(1,2) \<open>F w1\<close> l assms(7)]
  obtain w2 w3 where "FetchBlob (NewLoggingFetcher X ?v) req w2 = (Done (Some r, None), w3)" "F w2" "\<not> P w3" by metis
  from logging_response_between [OF this(1) effects(1,2) this(2) v this(3)]
  obtain w4 w5 where "FetchBlob ?v req w4 = (Done (Some r, None), w5)" "F w4" "\<not> P w5" by metis
  with that show thesis
    by (auto simp: validation_admits vf.wrap_blob gated_def bindM_Done_iff split: option.splits)
qed

lemma checkCache_between:
  assumes "checkCache X st qs df oldest us errs w = (Done (Inr (u, a)), w')"
    and "effects_preserve X F" "\<And>ref. preserves F (Get st ref df)" "effects_preserve X P" "F w" "\<not> P w'"
  shows "u \<in> set us \<and> (\<exists>w1 w2. Get st (cache_ref qs u) df w1 = (Done (Inr a), w2) \<and> F w1 \<and> \<not> P w2)"
  using assms(1,5)
proof (induction us arbitrary: errs w)
  case (Cons v us)
  let ?check = "getAndCheckAsset X st v (removeVolatileQualifiers qs) df oldest"
  from Cons.prems(1) obtain r w1 where get: "?check w = (Done r, w1)"
    and rest: "(case r of Inl err \<Rightarrow> checkCache X st qs df oldest us (errs @ [err])
      | Inr a \<Rightarrow> ret (Inr (v, a))) w1 = (Done (Inr (u, a)), w')"
    by (auto simp: bindM_Done_iff)
  have "preserves F ?check"
    unfolding getAndCheckAsset_def
    by (auto intro!: frame_rules effects_preserveD assms(2,3) simp: Let_def simp del: ret_run bindM_call split: option.split)
  with get Cons.prems(2) have "F w1" by (auto dest: preservesD)
  show ?case
  proof (cases r)
    case (Inl e)
    with rest Cons.IH \<open>F w1\<close> show ?thesis by simp
  next
    case (Inr b)
    with rest have b: "b = a" "v = u" "w1 = w'" by auto
    with get Inr obtain w2 where "Get st (cache_ref qs u) df w = (Done (Inr a), w2)"
      and "w' = w2 \<or> w' = snd (TimeNow X w2)"
      by (auto simp: getAndCheckAsset_Inr cache_ref_def split: option.splits)
    moreover from this(2) have "\<not> P w2"
      using effects_preserveD(1) [OF assms(4)] assms(6) by (auto simp: preserves_def call_run)
    ultimately show ?thesis using b Cons.prems(2) by auto
  qed
qed simp

text \<open>The answers a replayed call got are those of its record.\<close>

lemma replay_frames_any:
  "effects_preserve (replayed_ext X) (waits R (\<lambda>_. True))" "auth_preserves (replayed_auth p) (waits R (\<lambda>_. True))"
  "preserves (waits R (\<lambda>_. True)) (call (BlobGet (replayed_access b) d))"
  "preserves (waits R (\<lambda>_. True)) (call (BlobPut (replayed_access b) d b'))"
  "preserves (waits R (\<lambda>_. True)) (fetch_call (replayed_backend f) q req)"
  by (simp_all add: effects_preserve_def auth_preserves_def preserves_def call_run waits_consult)

lemma replay_waiting: "effects_preserve (replayed_ext X) waiting"
  by (simp add: effects_preserve_def preserves_def call_run waiting_consult)

lemma replay_store_any:
  "preserves (waits R (\<lambda>_. True)) (Get (deployed_store (replayed D)) ref df)"
  "preserves (waits R (\<lambda>_. True)) (Put (deployed_store (replayed D)) ref a df)"
  by (rule deployed_Get_preserves deployed_Put_preserves; simp add: replay_frames_any)+

lemma performed_get: "performed D I (GetBlob d, c) \<Longrightarrow> \<exists>b w w'. c = BufferAnswer b \<and> I w \<and> BlobGet (AssetAccess D) d w = (b, w')"
  by (simp, metis (no_types, lifting) map_prod_answer(2) map_prod_def prod.collapse prod.inject split_beta)

lemma replay_get:
  assumes "Get (deployed_store (replayed D)) ref df s = (Done (Inr a), s')" "waits (performed D I) Q s" "\<not> waiting s'"
  obtains d b w w' where "message_digest (Outside D) df (MAssetReference ref) = Some d" "I w"
    "BlobGet (AssetAccess D) d w = (b, w')" "ToProto (Outside D) b KAsset (SizeLimit D) = Inr (MAsset a)"
proof -
  let ?b = "dummy_buffer (Outside D)"
  obtain x s1 where auth: "consult (AskAuthorizer False (GetInstanceName (Outside D) df)) s = (x, s1)" by fastforce
  with assms(1) obtain d where d: "message_digest (Outside D) df (MAssetReference ref) = Some d"
    and s': "s' = snd (consult (GetBlob d) s1)"
    and a: "ToProto (Outside D) (buffer_of ?b (fst (consult (GetBlob d) s1))) KAsset (SizeLimit D) = Inr (MAsset a)"
    by (auto simp: deployed_store_def Get_authorizing NewBlobAccessAssetStore_Get message_digest_def
        split: option.splits sum.splits message.splits prod.splits)
  obtain y where "consult (GetBlob d) s1 = (y, s')" using s' by (cases "consult (GetBlob d) s1") simp
  moreover from this assms(3) obtain c where "(GetBlob d, c) \<in> set (recorded s1)" "y = Some c"
    by (auto simp: waiting_def elim!: consult_cases)
  moreover have "set (recorded s1) \<subseteq> set (recorded s)"
    using auth by (auto elim!: consult_cases)
  ultimately have "performed D I (GetBlob d, c)" "fst (consult (GetBlob d) s1) = Some c"
    using assms(2) by (auto simp: waits_def simp del: performed.simps)
  with a that [OF d] show thesis by (auto dest!: performed_get simp del: performed.simps)
qed

lemma held_by_get:
  assumes "service_ok D contents" "BlobGet (AssetAccess D) d w = (b, w')"
    and "message_digest (Outside D) df (MAssetReference ref) = Some d"
    and "ToProto (Outside D) b KAsset (SizeLimit D) = Inr (MAsset a)"
  shows "held_assets D contents w df ref = Some a"
proof -
  from assms(1) have keeps: "keeps_blobs (Outside D) (AssetAccess D) contents" by (simp add: service_ok_def)
  show ?thesis
  proof (cases "contents w d")
    case None
    with keeps_blobs_Get_miss [OF keeps None, of KAsset "SizeLimit D"] assms(2,4) show ?thesis by simp
  next
    case (Some b')
    with keeps_blobs_Get_hit [OF keeps Some] assms show ?thesis
      by (simp add: held_assets_def blob_config_simps(3))
  qed
qed

text \<open>The response of a call that ended came from the backend, or was cached: held when it was
  read, so there at the beginning or brought by a call.\<close>

lemma concurrent_response:
  assumes ok: "service_ok D contents" and run: "concurrent contents D w0 ts w"
    and ended: "(FetchCall False req, tr) \<in> set ts" "progress D (FetchCall False req) tr = Inr (Fetched (Done (Some r, e)))"
  obtains (now) w1 w2 where "FetchBlob (Backend D) req w1 = (Done (Some r, None), w2)"
    | (cached) u df a where "u \<in> set (Uris req)" "r = cached_response False req u a"
      "held_assets D contents w0 df (cache_ref (Qualifiers req) u) = Some a \<or>
        call_origin D (map fst ts) df (cache_ref (Qualifiers req) u) a"
proof -
  let ?D = "replayed D" and ?I = "sourced D contents w0 (map fst ts)"
  let ?F = "waits (performed D ?I) (\<lambda>_. True)" and ?s = "\<lparr>recorded = tr, awaited = None\<rparr>"
  let ?caching = "NewCachingFetcher (Outside ?D) (Backend ?D) (deployed_store ?D)"
  from ended(2) obtain s' where "FetchBlob (deployed_fetcher ?D) req ?s = (Done (Some r, e), s')" "\<not> waiting s'"
    by (cases "FetchBlob (deployed_fetcher ?D) req ?s")
       (auto simp: progress_def fetch_call_def waiting_def split: option.splits)
  moreover have "?F ?s"
    using concurrent_sourced [OF ok run] ended(1) by (auto simp: accounted_def waits_def simp del: performed.simps)
  moreover have "preserves ?F (FetchBlob ?caching req)"
    unfolding FetchBlob_caching using replay_frames_any(5) [of _ _ False req]
    by (intro caching_with_preserves replay_store_any) (simp_all add: replay_frames_any fetch_call_def)
  ultimately obtain s1 s2 where "FetchBlob ?caching req s1 = (Done (Some r, None), s2)" "?F s1" "\<not> waiting s2"
    using layers_response_between [where P = waiting and F = ?F and X = "Outside ?D" and A = "FetchAuthorizer ?D"]
      replay_frames_any(1,2) replay_waiting unfolding deployed_fetcher_def replayed_fields by metis
  then have caching: "caching_with (Outside ?D) (deployed_store ?D) False req (FetchBlob (Backend ?D) req) s1 =
      (Done (Some r, None), s2)" and s1: "?F s1" and s2: "\<not> waiting s2"
    by (simp_all add: FetchBlob_caching)
  from caching show thesis
  proof (cases rule: caching_with_cases)
    case (hit df oldest u a)
    from checkCache_between [where F = ?F and P = waiting, OF hit(4) _ replay_store_any(1) _ s1 s2]
    obtain v1 v2 where u: "u \<in> set (Uris req)"
      and "Get (deployed_store ?D) (cache_ref (Qualifiers req) u) df v1 = (Done (Inr a), v2)" "?F v1" "\<not> waiting v2"
      by (auto simp: replay_frames_any replay_waiting)
    from replay_get [OF this(2-4)] obtain d b w w' where
      "message_digest (Outside D) df (MAssetReference (cache_ref (Qualifiers req) u)) = Some d" and I: "?I w"
      and "BlobGet (AssetAccess D) d w = (b, w')" "ToProto (Outside D) b KAsset (SizeLimit D) = Inr (MAsset a)" by metis
    then have "held_assets D contents w df (cache_ref (Qualifiers req) u) = Some a"
      using held_by_get [OF ok] by blast
    with I cached [OF u hit(5)] show ?thesis unfolding sourced_def kbs.holds_only_def by blast
  next
    case (fetched df oldest errs v1 v2)
    have "preserves ?F (checkCache (Outside ?D) (deployed_store ?D) (Qualifiers req) df oldest (Uris req) [])"
      by (rule checkCache_preserves) (simp_all add: replay_frames_any replay_store_any)
    then have "?F v1" using fetched(3) s1 by (rule preservesD)
    moreover have "(AskBackend False req, ReplyAnswer (Done (Some r, None))) \<in> set (recorded v1)"
      using fetched(4) replay_backend [of "Backend D" False req v1] by (simp add: fetch_call_def)
    ultimately have "performed D ?I (AskBackend False req, ReplyAnswer (Done (Some r, None)))"
      by (simp add: waits_def del: performed.simps)
    with now show ?thesis by (auto simp: fetch_call_def)
  qed
qed

subsection \<open>A call without interruption\<close>

text \<open>A trace of effects performed one after another.\<close>

fun performs ::
  "('i, 'f, 'd, 'b, 'w) deployment \<Rightarrow> 'w \<Rightarrow> (('i, 'd, 'b) effect \<times> 'b answer) list \<Rightarrow> 'w \<Rightarrow> bool" where
  "performs D w [] w' \<longleftrightarrow> w' = w"
| "performs D w ((e, a) # tr) w' \<longleftrightarrow> (\<exists>w1. perform D e w = (a, w1) \<and> performs D w1 tr w')"

lemma performs_append: "performs D w (tr1 @ tr2) w' \<longleftrightarrow> (\<exists>w1. performs D w tr1 w1 \<and> performs D w1 tr2 w')"
  by (induction D w tr1 w' rule: performs.induct) auto

text \<open>A computation and the same computation replayed: each run of the one is a trace which the
  other uses up, and of which it asks for every effect in turn.\<close>

definition asks_for :: "(('i, 'd, 'b) replay, 'a) comp \<Rightarrow> (('i, 'd, 'b) effect \<times> 'b answer) list \<Rightarrow> bool" where
  "asks_for m tr \<longleftrightarrow> (\<forall>tr1 e a tr2. tr = tr1 @ (e, a) # tr2 \<longrightarrow>
     awaited (snd (m \<lparr>recorded = tr1, awaited = None\<rparr>)) = Some e)"

definition mirrors ::
  "('i, 'f, 'd, 'b, 'w) deployment \<Rightarrow> ('w, 'a) comp \<Rightarrow> (('i, 'd, 'b) replay, 'a) comp \<Rightarrow> bool" where
  "mirrors D m m' \<longleftrightarrow>
     (\<forall>s e. awaited s = Some e \<longrightarrow> awaited (snd (m' s)) = Some e) \<and>
     (\<forall>w r w'. m w = (r, w') \<longrightarrow> (\<exists>tr. performs D w tr w' \<and> asks_for m' tr \<and>
        (\<forall>rest. m' \<lparr>recorded = tr @ rest, awaited = None\<rparr> = (r, \<lparr>recorded = rest, awaited = None\<rparr>))))"

lemma mirrorsD:
  assumes "mirrors D m m'" "m w = (r, w')"
  obtains tr where "performs D w tr w'" "asks_for m' tr"
    "\<And>rest. m' \<lparr>recorded = tr @ rest, awaited = None\<rparr> = (r, \<lparr>recorded = rest, awaited = None\<rparr>)"
  using assms unfolding mirrors_def by metis

lemma mirrors_waiting: "mirrors D m m' \<Longrightarrow> awaited s = Some e \<Longrightarrow> awaited (snd (m' s)) = Some e"
  unfolding mirrors_def by blast

lemma mirrors_pure:
  "mirrors D (ret a) (ret a)" "mirrors D (panicM p) (panicM p)" "mirrors D (lift r) (lift r)" "mirrors D (deref q) (deref q)"
proof -
  have pure: "mirrors D (\<lambda>w. (r, w)) (\<lambda>s. (r, s))" for r :: "'x run"
    unfolding mirrors_def asks_for_def by (auto intro!: exI [of _ "[]"])
  show "mirrors D (ret a) (ret a)" "mirrors D (panicM p) (panicM p)" "mirrors D (lift r) (lift r)"
    using pure by (simp_all add: ret_def panicM_def lift_def)
  then show "mirrors D (deref q) (deref q)"
    using pure by (cases q) (simp_all add: ret_def panicM_def)
qed

lemma bindM_Unfinished: "m w = (Unfinished, w') \<Longrightarrow> bindM m f w = (Unfinished, w')"
  by (simp add: bindM_def)

lemma asks_for_bindM:
  assumes m: "asks_for m tr1" "\<And>rest. m \<lparr>recorded = tr1 @ rest, awaited = None\<rparr> = (Done a, \<lparr>recorded = rest, awaited = None\<rparr>)"
    and k: "asks_for (k a) tr2" "\<And>x s e. awaited s = Some e \<Longrightarrow> awaited (snd (k x s)) = Some e"
  shows "asks_for (bindM m k) (tr1 @ tr2)"
  unfolding asks_for_def
proof (intro allI impI)
  fix p e x q
  assume "tr1 @ tr2 = p @ (e, x) # q"
  then consider us where "tr1 = p @ (e, x) # us" | us where "p = tr1 @ us" "tr2 = us @ (e, x) # q"
    by (auto simp: append_eq_append_conv2 append_eq_Cons_conv Cons_eq_append_conv)
  then show "awaited (snd (bindM m k \<lparr>recorded = p, awaited = None\<rparr>)) = Some e"
  proof cases
    case 1
    obtain r s where run: "m \<lparr>recorded = p, awaited = None\<rparr> = (r, s)" by fastforce
    with m(1) 1 have "awaited s = Some e" unfolding asks_for_def by fastforce
    with run k(2) show ?thesis by (cases r) (simp_all add: bindM_def)
  next
    case 2
    with m(2) k(1) show ?thesis by (simp add: bindM_def asks_for_def)
  qed
qed

lemma asks_for_stop:
  assumes "asks_for m tr" "\<And>x s e. awaited s = Some e \<Longrightarrow> awaited (snd (k x s)) = Some e"
  shows "asks_for (bindM m k) tr"
  unfolding asks_for_def
proof (intro allI impI)
  fix p e x q
  assume "tr = p @ (e, x) # q"
  moreover obtain r s where run: "m \<lparr>recorded = p, awaited = None\<rparr> = (r, s)" by fastforce
  ultimately have "awaited s = Some e" using assms(1) unfolding asks_for_def by fastforce
  with run assms(2) show "awaited (snd (bindM m k \<lparr>recorded = p, awaited = None\<rparr>)) = Some e"
    by (cases r) (simp_all add: bindM_def)
qed

lemma mirrors_bindM:
  fixes D :: "('i, 'f, 'd, 'b, 'w) deployment"
  assumes m: "mirrors D m m'" and k: "\<And>a. mirrors D (k a) (k' a)"
  shows "mirrors D (bindM m k) (bindM m' k')"
  unfolding mirrors_def
proof (intro conjI allI impI)
  fix s :: "('i, 'd, 'b) replay" and e
  assume "awaited s = Some e"
  moreover obtain r s1 where "m' s = (r, s1)" by fastforce
  ultimately show "awaited (snd (bindM m' k' s)) = Some e"
    using mirrors_waiting [OF m, of s e] mirrors_waiting [OF k] by (cases r) (simp_all add: bindM_def)
next
  fix w r w'
  assume run: "bindM m k w = (r, w')"
  obtain r1 w1 where m1: "m w = (r1, w1)" by fastforce
  from mirrorsD [OF m m1] obtain tr1 where tr1: "performs D w tr1 w1" "asks_for m' tr1"
    "\<And>rest. m' \<lparr>recorded = tr1 @ rest, awaited = None\<rparr> = (r1, \<lparr>recorded = rest, awaited = None\<rparr>)" by metis
  have waiting: "awaited s = Some e \<Longrightarrow> awaited (snd (k' x s)) = Some e" for x s e
    by (rule mirrors_waiting [OF k])
  show "\<exists>tr. performs D w tr w' \<and> asks_for (bindM m' k') tr \<and>
      (\<forall>rest. bindM m' k' \<lparr>recorded = tr @ rest, awaited = None\<rparr> = (r, \<lparr>recorded = rest, awaited = None\<rparr>))"
  proof (cases r1)
    case (Done a)
    with run m1 have "k a w1 = (r, w')" by (simp add: bindM_def)
    from mirrorsD [OF k this] obtain tr2 where "performs D w1 tr2 w'" "asks_for (k' a) tr2"
      "\<And>rest. k' a \<lparr>recorded = tr2 @ rest, awaited = None\<rparr> = (r, \<lparr>recorded = rest, awaited = None\<rparr>)" by metis
    with tr1 Done show ?thesis
      by (intro exI [of _ "tr1 @ tr2"]) (auto simp: performs_append bindM_Done intro: asks_for_bindM waiting)
  next
    case (Panic p)
    with run m1 have "r = Panic p" "w' = w1" by (simp_all add: bindM_Panic)
    with tr1 Panic show ?thesis by (auto simp: bindM_Panic intro!: exI [of _ tr1] asks_for_stop waiting)
  next
    case Unfinished
    with run m1 have "r = Unfinished" "w' = w1" by (simp_all add: bindM_Unfinished)
    with tr1 Unfinished show ?thesis by (auto simp: bindM_Unfinished intro!: exI [of _ tr1] asks_for_stop waiting)
  qed
qed

lemma mirrors_effect:
  assumes "\<And>w a w'. perform D e w = (a, w') \<Longrightarrow> m w = (g (Some a), w')"
  shows "mirrors D m (\<lambda>s. map_prod g id (consult e s))"
  unfolding mirrors_def
proof (intro conjI allI impI)
  fix w r w'
  assume "m w = (r, w')"
  moreover obtain a w1 where run: "perform D e w = (a, w1)" by fastforce
  ultimately show "\<exists>tr. performs D w tr w' \<and> asks_for (\<lambda>s. map_prod g id (consult e s)) tr \<and>
      (\<forall>rest. map_prod g id (consult e \<lparr>recorded = tr @ rest, awaited = None\<rparr>) = (r, \<lparr>recorded = rest, awaited = None\<rparr>))"
    using assms by (intro exI [of _ "[(e, a)]"]) (auto simp: asks_for_def consult_def Cons_eq_append_conv)
qed (simp add: consult_def)

lemma mirrors_tryM: "mirrors D m m' \<Longrightarrow> (\<And>a. mirrors D (k a) (k' a)) \<Longrightarrow> mirrors D (tryM m k) (tryM m' k')"
  unfolding tryM_def by (rule mirrors_bindM) (auto intro: mirrors_pure split: sum.split)

lemma mirrors_checkM: "mirrors D m m' \<Longrightarrow> mirrors D k k' \<Longrightarrow> mirrors D (checkM m k) (checkM m' k')"
  unfolding checkM_def by (rule mirrors_bindM) (auto intro: mirrors_pure split: option.split)

lemma mirrors_forM: "(\<And>x. mirrors D (body x) (body' x)) \<Longrightarrow> mirrors D (forM xs body) (forM xs body')"
  by (induction xs) (auto intro: mirrors_pure mirrors_tryM simp del: ret_run)

lemma mirrors_replyM: "mirrors D m m' \<Longrightarrow> mirrors D (replyM m) (replyM m')"
  unfolding replyM_def by (intro mirrors_bindM mirrors_pure)

lemma mirrors_call:
  assumes "\<And>s. f' s = map_prod g id (consult e s)" "\<And>w. f w = map_prod (\<lambda>a. g (Some a)) id (perform D e w)"
  shows "mirrors D (call f) (call f')"
proof -
  have "call f' = (\<lambda>s. map_prod (\<lambda>a. Done (g a)) id (consult e s))"
    by (rule ext) (simp add: call_run assms(1) map_prod_def split_beta)
  moreover have "mirrors D (call f) (\<lambda>s. map_prod (\<lambda>a. Done (g a)) id (consult e s))"
    by (rule mirrors_effect) (simp add: assms(2))
  ultimately show ?thesis by simp
qed

text \<open>Each effect of the code outside mirrors its consultation.\<close>

lemma mirrors_outside:
  "mirrors D (call (TimeNow (Outside D))) (call (TimeNow (replayed_ext (Outside D))))"
  "mirrors D (call (LogPrintf (Outside D) l)) (call (LogPrintf (replayed_ext (Outside D)) l))"
  "mirrors D (call (Observe (Outside D) v c t n)) (call (Observe (replayed_ext (Outside D)) v c t n))"
  "mirrors D (call (AuthorizeSingleInstanceName (FetchAuthorizer D) i)) (call (AuthorizeSingleInstanceName (replayed_auth False) i))"
  "mirrors D (call (AuthorizeSingleInstanceName (PushAuthorizer D) i)) (call (AuthorizeSingleInstanceName (replayed_auth True) i))"
  "mirrors D (call (BlobGet (AssetAccess D) d)) (call (BlobGet (replayed_access buf) d))"
  "mirrors D (call (BlobPut (AssetAccess D) d b)) (call (BlobPut (replayed_access buf) d b))"
proof -
  note eta = map_prod_def split_beta
  show "mirrors D (call (TimeNow (Outside D))) (call (TimeNow (replayed_ext (Outside D))))"
    by (rule mirrors_call [where e = ReadClock]) (simp, simp add: eta)
  show "mirrors D (call (LogPrintf (Outside D) l)) (call (LogPrintf (replayed_ext (Outside D)) l))"
    by (rule mirrors_call [where e = "WriteLog l"]) (simp, simp add: eta prod_eq_iff)
  show "mirrors D (call (Observe (Outside D) v c t n)) (call (Observe (replayed_ext (Outside D)) v c t n))"
    by (rule mirrors_call [where e = "ObserveMetric v c t n"]) (simp, simp add: eta prod_eq_iff)
  show "mirrors D (call (AuthorizeSingleInstanceName (FetchAuthorizer D) i)) (call (AuthorizeSingleInstanceName (replayed_auth False) i))"
    by (rule mirrors_call [where e = "AskAuthorizer False i"]) (simp, simp add: eta)
  show "mirrors D (call (AuthorizeSingleInstanceName (PushAuthorizer D) i)) (call (AuthorizeSingleInstanceName (replayed_auth True) i))"
    by (rule mirrors_call [where e = "AskAuthorizer True i"]) (simp, simp add: eta)
  show "mirrors D (call (BlobGet (AssetAccess D) d)) (call (BlobGet (replayed_access buf) d))"
    by (rule mirrors_call [where e = "GetBlob d"]) (simp, simp add: eta)
  show "mirrors D (call (BlobPut (AssetAccess D) d b)) (call (BlobPut (replayed_access buf) d b))"
    by (rule mirrors_call [where e = "PutBlob d b"]) (simp, simp add: eta)
qed

lemma replayed_backend_call:
  "fetch_call (replayed_backend f) q req = (\<lambda>s. map_prod reply_of id (consult (AskBackend q req) s))"
  by (rule ext) simp

lemma mirrors_backend: "mirrors D (fetch_call (Backend D) q req) (fetch_call (replayed_backend (Backend D)) q req)"
  unfolding replayed_backend_call by (rule mirrors_effect) (auto simp: map_prod_def split: prod.splits)

lemmas mirror_rules = mirrors_bindM mirrors_tryM mirrors_checkM mirrors_forM mirrors_replyM mirrors_pure mirrors_outside


subsection \<open>Every handler mirrors itself\<close>

lemma mirrors_store:
  "mirrors D (Get (deployed_store D) ref df) (Get (deployed_store (replayed D)) ref df)"
  "mirrors D (Put (deployed_store D) ref a df) (Put (deployed_store (replayed D)) ref a df)"
  by (auto simp: deployed_store_def NewAuthorizingAssetStore_def AuthorizingAssetStore_Get_def AuthorizingAssetStore_Put_def
      NewBlobAccessAssetStore_def blobAccessAssetStore_Get_def blobAccessAssetStore_Put_def Let_def case_prod_beta
      intro!: mirror_rules split: sum.split message.split
      simp del: ret_run panicM_run bindM_call checkM_call)

lemma mirrors_NewAsset: "mirrors D (NewAsset (Outside D) d t e) (NewAsset (replayed_ext (Outside D)) d t e)"
  unfolding NewAsset_def replayed_ext_fields by (intro mirror_rules)

lemma mirrors_caching:
  assumes "mirrors D m m'"
  shows "mirrors D (caching_with (Outside D) (deployed_store D) q req m)
    (caching_with (replayed_ext (Outside D)) (deployed_store (replayed D)) q req m')"
proof -
  let ?X = "Outside D" and ?s = "deployed_store D" and ?Y = "replayed_ext (Outside D)" and ?t = "deployed_store (replayed D)"
  have check: "mirrors D (getAndCheckAsset ?X ?s u qs df oldest) (getAndCheckAsset ?Y ?t u qs df oldest)" for u qs df oldest
    unfolding getAndCheckAsset_def replayed_ext_fields
    by (auto intro!: mirror_rules mirrors_store simp: Let_def simp del: ret_run bindM_call split: option.split)
  have cache: "mirrors D (checkCache ?X ?s qs df oldest us errs) (checkCache ?Y ?t qs df oldest us errs)" for qs df oldest us errs
    by (induction us arbitrary: errs) (auto intro!: mirror_rules check split: sum.split simp del: ret_run bindM_call)
  have stores: "mirrors D (store_response ?X ?s q df req rsp) (store_response ?Y ?t q df req rsp)" for q df rsp
    unfolding store_response_def replayed_pure by (intro mirror_rules mirrors_NewAsset mirrors_store)
  have after: "mirrors D (after_fetch ?X ?s q df req errs p) (after_fetch ?Y ?t q df req errs p)" for df errs p
    by (auto simp: after_fetch_def case_prod_beta intro!: mirror_rules stores split: option.split sum.split simp del: ret_run panicM_run)
  show ?thesis
    unfolding caching_with_def replayed_pure
    by (auto intro!: mirror_rules cache after assms split: sum.split simp del: ret_run)
qed

lemma mirrors_layers:
  assumes "\<And>q. mirrors D (fetch_call f q req) (fetch_call f' q req)" "CheckQualifiers f' = CheckQualifiers f"
  shows "mirrors D (fetch_call (fetch_layers (Outside D) (FetchAuthorizer D) f) q req)
    (fetch_call (fetch_layers (replayed_ext (Outside D)) (replayed_auth False) f') q req)"
proof -
  have inner: "mirrors D (FetchBlob f req) (FetchBlob f' req)" "mirrors D (FetchDirectory f req) (FetchDirectory f' req)"
    using assms(1) [of False] assms(1) [of True] by (simp_all add: fetch_call_def)
  show ?thesis
    using inner
    by (cases q)
       (auto simp: fetch_call_def fetch_layers_def NewAuthorizingFetcher_def AuthorizingFetcher_FetchBlob_def
        AuthorizingFetcher_FetchDirectory_def metrics_defs logging_defs logCompleted_def vf.wrap_blob vf.wrap_directory
        gated_def validation_def Let_def case_prod_beta assms(2)
        intro!: mirror_rules split: sum.split option.split simp del: ret_run lift_run panicM_run bindM_call)
qed

lemma mirrors_fetch: "mirrors D (fetch_call (deployed_fetcher D) q req) (fetch_call (deployed_fetcher (replayed D)) q req)"
  unfolding deployed_fetcher_def replayed_fields
proof (rule mirrors_layers)
  fix q
  show "mirrors D (fetch_call (NewCachingFetcher (Outside D) (Backend D) (deployed_store D)) q req)
      (fetch_call (NewCachingFetcher (replayed_ext (Outside D)) (replayed_backend (Backend D)) (deployed_store (replayed D))) q req)"
    using mirrors_caching [OF mirrors_backend [of D q req]]
    by (cases q) (simp_all add: fetch_call_def FetchBlob_caching FetchDirectory_caching)
qed simp

lemma mirrors_push: "mirrors D (push_call (deployed_pusher D) q req) (push_call (deployed_pusher (replayed D)) q req)"
proof -
  let ?X = "Outside D" and ?Y = "replayed_ext (Outside D)"
  let ?s = "\<lparr>assetStore = deployed_store D, allowUpdatesForInstances = UpdatesAllowed D\<rparr>"
  let ?t = "\<lparr>assetStore = deployed_store (replayed D), allowUpdatesForInstances = UpdatesAllowed D\<rparr>"
  have one: "mirrors D (push_one ?X (deployed_store D) t req df ref) (push_one ?Y (deployed_store (replayed D)) t req df ref)"
    for t df ref
    unfolding push_one_def by (intro mirror_rules mirrors_NewAsset mirrors_store)
  have inner: "mirrors D (push_with ?X ?s t m1 m2 req) (push_with ?Y ?t t m1 m2 req)" for t m1 m2
    unfolding push_with_def replayed_pure
    by (auto simp: may_update_iff intro!: mirror_rules one split: sum.split simp del: ret_run)
  have after: "request_after ?Y ?t req = request_after ?X ?s req"
    by (simp add: request_after_def may_update_def split: sum.split)
  show ?thesis
    by (cases q)
       (auto simp: after push_call_def deployed_pusher_def NewMetricsAssetPushServer_run
        push_updateBlobSizeBytes_def push_updateDurationSeconds_def NewAssetPushServer_run
        PushBlob_push_with PushDirectory_push_with Let_def case_prod_beta
        intro!: mirror_rules inner split: option.split simp del: ret_run bindM_call)
qed

text \<open>The steps of a call that nothing interrupts: it asked for each effect of the trace.\<close>

definition asked ::
  "('i, 'f, 'd, 'b, 'w) deployment \<Rightarrow> service_call \<Rightarrow> (('i, 'd, 'b) effect \<times> 'b answer) list \<Rightarrow> bool" where
  "asked D c tr \<longleftrightarrow> (\<forall>tr1 e a tr2. tr = tr1 @ (e, a) # tr2 \<longrightarrow> progress D c tr1 = Inl e)"

lemma mirrors_progress:
  assumes "\<And>s. serve (replayed D) c s = map_prod g id (m' s)" "\<And>w. serve D c w = map_prod g id (m w)"
    and "mirrors D m m'" "serve D c w = (out, w')"
  shows "\<exists>tr. asked D c tr \<and> performs D w tr w' \<and> progress D c tr = Inr out"
proof -
  from assms(2,4) obtain r where r: "m w = (r, w')" "out = g r" by (cases "m w") auto
  from mirrorsD [OF assms(3) r(1)] obtain tr where tr: "performs D w tr w'" "asks_for m' tr"
    "\<And>rest. m' \<lparr>recorded = tr @ rest, awaited = None\<rparr> = (r, \<lparr>recorded = rest, awaited = None\<rparr>)" by metis
  have "progress D c tr = Inr out"
    using tr(3) [of "[]"] r(2) by (simp add: progress_def assms(1))
  moreover have "asked D c tr"
    unfolding asked_def
  proof (intro allI impI)
    fix tr1 e a tr2
    assume "tr = tr1 @ (e, a) # tr2"
    with tr(2) have "awaited (snd (m' \<lparr>recorded = tr1, awaited = None\<rparr>)) = Some e" unfolding asks_for_def by blast
    then show "progress D c tr1 = Inl e"
      by (cases "m' \<lparr>recorded = tr1, awaited = None\<rparr>") (simp add: progress_def assms(1))
  qed
  ultimately show ?thesis using tr(1) by blast
qed

lemma serve_steps:
  assumes "serve D c w = (out, w')"
  shows "\<exists>tr. asked D c tr \<and> performs D w tr w' \<and> progress D c tr = Inr out"
  using assms by (cases c) (auto intro: mirrors_progress [OF _ _ mirrors_fetch] mirrors_progress [OF _ _ mirrors_push])

text \<open>Nothing is left to chance but what the code outside answers.\<close>

lemma asked_unique:
  assumes "asked D c (p @ tr)" "performs D w tr w'" "progress D c (p @ tr) = Inr out"
    and "asked D c (p @ tr')" "performs D w tr' w''" "progress D c (p @ tr') = Inr out'"
  shows "out = out' \<and> w' = w''"
  using assms
proof (induction tr arbitrary: p w tr')
  case Nil
  show ?case
  proof (cases tr')
    case (Cons x xs)
    with Nil show ?thesis by (cases x) (auto simp: asked_def)
  qed (use Nil in simp)
next
  case (Cons x tr)
  obtain e a where x: "x = (e, a)" by fastforce
  have p: "progress D c p = Inl e" using Cons.prems(1) unfolding asked_def x by blast
  show ?case
  proof (cases tr')
    case Nil
    with Cons.prems(6) p show ?thesis by simp
  next
    case (Cons y ys)
    obtain e' b where y: "y = (e', b)" by fastforce
    have "progress D c p = Inl e'" using Cons.prems(4) Cons unfolding asked_def y by blast
    with p have "e' = e" by simp
    with Cons.prems(2,5) x y Cons obtain w1 where "b = a" "performs D w1 tr w'" "performs D w1 ys w''" by auto
    with Cons.IH [of "p @ [x]" w1 ys] Cons.prems(1,3,4,6) x y Cons \<open>e' = e\<close> show ?thesis by simp
  qed
qed

lemma serve_iff_steps:
  "serve D c w = (out, w') \<longleftrightarrow> (\<exists>tr. asked D c tr \<and> performs D w tr w' \<and> progress D c tr = Inr out)"
proof
  assume "\<exists>tr. asked D c tr \<and> performs D w tr w' \<and> progress D c tr = Inr out"
  then obtain tr where tr: "asked D c tr" "performs D w tr w'" "progress D c tr = Inr out" by blast
  obtain out' w'' where run: "serve D c w = (out', w'')" by fastforce
  from serve_steps [OF run] obtain tr' where "asked D c tr'" "performs D w tr' w''" "progress D c tr' = Inr out'" by blast
  with asked_unique [of D c "[]" tr] tr run show "serve D c w = (out, w')" by fastforce
qed (rule serve_steps)

text \<open>So a call that is served in one go is one of the interleavings.\<close>

lemma concurrent_steps:
  assumes "concurrent contents D w0 ((c, p) # ts) w" "asked D c (p @ tr)" "performs D w tr w'"
  shows "concurrent contents D w0 ((c, p @ tr) # ts) w'"
  using assms
proof (induction tr arbitrary: p w)
  case (Cons x tr)
  obtain e a where x: "x = (e, a)" by fastforce
  with Cons.prems(3) obtain w1 where e: "perform D e w = (a, w1)" and rest: "performs D w1 tr w'" by auto
  have "progress D c p = Inl e" using Cons.prems(2) unfolding asked_def x by blast
  from concurrent.stepped [OF Cons.prems(1) _ _ this e, of 0]
  have "concurrent contents D w0 ((c, p @ [x]) # ts) w1" by (simp add: x)
  with Cons.IH [OF this _ rest] Cons.prems(2) show ?case by simp
qed simp

lemma concurrent_alone:
  assumes "concurrent contents D w0 ts w" "serve D c w = (out, w')"
  shows "\<exists>tr. concurrent contents D w0 ((c, tr) # ts) w' \<and> progress D c tr = Inr out"
proof -
  from serve_steps [OF assms(2)] obtain tr where "asked D c tr" "performs D w tr w'" "progress D c tr = Inr out" by blast
  with concurrent_steps [OF concurrent.arrived [OF assms(1)], of c tr w'] show ?thesis by auto
qed

lemma history_concurrent:
  assumes "history contents (deployed_fetcher D) (deployed_pusher D) w0 h w"
  shows "\<exists>ts. concurrent contents D w0 ts w \<and> map fst ts = h"
  using assms
proof (induction rule: history.induct)
  case begun
  show ?case using concurrent.started by fastforce
next
  case (elapsed h w w')
  then obtain ts where ts: "concurrent contents D w0 ts w" "map fst ts = h" by auto
  from concurrent.waited [OF ts(1) elapsed.hyps(2)] ts(2) show ?case by metis
next
  case (fetched h w d req r w')
  then have "serve D (FetchCall d req) w = (Fetched r, w')" by simp
  with fetched.IH concurrent_alone show ?case by fastforce
next
  case (pushed h w d preq r w')
  then have "serve D (PushCall d preq) w = (Pushed r, w')" by simp
  with pushed.IH concurrent_alone show ?case by fastforce
qed

end
