(* ===== verification/InterleavingProperties.thy ===== *)
theory InterleavingProperties
  imports InterleavedRuns HistoryProperties
begin

section \<open>Properties of calls that run at the same time\<close>

text \<open>
  The service of the configuration, with its calls interleaved: what the store can hold and what a
  fetch can answer, in any order of the steps; and that the servers \<open>main\<close> builds do, call by
  call, what the steps do.
\<close>

subsection \<open>The configured service in steps\<close>

definition http_deployment ::
  "('i, 'f, 'd, 'b, 'w) ext \<Rightarrow> ('f, 'd, 'b, 'o, 't, 'w) http_ext \<Rightarrow> nat \<Rightarrow> int \<Rightarrow> ('o, 'w) HttpClient \<Rightarrow>
     ('d, 'b, 'w) BlobAccess \<Rightarrow> ('d, 'b, 'w) BlobAccess \<Rightarrow> ('i, 'w) Authorizer \<Rightarrow> ('i, 'w) Authorizer \<Rightarrow>
     ('i \<rightharpoonup> bool) \<Rightarrow> ('i, 'f, 'd, 'b, 'w) deployment" where
  "http_deployment X H n lim client cas ba fa pa allow = \<lparr>Outside = X, FetchAuthorizer = fa, PushAuthorizer = pa,
     AssetAccess = ba, SizeLimit = lim, UpdatesAllowed = allow, Backend = NewHTTPFetcher X H n client cas\<rparr>"

lemma http_deployment_fields [simp]:
  "Outside (http_deployment X H n lim client cas ba fa pa allow) = X"
  "UpdatesAllowed (http_deployment X H n lim client cas ba fa pa allow) = allow"
  "Backend (http_deployment X H n lim client cas ba fa pa allow) = NewHTTPFetcher X H n client cas"
  "held_assets (http_deployment X H n lim client cas ba fa pa allow) contents = blob_view (X, ba, lim, contents)"
  by (simp_all add: http_deployment_def held_assets_def)

lemma http_service_ok:
  assumes "http_environment X H client cas contents ba assets fa pa"
  shows "service_ok (http_deployment X H n lim client cas ba fa pa allow) assets"
proof -
  have "http_keeps X H client assets" "separate cas assets"
    using assms by (simp_all add: http_environment_def)
  note http_backend_keeps [OF this]
  moreover have "log_keeps X assets"
    using \<open>http_keeps X H client assets\<close> by (simp add: http_keeps_def transfers_keep_def)
  ultimately show ?thesis
    using assms by (simp add: http_environment_def service_ok_def http_deployment_def)
qed

lemma http_deployed:
  fixes env :: "('g, 'h, 'r, 'f, 'd, 'b, 'o, 't, 's, 'w) factories"
  assumes "newServers X env n config cas fa pa = Inr (fs, ps)" "http_configured X env config ba client allow"
  defines "D \<equiv> http_deployment X (HttpLibrary env) n (MaximumMessageSizeBytes config) client cas ba fa pa allow"
  shows "fs = deployed_fetcher D" "ps = deployed_pusher D"
proof -
  from assms(2) obtain cache g h where conf: "AssetCache config = Some cache" "CacheBackend cache = BackendBlobAccess g"
      "NewAssetBlobAccess env g = Inr ba" "FetcherConf config = Some (BackendHttp h)" "NewHttpClient env h = Inr client"
    and allow: "allowUpdates X (AllowUpdatesForInstances config) Map.empty = Inr allow"
    unfolding http_configured_def by blast
  show "fs = deployed_fetcher D"
    using newServers_http [OF assms(1) conf] by (simp add: deployed_fetcher_def deployed_store_def D_def http_deployment_def)
  show "ps = deployed_pusher D"
    using assms(1) conf allow
    by (auto simp: newServers_def NewAssetStoreFromConfiguration_def Let_def deployed_pusher_def deployed_store_def
        D_def http_deployment_def split: sum.split_asm)
qed

subsection \<open>An example\<close>

text \<open>A fetch asks the authorizer and is overtaken by a push of the blob it wants; a second fetch
  begins after the push and is served.\<close>

abbreviation http_steps where
  "http_steps \<equiv> http_deployment world_X (HttpLibrary example_env) 2 (MaximumMessageSizeBytes http_config) web objects_ba
     stored_ba always always [''inst'' \<mapsto> True]"

lemma http_steps_servers:
  "http_service = deployed_fetcher http_steps" "example_pusher example_store = deployed_pusher http_steps"
  using http_deployed [OF http_servers http_example(1)] .

lemma http_steps_ok: "service_ok http_steps stored"
  using http_service_ok [OF http_example(2)] .

lemma first_step: "progress http_steps (FetchCall False request0) [] = Inl (AskAuthorizer False ''inst'')"
  by (simp add: progress_def deployed_fetcher_def fetch_layers_def NewAuthorizingFetcher_def AuthorizingFetcher_FetchBlob_def
      fetch_call_def consult_def http_deployment_def request0_def Let_def call_run bindM_def)

lemma example_interleaving:
  "\<exists>tr1 tr2 w1 w2 r a. concurrent stored http_steps world0
      [(PushCall False push0, tr1), (FetchCall False request0, [(AskAuthorizer False ''inst'', ErrorAnswer None)])] w1 \<and>
    blob_view (world_X, stored_ba, MaximumMessageSizeBytes http_config, stored) w1 (''inst'', DF_SHA256) (cache_ref [] ''u'') = Some a \<and>
    concurrent stored http_steps world0 [(FetchCall False request0, tr2), (PushCall False push0, tr1),
      (FetchCall False request0, [(AskAuthorizer False ''inst'', ErrorAnswer None)])] w2 \<and>
    progress http_steps (FetchCall False request0) tr2 = Inr (Fetched (Done (Some r, None)))"
proof -
  obtain w1 r w2 a where push: "PushBlob (example_pusher example_store) push0 world0 = (Done (Some (), None), w1)"
    and held: "blob_view (world_X, stored_ba, 100, stored) w1 (''inst'', DF_SHA256) (cache_ref [] ''u'') = Some a"
    and fetch: "FetchBlob http_service request0 w1 = (Done (Some r, None), w2)"
    using example_pushed by blast
  have "perform http_steps (AskAuthorizer False ''inst'') world0 = (ErrorAnswer None, world0)"
    by (simp add: http_deployment_def)
  from concurrent.stepped [OF concurrent.arrived [OF concurrent.started] _ _ first_step this, where i = 0 and contents = stored]
  have begun: "concurrent stored http_steps world0
      [(FetchCall False request0, [(AskAuthorizer False ''inst'', ErrorAnswer None)])] world0" by simp
  from push have "serve http_steps (PushCall False push0) world0 = (Pushed (Done (Some (), None)), w1)"
    by (simp add: http_steps_servers push_call_def)
  from concurrent_alone [OF begun this] obtain tr1 where pushed: "concurrent stored http_steps world0
      [(PushCall False push0, tr1), (FetchCall False request0, [(AskAuthorizer False ''inst'', ErrorAnswer None)])] w1" by blast
  from fetch have "serve http_steps (FetchCall False request0) w1 = (Fetched (Done (Some r, None)), w2)"
    by (simp add: http_steps_servers fetch_call_def)
  from concurrent_alone [OF pushed this] pushed held show ?thesis
    by (auto simp: http_config_def example_config_def)
qed

text \<open>The two servers that the configuration builds do, in a call, exactly what its steps do
  one after another: a fetch or a push returns a result in a world if and only if there is a
  sequence of effects, each the one that the handler asks for after the answers so far, that leads
  to that world and after which the handler returns that result. So running the calls step by step,
  as the interleavings do, adds and loses no behaviour of a call.\<close>

theorem service_in_steps:
  fixes env :: "('g, 'h, 'r, 'f, 'd, 'b, 'o, 't, 's, 'w) factories"
  assumes "newServers X env n config cas fa pa = Inr (fs, ps)" "http_configured X env config ba client allow"
    and "D = http_deployment X (HttpLibrary env) n (MaximumMessageSizeBytes config) client cas ba fa pa allow"
  shows "(fetch_call fs d req w = (r, w') \<longleftrightarrow>
      (\<exists>tr. asked D (FetchCall d req) tr \<and> performs D w tr w' \<and> progress D (FetchCall d req) tr = Inr (Fetched r))) \<and>
    (push_call ps d preq w = (pr, w') \<longleftrightarrow>
      (\<exists>tr. asked D (PushCall d preq) tr \<and> performs D w tr w' \<and> progress D (PushCall d preq) tr = Inr (Pushed pr)))"
proof -
  have "serve D (FetchCall d req) w = (Fetched r, w') \<longleftrightarrow> fetch_call fs d req w = (r, w')"
    "serve D (PushCall d preq) w = (Pushed pr, w') \<longleftrightarrow> push_call ps d preq w = (pr, w')"
    using http_deployed [OF assms(1,2)] by (auto simp: assms(3) map_prod_def split: prod.split)
  then show ?thesis using serve_iff_steps [of D] by metis
qed

theorem service_in_steps_witness:
  "\<exists>tr w'. asked http_steps (FetchCall False request0) tr \<and> performs http_steps world0 tr w' \<and>
     progress http_steps (FetchCall False request0) tr = Inr (Fetched (Done (Some page, None)))"
proof -
  obtain w' where "fetch_call http_service False request0 world0 = (Done (Some page, None), w')"
    using http_service_run by (auto simp: fetch_call_def)
  with service_in_steps [OF http_servers http_example(1) refl, of False request0 world0] show ?thesis by blast
qed

text \<open>C3: whatever the order in which the steps of the calls of the service come, with the assets in a
  blob access, every asset in the store was there at the beginning, or was pushed by one of the calls
  for an instance name that allows updates, or was given by the wrapped fetcher for one of the calls and
  stored under its own URI and qualifiers; this at every moment, so also while calls are under way.\<close>

theorem concurrent_provenance:
  assumes "service_ok D contents" "concurrent contents D w0 ts w"
    and "held_assets D contents w df ref = Some a"
  shows "held_assets D contents w0 df ref = Some a \<or>
    pushed_origin (Outside D) (same_digest (Outside D)) (UpdatesAllowed D) (map fst ts) df ref a \<or>
    fetched_origin (Outside D) (same_digest (Outside D)) (Backend D) (map fst ts) df ref a"
  using concurrent_sourced [OF assms(1,2)] assms(3)
  unfolding sourced_def call_origin_def kbs.holds_only_def by blast

theorem concurrent_provenance_witness:
  "\<exists>tr w a. concurrent stored http_steps world0
       [(PushCall False push0, tr), (FetchCall False request0, [(AskAuthorizer False ''inst'', ErrorAnswer None)])] w \<and>
     held_assets http_steps stored w (''inst'', DF_SHA256) (cache_ref [] ''u'') = Some a \<and>
     (held_assets http_steps stored world0 (''inst'', DF_SHA256) (cache_ref [] ''u'') = Some a \<or>
      pushed_origin world_X (same_digest world_X) [''inst'' \<mapsto> True] [PushCall False push0, FetchCall False request0]
        (''inst'', DF_SHA256) (cache_ref [] ''u'') a \<or>
      fetched_origin world_X (same_digest world_X) (NewHTTPFetcher world_X (HttpLibrary example_env) 2 web objects_ba)
        [PushCall False push0, FetchCall False request0] (''inst'', DF_SHA256) (cache_ref [] ''u'') a)"
proof -
  from example_interleaving obtain tr w a where run: "concurrent stored http_steps world0
      [(PushCall False push0, tr), (FetchCall False request0, [(AskAuthorizer False ''inst'', ErrorAnswer None)])] w"
    and held: "held_assets http_steps stored w (''inst'', DF_SHA256) (cache_ref [] ''u'') = Some a" by auto
  from concurrent_provenance [OF http_steps_ok run held] run held show ?thesis by auto
qed

text \<open>C2: a service that downloads over HTTP and has its assets in a blob access. A fetch of a blob that
  ran beside any other calls, pushes to the same URI and fetches that fill the cache included, answers
  with the digest of all the bytes of a body: they were read to the end, in order, in answer to a request
  for the URI of the response, made for this call or for one with the same qualifiers but for the volatile
  ones, and have the checksum which that call asks for (if it has at least one byte); unless the
  digest was pushed for that URI and those qualifiers by a call that may, or was in the store under
  them at the beginning. (No two references of the request's URIs may have the same digest.)\<close>

theorem concurrent_verified:
  assumes ok: "service_ok D assets" "concurrent assets D w0 ts w"
    and backend: "Backend D = NewHTTPFetcher (Outside D) H n client cas" "keeps_blobs (Outside D) cas contents"
      "error_buffers (Outside D) H"
    and ended: "(FetchCall False req, tr) \<in> set ts" "progress D (FetchCall False req) tr = Inr (Fetched (Done (Some r, e)))"
    and unshared: "\<And>u. u \<in> set (Uris req) \<Longrightarrow> unshared (Outside D) (cache_ref (Qualifiers req) u)"
  shows "(\<exists>df a. held_assets D assets w0 df (cache_ref (Qualifiers req) (ResponseUri r)) = Some a \<and>
        AssetDigest a = ResponseDigest r) \<or>
    (\<exists>d preq df. PushCall d preq \<in> set (map fst ts) \<and> PushDigest preq = ResponseDigest r \<and>
        ResponseUri r \<in> set (PushUris preq) \<and>
        mset (PushQualifiers preq) = mset (removeVolatileQualifiers (Qualifiers req)) \<and>
        push_getDigestFunction (Outside D) (PushDigestFunction preq) (PushInstanceName preq) (PushDigest preq) = Inr df \<and>
        UpdatesAllowed D (GetInstanceName (Outside D) df) = Some True) \<or>
    (\<exists>req' rsp w1 w2. FetchCall False req' \<in> set (map fst ts) \<and>
        verified_download (Outside D) H n client cas contents req' rsp w1 w2 \<and>
        ResponseUri rsp = ResponseUri r \<and> ResponseDigest rsp = ResponseDigest r \<and>
        mset (removeVolatileQualifiers (Qualifiers req')) = mset (removeVolatileQualifiers (Qualifiers req)))"
  using ok ended
proof (cases rule: concurrent_response)
  case (now w1 w2)
  then have "verified_download (Outside D) H n client cas contents req r w1 w2"
    unfolding backend(1) by (rule FetchBlob_HTTP_success [OF backend(2,3)])
  with ended(1) show ?thesis by force
next
  case (cached u df a)
  have key: "same_digest (Outside D) df' ref' df (cache_ref (Qualifiers req) u) \<Longrightarrow> ref' = cache_ref (Qualifiers req) u"
    for df' ref'
    using unshared [OF cached(1)] by (simp add: unshared_def)
  have fields: "ResponseUri r = u" "ResponseDigest r = AssetDigest a" by (simp_all add: cached(2) cached_response_def)
  from cached(3) consider "held_assets D assets w0 df (cache_ref (Qualifiers req) u) = Some a"
    | "pushed_origin (Outside D) (same_digest (Outside D)) (UpdatesAllowed D) (map fst ts) df (cache_ref (Qualifiers req) u) a"
    | "fetched_origin (Outside D) (same_digest (Outside D)) (Backend D) (map fst ts) df (cache_ref (Qualifiers req) u) a"
    by (auto simp: call_origin_def)
  then show ?thesis
  proof cases
    case 2
    then show ?thesis
      using key cache_ref_pushed fields unfolding pushed_origin_def pushed_asset_def by metis
  next
    case 3
    then obtain d req' rsp w1 w2 where call: "FetchCall d req' \<in> set (map fst ts)"
      and run: "fetch_call (Backend D) d req' w1 = (Done (Some rsp, None), w2)"
      and ref: "cache_ref (Qualifiers req) u \<in> set (cache_refs req' rsp)" and a: "fetched_asset (Outside D) d rsp a"
      using key unfolding fetched_origin_def by metis
    from http_backend_response [OF backend(2,3) run [unfolded backend(1)]] cache_ref_fetched [OF ref] call a fields
    show ?thesis
      by (intro disjI2 exI [of _ req'] exI [of _ rsp] exI [of _ w1] exI [of _ w2]) (simp add: fetched_asset_def)
  qed (use fields in auto)
qed

theorem concurrent_verified_witness:
  "\<exists>tr1 tr2 w (r::FetchResponse). concurrent stored http_steps world0 [(FetchCall False request0, tr2), (PushCall False push0, tr1),
      (FetchCall False request0, [(AskAuthorizer False ''inst'', ErrorAnswer None)])] w \<and>
    ((\<exists>df a. held_assets http_steps stored world0 df (cache_ref (Qualifiers request0) (ResponseUri r)) = Some a \<and>
        AssetDigest a = ResponseDigest r) \<or>
     (\<exists>d preq df. PushCall d preq \<in> {FetchCall False request0, PushCall False push0} \<and> PushDigest preq = ResponseDigest r \<and>
        ResponseUri r \<in> set (PushUris preq) \<and>
        mset (PushQualifiers preq) = mset (removeVolatileQualifiers (Qualifiers request0)) \<and>
        push_getDigestFunction world_X (PushDigestFunction preq) (PushInstanceName preq) (PushDigest preq) = Inr df \<and>
        [''inst'' \<mapsto> True] (GetInstanceName world_X df) = Some True) \<or>
     (\<exists>req' rsp w1 w2. FetchCall False req' \<in> {FetchCall False request0, PushCall False push0} \<and>
        verified_download world_X (HttpLibrary example_env) 2 web objects_ba objects req' rsp w1 w2 \<and>
        ResponseUri rsp = ResponseUri r \<and> ResponseDigest rsp = ResponseDigest r \<and>
        mset (removeVolatileQualifiers (Qualifiers req')) = mset (removeVolatileQualifiers (Qualifiers request0))))"
proof -
  from example_interleaving obtain tr1 tr2 w r where run: "concurrent stored http_steps world0
      [(FetchCall False request0, tr2), (PushCall False push0, tr1),
       (FetchCall False request0, [(AskAuthorizer False ''inst'', ErrorAnswer None)])] w" (is "concurrent _ _ _ ?ts w")
    and ended: "progress http_steps (FetchCall False request0) tr2 = Inr (Fetched (Done (Some r, None)))" by blast
  from http_example(2) have backend: "keeps_blobs (Outside http_steps) objects_ba objects"
      "error_buffers (Outside http_steps) (HttpLibrary example_env)"
    by (simp_all add: http_environment_def)
  have here: "(FetchCall False request0, tr2) \<in> set ?ts" by simp
  have calls: "set (map fst ?ts) = {FetchCall False request0, PushCall False push0}" by auto
  note verified = concurrent_verified [OF http_steps_ok run _ backend here ended, where n = 2 and client = web]
  show ?thesis
    by (rule exI [of _ tr1], rule exI [of _ tr2], rule exI [of _ w], rule exI [of _ r], rule conjI [OF run])
       (use verified in \<open>simp add: calls [simplified] example_unshared\<close>)
qed

end
