(* ===== verification/Spec2Isabelle.thy ===== *)
theory Spec2Isabelle
  imports StoreProperties FetchProperties BackendProperties HTTPProperties HistoryProperties StartupProperties
    AssetStorage Metrics HTTPLiveness InterleavingProperties
begin

text \<open>
  This library models buildbarn's \<^emph>\<open>bb-remote-asset\<close>, a server for the Remote Asset API:
  clients fetch a blob or directory by URI and qualifiers and get its digest in a content
  addressable storage, or push such an association. The repository is Go; every definition
  is translated from it, and file and function names below are under \<open>src/\<close>.

  \<^bold>\<open>How the program is put together.\<close> \<open>cmd/bb_remote_asset/main.go\<close> builds an asset
  store, a fetch server and a push server. The store (\<open>pkg/storage\<close>) maps references
  (sorted URIs and qualifiers) to assets (a digest, an expiry, a time stamp, a type); it is
  either a blob access of its own or an existing action cache, behind an authorizer. The fetch
  server (\<open>pkg/fetch\<close>) is a chain of decorators of the interface \<open>Fetcher\<close>:
  authorizing, metrics, logging, validating, caching, and a backend that downloads over HTTP, runs
  a command by remote execution, or only fails. The caching fetcher looks in the asset store, asks
  the backend on a miss and stores what it gives. The push server (\<open>pkg/push\<close>) stores what
  clients push in the same asset store. Qualifiers have a package of their own
  (\<open>pkg/qualifier\<close>).

  \<^bold>\<open>The model.\<close> A call that may touch the world is a computation, a function from a world
  to an outcome (\<^const>\<open>Done\<close>, \<^const>\<open>Panic\<close> for a Go panic, \<^const>\<open>Unfinished\<close> when
  fuel runs out) and the next world; \<^const>\<open>bindM\<close>, \<^const>\<open>tryM\<close> and \<^const>\<open>checkM\<close> are
  its sequencing with Go's error returns. The world is a type variable: each theorem says
  what it needs of it. Everything outside the repository and the standard library (digests and
  buffers of bb-storage, gRPC status errors, timestamps, clock, log, authorizers, blob accesses,
  the HTTP transport, the files, the execution service, Prometheus) is a field of the records
  \<open>ext\<close>, \<open>BlobAccess\<close>, \<open>Authorizer\<close>, \<open>http_ext\<close>, \<open>HttpClient\<close>,
  \<open>ExecutionClient\<close>, \<open>process\<close>, \<open>buffer_ext\<close> and \<open>prometheus\<close>; what is assumed of it
  are named predicates beside them (\<^const>\<open>keeps_blobs\<close>, \<^const>\<open>typed_buffers\<close>,
  \<^const>\<open>buffers_roundtrip\<close>, \<^const>\<open>clock_keeps\<close>, \<^const>\<open>ranked_bodies\<close>, ...). Go interfaces
  are records of functions.

  \<^bold>\<open>The theories.\<close>
  \<^item> \<open>Prelude\<close>: computations, their rules, frames (\<^const>\<open>preserves\<close>) and totality
    (\<^const>\<open>panic_free\<close>). \<open>Messages\<close>: the messages and the outside.
  \<^item> The standard library, as far as it is used: \<open>GoStrings\<close> (strings), \<open>GoEncodings\<close>
    (\<open>strconv\<close>, hexadecimal digits, base64), \<open>GoJson\<close> (\<open>encoding/json\<close> and UTF-8). Each
    decoder is proved against a reference encoder.
  \<^item> \<open>QualifierSet\<close>, \<open>QualifierSorter\<close>, \<open>QualifierTranslator\<close>: the three files of
    \<open>pkg/qualifier\<close>. Locale \<open>name_set\<close> is the set interface, interpreted on the
    finite maps of the code; the sorter's order makes qualifiers a linear order.
  \<^item> \<open>AssetData\<close>: \<open>asset.go\<close>, \<open>asset_reference.go\<close>, \<open>digest.go\<close>.
    \<open>AssetStores\<close>: the interface of \<open>asset_store.go\<close> and its contract, the locales
    \<open>asset_store\<close>, \<open>total_asset_store\<close> and \<open>keyed_asset_store\<close>. Their clients (caching
    fetcher, push server, the whole service, histories of calls) are proved once, inside the locales.
    \<open>AbstractStore\<close>: the abstract specification, a map, that every store with the contract
    refines.
  \<^item> \<open>BlobAccessAssetStore\<close>, \<open>AuthorizingAssetStore\<close>, \<open>ActionCacheAssetStore\<close>:
    the three stores, each with an interpretation of the contract (\<open>bs\<close>, \<open>aas\<close>,
    \<open>acs\<close>, \<open>aacs\<close>, and with keys \<open>kbs\<close>, \<open>kaas\<close>, \<open>kacs\<close>, \<open>kaacs\<close>; the authorizing
    store keeps the contract of whatever it wraps).
    \<open>DirectoryTrees\<close> proves what the conversion of a directory to a tree computes;
    \<open>ActionCacheContract\<close> the contract, the order of writes and referential integrity.
  \<^item> \<open>AssetStorage\<close>: \<open>pkg/storage/blobstore\<close>, what bb-storage is told in order to hold
    assets, with the section reader of the standard library on 64-bit offsets.
  \<^item> \<open>PushServer\<close>: the push server, the error server and the metrics around it. Both push
    handlers are one program, \<^const>\<open>push_with\<close>.
  \<^item> \<open>Fetchers\<close>: the interface, \<open>utils.go\<close>, \<open>error_fetcher.go\<close> and the contracts
    of decorators, the locales \<open>fetch_gate\<close> (interpreted in \<open>GateFetchers\<close> on the
    validating and authorizing fetchers) and \<open>fetch_observer\<close> (interpreted in
    \<open>ObserverFetchers\<close> on logging and metrics). \<open>Metrics\<close>: the registration of the metrics of
    \<open>metrics_fetcher.go\<close> and \<open>metrics_push_server.go\<close>. \<open>CachingFetcher\<close>: the cache; both
    handlers are instances of \<^const>\<open>caching_with\<close>.
  \<^item> \<open>AuthHeaders\<close>, \<open>HTTPFetcher\<close>: \<open>auth_headers.go\<close> and \<open>http_fetcher.go\<close>;
    \<open>HTTPDownloads\<close> proves what a download gives, leaves alone and leaves behind.
    \<open>RemoteExecutionFetcher\<close>: \<open>remote_execution_fetcher.go\<close>.
  \<^item> \<open>Configuration\<close>: \<open>pkg/configuration\<close> and the part of \<open>main\<close> that builds the
    servers, and lemmas about the whole chain of layers. \<open>Startup\<close>: \<open>main\<close>.
    \<open>ServiceHistory\<close>: histories of calls of a service, an inductive relation, and where what the
    store holds comes from. \<open>Interleaving\<close>: calls that run at the same time. The handlers,
    functions of any world, are run in a world that holds the answers a call has got
    (\<open>replay\<close>), which gives its next effect (\<^const>\<open>progress\<close>); \<^const>\<open>concurrent\<close> lets
    calls arrive and take such steps in any order. \<open>InterleavedRuns\<close>: where the response of a call
    comes from then, and that a call whose steps nothing interrupts does what its handler does.
  \<^item> \<open>ExampleWorld\<close>, \<open>ExampleBackends\<close>, \<open>ExampleService\<close>: a concrete environment in which
    all the hypotheses hold, for the witnesses. \<open>StoreProperties\<close>, \<open>FetchProperties\<close>,
    \<open>BackendProperties\<close>, \<open>HTTPProperties\<close>, \<open>HTTPLiveness\<close>, \<open>HistoryProperties\<close>,
    \<open>InterleavingProperties\<close>, \<open>StartupProperties\<close>, the ends of \<open>AssetStorage\<close> and \<open>Metrics\<close>, and this theory: the
    properties.

  \<^bold>\<open>What the properties show.\<close> What is pushed is served by a later fetch through all
  layers, for both kinds of store; a response is the backend's or an asset stored under the
  request's own URI and stable qualifiers, not expired and new enough; a fetched blob is served
  from then on without the backend, a failed one is not cached (a failed directory is); pushes
  succeed only for listed instance names, and responses only for authorised callers and
  validated requests. After any history of calls, and at every moment while calls run side by side,
  all that the store holds was there at first, pushed by a client that may, or downloaded with the
  checksum asked for, with the type it was given; so is the digest a fetch answers with, whatever
  ran beside it. The servers that the configuration builds do in a call what its steps do.
  The stores refine a map, whatever the order of URIs and qualifiers; the action cache is written
  last, when all an entry refers to is stored; a directory becomes the preorder listing of its
  tree. A download that is answered with was read to its end, has the checksum asked for and is in
  storage; it sends the headers meant for its URI, and leaves no file behind; the first URI that can
  be reached is the one that is fetched. An output of remote execution is that of the command of its
  URI, ended with code zero. The process serves what its configuration says or ends with an error.

  \<^bold>\<open>Bounds and fuel.\<close> Three loops carry fuel, a parameter of the stores and fetchers: the
  recursion over subdirectories, the reads of a body, and the answers of an execution that is not
  done. None is bounded in the code. \<open>tree_terminates\<close>, \<open>http_fetch_terminates\<close> and
  \<open>remote_fetch_terminates\<close> show that fuel beyond a rank that decreases along stored
  directories, reads (\<^const>\<open>ranked_bodies\<close>) and operations (\<^const>\<open>ranked_streams\<close>) is enough,
  whatever else happens; the examples use fuel two and three. The other loops are structural recursion,
  or recursion on a decreasing length.

  \<^bold>\<open>Simplifications.\<close> Times are integers of nanoseconds with a location. A request's
  context is part of the world, so cancellation is an error of an external call. Slices
  sorted in place are replaced by their sorted copies wherever the code goes on to use them.
  Where the handlers observe a metric, its vector is named by a string; buckets are left out. Calls
  of the service follow one another in a history, or mix their effects; between them the world may
  do anything that leaves the stored assets alone. When they mix, a call of code outside is one step,
  and so is a whole fetch of the backend behind the cache, which does not touch the assets; they mix
  for a store in a blob access, not for the action cache.

  \<^bold>\<open>Not modelled.\<close> What libraries build from configuration messages, and the loop that serves
  gRPC, are functions in the records above. So are the making of a request from a URI
  (\<open>http.NewRequest\<close>), the wording of the errors of \<open>encoding/json\<close>, and what
  \<open>util.StatusWrapWithCode\<close> of bb-storage does with no error, which the HTTP fetcher asks of it
  for a request without a URI. Of generated protobuf code there are the messages, where they are used;
  mocks and tools have no logic.
\<close>

section \<open>Properties of the whole service\<close>

text \<open>C1: what is pushed to the service is what it serves. A push of a blob, with a digest and
  without an expiry, that succeeded at a service with its assets in a blob access; then, in any
  later world with the same contents of that blob access, a fetch of a blob: whose first URI is one of
  the pushed ones, whose qualifiers without the volatile ones are, in any order, those of the push,
  whose digest function is that of the push, which has no bound on the age of the content and only
  supported qualifiers, by a caller whom the authorizer lets through whenever asked. It returns
  the digest that was pushed, through all the layers of the service and whatever the fetcher
  behind the cache.\<close>

theorem service_push_then_fetch:
  assumes "newServers X env n config cas fa pa = Inr (fs, ps)"
    and "AssetCache config = Some cache" "CacheBackend cache = BackendBlobAccess g" "NewAssetBlobAccess env g = Inr ba"
    and "keeps_blobs X ba contents" "typed_buffers X"
    and "\<And>a. buffers_roundtrip X (MaximumMessageSizeBytes config) (MAsset a)"
    and "clock_keeps X contents" "log_keeps X contents" "auth_keeps fa contents" "auth_keeps pa contents"
    and allowed: "\<And>i w. fst (AuthorizeSingleInstanceName fa i w) = None"
    and push: "PushBlob ps preq w = (Done (Some v, None), w1)"
    and df: "push_getDigestFunction X (PushDigestFunction preq) (PushInstanceName preq) (PushDigest preq) = Inr df"
      "getDigestFunction X (DigestFunction req) (InstanceName req) = Inr df"
    and inst: "NewInstanceName X (InstanceName req) = Inr i"
    and req: "Uris req = u # us" "u \<in> set (PushUris preq)" "OldestContentAccepted req = None"
      "mset (filter (\<lambda>q. \<not> volatile q) (Qualifiers req)) = mset (PushQualifiers preq)"
      "IsEmpty (CheckQualifiers fs (QualifiersToSet (Qualifiers req)))"
    and pushed: "PushDigest preq \<noteq> None" "PushExpireAt preq = None"
    and later: "contents w2 = contents w1"
  shows "\<exists>r w3. FetchBlob fs req w2 = (Done (Some r, None), w3) \<and>
    ResponseDigest r = PushDigest preq \<and> ResponseUri r = u"
  using assms(1)
proof (cases rule: newServers_Inr)
  case (cached cache' st allow f)
  let ?c = "(X, (X, ba, MaximumMessageSizeBytes config, contents), fa, pa)"
  have st: "st = auth_store blob_store ?c"
    using cached(1,2) assms(2-4) by (auto simp: NewAssetStoreFromConfiguration_def blob_config_simps(1))
  have ok: "auth_ok blob_ok blob_view ?c" "clock_keeps X (auth_inner blob_view ?c)"
    "log_keeps X (auth_inner blob_view ?c)" "auth_keeps fa (auth_inner blob_view ?c)"
    using assms(5-11) by (simp_all add: blob_config_simps(2) blob_view_keeps)
  have fits: "auth_inner blob_fits ?c a \<and> everlasting X (auth_inner (\<lambda>_ a. a) ?c a)" if "pushed_asset preq BLOB a" for a
    using that assms(7) pushed(2) by (simp add: blob_config_simps(4) pushed_asset_def everlasting_None)
  have admits: "auth_admits (\<lambda>_ _ _. True) ?c df w" for w
    using allowed by (auto split: prod.split option.split) (metis fst_conv option.distinct(1))
  have same: "auth_inner blob_view ?c w2 = auth_inner blob_view ?c w1"
    unfolding auth_inner.simps using later by (rule blob_view_same)
  show ?thesis
    using aas.push_then_fetch [OF ok fits push [unfolded cached(5) st] df inst allowed req(1-4) _ admits same, of f]
      req(5) pushed(1) unfolding cached(4) st CheckQualifiers_layers CheckQualifiers_caching by simp
qed (use assms(2) in simp)

theorem service_push_then_fetch_witness:
  "\<exists>r w2. FetchBlob (example_fetcher example_store) request0
      (snd (PushBlob (example_pusher example_store) push0 world0)) = (Done (Some r, None), w2) \<and>
    ResponseDigest r = PushDigest push0 \<and> ResponseUri r = ''u''"
proof -
  obtain w' where push: "PushBlob (example_pusher example_store) push0 world0 = (Done (Some (), None), w')"
    using example_push by blast
  show ?thesis
    unfolding push snd_conv
    by (rule service_push_then_fetch [OF example_servers, where contents = stored and ba = stored_ba and g = True
          and cache = "\<lparr>CacheBackend = BackendBlobAccess True, ActionCachePlatform = None\<rparr>" and df = "(''inst'', DF_SHA256)" and i = "''inst''" and us = "[]", OF _ _ _ _ _ _ _ _ _ _ _ push])
       (simp_all add: example_config_def example_env_def push_getDigestFunction_def getDigestFunction_def
         DefaultFetcher_def)
qed


definition push_nil :: PushRequest where
  "push_nil = push0\<lparr>PushDigest := None\<rparr>"

lemma push_nil_fields [simp]:
  "PushInstanceName push_nil = ''inst''" "PushUris push_nil = [''u'']" "PushQualifiers push_nil = []"
  "PushExpireAt push_nil = None" "PushDigest push_nil = None" "PushDigestFunction push_nil = DF_SHA256"
  by (simp_all add: push_nil_def)



text \<open>C20: the same with the assets in an action cache, where the asset may have any expiry. A push of
  a blob with a digest whose hash is not empty that succeeded at such a service; then, in any later
  world with the same contents of the action cache, a fetch of a blob: whose first URI is one of the
  pushed ones, whose qualifiers without the volatile ones are those of the push, whose digest
  function is that of the push, which has no bound on the age of the content and only supported
  qualifiers, by a caller whom the authorizer lets through whenever asked. It returns the digest that
  was pushed, even when a pushed expiry has passed: this store does not keep it, although
  \<open>asset.proto\<close> says that the asset should not be returned then.\<close>

theorem service_push_then_fetch_action_cache:
  assumes "newServers X env n config cas fa pa = Inr (fs, ps)"
    and "AssetCache config = Some cache" "CacheBackend cache = BackendActionCache g" "NewACBlobAccess env g = Inr ac"
    and "keeps_blobs X ac contents" "separate cas contents" "timestamps_ok X"
    and "\<And>r. buffers_roundtrip X (MaximumMessageSizeBytes config) (MActionResult r)"
    and "clock_keeps X contents" "log_keeps X contents" "auth_keeps fa contents" "auth_keeps pa contents"
    and allowed: "\<And>i w. fst (AuthorizeSingleInstanceName fa i w) = None"
    and push: "PushBlob ps preq w = (Done (Some v, None), w1)"
    and df: "push_getDigestFunction X (PushDigestFunction preq) (PushInstanceName preq) (PushDigest preq) = Inr df"
      "getDigestFunction X (DigestFunction req) (InstanceName req) = Inr df"
    and inst: "NewInstanceName X (InstanceName req) = Inr i"
    and req: "Uris req = u # us" "u \<in> set (PushUris preq)" "OldestContentAccepted req = None"
      "mset (filter (\<lambda>q. \<not> volatile q) (Qualifiers req)) = mset (PushQualifiers preq)"
      "IsEmpty (CheckQualifiers fs (QualifiersToSet (Qualifiers req)))"
    and pushed: "PushDigest preq = Some d" "Hash d \<noteq> []"
    and later: "contents w2 = contents w1"
  shows "\<exists>r w3. FetchBlob fs req w2 = (Done (Some r, None), w3) \<and>
    ResponseDigest r = PushDigest preq \<and> ResponseUri r = u"
  using assms(1)
proof (cases rule: newServers_Inr)
  case (cached cache' st allow f)
  let ?rs = "\<lparr>actionCache = ac, contentAddressableStorage = cas,
    maximumMessageSize = MaximumMessageSizeBytes config, platform = ActionCachePlatform cache\<rparr>"
  let ?c = "(X, (X, ?rs, n, contents), fa, pa)"
  have st: "st = auth_store ac_store ?c"
    using cached(1,2) assms(2-4) by (auto simp: NewAssetStoreFromConfiguration_def ac_config_simps(1))
  have ok: "auth_ok ac_ok ac_view ?c" "clock_keeps X (auth_inner ac_view ?c)"
    "log_keeps X (auth_inner ac_view ?c)" "auth_keeps fa (auth_inner ac_view ?c)"
    using assms(5,6,9-12) by (simp_all add: ac_config_simps(2) ac_view_keeps)
  have fits: "auth_inner ac_fits ?c a \<and> everlasting X (auth_inner ac_image ?c a)" if "pushed_asset preq BLOB a" for a
    using that assms(7,8) pushed by (simp add: ac_config_simps(4,5) pushed_asset_def everlasting_default)
  have admits: "auth_admits (\<lambda>_ _ _. True) ?c df w" for w
    using allowed by (auto split: prod.split option.split) (metis fst_conv option.distinct(1))
  have same: "auth_inner ac_view ?c w2 = auth_inner ac_view ?c w1"
    unfolding auth_inner.simps using later by (rule ac_view_same)
  from aacs.push_then_fetch [OF ok fits push [unfolded cached(5) st] df inst allowed req(1-4) _ admits same, of f]
    req(5) pushed(1) show ?thesis unfolding cached(4) st CheckQualifiers_layers CheckQualifiers_caching by simp
qed (use assms(2) in simp)

theorem service_push_then_fetch_action_cache_witness:
  "\<exists>r w2. FetchBlob (example_fetcher example_action_store) request0
      (snd (PushBlob (example_pusher example_action_store) push0 world0)) = (Done (Some r, None), w2) \<and>
    ResponseDigest r = PushDigest push0 \<and> ResponseUri r = ''u''"
proof -
  obtain w' where push: "PushBlob (example_pusher example_action_store) push0 world0 = (Done (Some (), None), w')"
    using example_action_push by blast
  show ?thesis
    unfolding push snd_conv
    by (rule service_push_then_fetch_action_cache [OF example_action_servers, where contents = stored and ac = stored_ba
          and g = True and cache = "\<lparr>CacheBackend = BackendActionCache True, ActionCachePlatform = None\<rparr>"
          and df = "(''inst'', DF_SHA256)" and i = "''inst''" and us = "[]" and d = "\<lparr>Hash = ''abc'', SizeBytes = 3\<rparr>",
          OF _ _ _ _ _ _ _ _ _ _ _ _ push])
       (simp_all add: example_config_def example_env_def push_getDigestFunction_def getDigestFunction_def
         DefaultFetcher_def)
qed

text \<open>C14: only instance names the configuration lists can be pushed to: a push of a blob or of
  a directory that succeeded named a URI, and its digest function is one for the instance name that
  one of the listed strings stands for.\<close>

theorem service_push_only_allowed:
  assumes "newServers X env n config cas fa pa = Inr (fs, ps)"
    and push: "PushBlob ps preq w = (Done (Some v, e), w1) \<or> PushDirectory ps preq w = (Done (Some v, e), w1)"
    and "statuses_ok X"
  shows "PushUris preq \<noteq> [] \<and>
    (\<exists>df s. push_getDigestFunction X (PushDigestFunction preq) (PushInstanceName preq) (PushDigest preq) = Inr df \<and>
      s \<in> set (AllowUpdatesForInstances config) \<and> NewInstanceName X s = Inr (GetInstanceName X df))"
  using assms(1)
proof (cases rule: newServers_Inr)
  case (cached cache st allow f)
  from metrics_push_inner [OF push [unfolded cached(5)]] obtain v1 v2 where
    "PushBlob (NewAssetPushServer X st allow) preq v1 = (Done (Some v, e), v2) \<or>
     PushDirectory (NewAssetPushServer X st allow) preq v1 = (Done (Some v, e), v2)" by blast
  then obtain t m1 m2 where "push_with X \<lparr>assetStore = st, allowUpdatesForInstances = allow\<rparr> t m1 m2 preq v1 =
      (Done (Inr v), v2)"
    by (auto simp: NewAssetPushServer_run replyM_success PushBlob_push_with PushDirectory_push_with)
  with cached(3) show ?thesis
    by (auto simp: push_with_success may_update_def allowUpdates_Inr split: if_split_asm)
next
  case (uncached f)
  with assms(2,3) show ?thesis
    by (simp add: NewErrorPushServer_run errorPushServer_Push_def statuses_ok_def)
qed

theorem service_push_only_allowed_witness:
  "PushUris push0 \<noteq> [] \<and>
    (\<exists>df s. push_getDigestFunction world_X (PushDigestFunction push0) (PushInstanceName push0) (PushDigest push0) = Inr df \<and>
      s \<in> set (AllowUpdatesForInstances (example_config (BackendBlobAccess True))) \<and>
      NewInstanceName world_X s = Inr (GetInstanceName world_X df))"
proof -
  obtain w' where push: "PushBlob (example_pusher example_store) push0 world0 = (Done (Some (), None), w')"
    using example_push by blast
  show ?thesis by (rule service_push_only_allowed [OF example_servers disjI1 [OF push]]) simp
qed

text \<open>C15: a response of the service to a fetch of a blob or of a directory means that the
  authorizer for fetches, asked in the world in which the call came, let the caller through for the
  instance name of the request, and that the request named a URI and only qualifiers the fetcher
  supports.\<close>

theorem service_fetch_authorized:
  assumes "newServers X env n config cas fa pa = Inr (fs, ps)"
    and fetch: "FetchBlob fs req w = (Done (Some r, e), w') \<or> FetchDirectory fs req w = (Done (Some r, e), w')"
  shows "Uris req \<noteq> [] \<and> IsEmpty (CheckQualifiers fs (QualifiersToSet (Qualifiers req))) \<and>
    (\<exists>i w1. NewInstanceName X (InstanceName req) = Inr i \<and> AuthorizeSingleInstanceName fa i w = (None, w1))"
proof -
  obtain f where fs: "fs = fetch_layers X fa f"
    using assms(1) by (cases rule: newServers_Inr) auto
  show ?thesis
    using fetch layers_response [of X fa f req w r e w'] layers_directory_response [of X fa f req w r e w']
    unfolding fs CheckQualifiers_layers by blast
qed

theorem service_fetch_authorized_witness:
  "Uris request0 \<noteq> [] \<and> IsEmpty (CheckQualifiers (example_fetcher example_store) (QualifiersToSet (Qualifiers request0))) \<and>
    (\<exists>i w1. NewInstanceName world_X (InstanceName request0) = Inr i \<and>
      AuthorizeSingleInstanceName always i world2 = (None, w1))"
proof -
  obtain r w2 where "FetchBlob (example_fetcher example_store) request0 world2 = (Done (Some r, None), w2)"
    using example_fetch by blast
  from service_fetch_authorized [OF example_servers disjI1 [OF this]] show ?thesis .
qed

text \<open>A service without an asset cache accepts no push: each is answered with a failed
  precondition, and nothing happens.\<close>

theorem service_uncached_refuses_pushes:
  assumes "newServers X env n config cas fa pa = Inr (fs, ps)" "AssetCache config = None" "statuses_ok X"
  shows "PushBlob ps preq w = (Done (None, Some (StatusError code_FailedPrecondition
      ''Server is not configured to allow pushing assets'')), w) \<and>
    PushDirectory ps preq w = (Done (None, Some (StatusError code_FailedPrecondition
      ''Server is not configured to allow pushing assets'')), w)"
  using assms(1)
proof (cases rule: newServers_Inr)
  case (uncached f)
  with assms(3) show ?thesis
    by (simp add: NewErrorPushServer_run errorPushServer_Push_def statuses_ok_def)
qed (use assms(2) in simp)

theorem service_uncached_witness:
  "\<exists>fs ps. newServers world_X example_env 3 ((example_config BackendUnset)\<lparr>AssetCache := None\<rparr>) objects_ba always always =
      Inr (fs, ps) \<and>
    PushBlob ps push0 world0 = (Done (None, Some (StatusError code_FailedPrecondition
      ''Server is not configured to allow pushing assets'')), world0)"
proof -
  obtain fs ps where servers: "newServers world_X example_env 3 ((example_config BackendUnset)\<lparr>AssetCache := None\<rparr>)
      objects_ba always always = Inr (fs, ps)"
    by (simp add: newServers_def NewFetcherFromConfiguration_def example_config_def)
  from service_uncached_refuses_pushes [OF this] servers show ?thesis by (auto simp: example_config_def)
qed

subsection \<open>The service over HTTP\<close>

text \<open>Every response of a service that downloads over HTTP is either an asset that was stored
  under one of the request's URIs, or was downloaded for this request, with the checksum the
  client asked for, and put in the content addressable storage.\<close>

theorem service_http_verified:
  assumes "newServers X env n config cas fa pa = Inr (fs, ps)"
    and "AssetCache config = Some cache" "CacheBackend cache = BackendBlobAccess g" "NewAssetBlobAccess env g = Inr ba"
    and "FetcherConf config = Some (BackendHttp h)" "NewHttpClient env h = Inr client"
    and "keeps_blobs X ba assets" "typed_buffers X" "keeps_blobs X cas contents" "error_buffers X (HttpLibrary env)"
    and "clock_keeps X assets" "log_keeps X assets" "auth_keeps fa assets" "auth_keeps pa assets"
    and "FetchBlob fs req w = (Done (Some r, e), w')"
  shows "(\<exists>u df a. u \<in> set (Uris req) \<and> r = cached_response False req u a \<and>
      blob_view (X, ba, MaximumMessageSizeBytes config, assets) w df (cache_ref (Qualifiers req) u) = Some a) \<or>
    (\<exists>w1 w2. verified_download X (HttpLibrary env) n client cas contents req r w1 w2)"
proof -
  let ?c = "(X, (X, ba, MaximumMessageSizeBytes config, assets), fa, pa)"
  have st: "NewAuthorizingAssetStore X (NewBlobAccessAssetStore X ba (MaximumMessageSizeBytes config)) fa pa =
      auth_store blob_store ?c"
    by (simp add: blob_config_simps(1))
  have ok: "auth_ok blob_ok blob_view ?c" "clock_keeps X (auth_inner blob_view ?c)"
    "log_keeps X (auth_inner blob_view ?c)" "auth_keeps fa (auth_inner blob_view ?c)"
    using assms(7-14) by (simp_all add: blob_config_simps(2) blob_view_keeps)
  have "FetchBlob (fetch_layers X fa (NewCachingFetcher X (NewHTTPFetcher X (HttpLibrary env) n client cas)
      (auth_store blob_store ?c))) req w = (Done (Some r, e), w')"
    using assms(15) newServers_http [OF assms(1-6)] by (simp only: st)
  from aas.layers_response_source [OF ok this] show ?thesis
    using FetchBlob_HTTP_success [OF assms(9,10)] unfolding auth_inner.simps by blast
qed

theorem service_http_verified_witness:
  "(\<exists>u df a. u \<in> set (Uris request0) \<and> page = cached_response False request0 u a \<and>
      blob_view (world_X, stored_ba, MaximumMessageSizeBytes http_config, stored) world0 df
        (cache_ref (Qualifiers request0) u) = Some a) \<or>
    (\<exists>w1 w2. verified_download world_X (HttpLibrary example_env) 2 web objects_ba objects request0 page w1 w2)"
proof -
  obtain w' where "FetchBlob http_service request0 world0 = (Done (Some page, None), w')"
    using http_service_run by blast
  then show ?thesis
    by (rule service_http_verified [OF http_servers, where g = True and h = "()" and ba = stored_ba and client = web
          and cache = "\<lparr>CacheBackend = BackendBlobAccess True, ActionCachePlatform = None\<rparr>", rotated -1])
       (simp_all add: http_config_def example_config_def example_env_def world_error_buffers)
qed

end
